theory Spec2Isabelle
  imports Complex_Main "HOL-Library.Multiset" "HOL-Library.Sublist" "HOL-Library.Log_Nat"
begin

section \<open>Number model\<close>

text \<open>
  The program is TypeScript; every \<^verbatim>\<open>number\<close> is an IEEE 754 binary64 value.
  Three models of \<^verbatim>\<open>number\<close> are used, and each definition says which one it uses.

  \<^item> Quantities of the simulation (positions, velocities, impulses) are modelled as
    \<^typ>\<open>real\<close>: exact arithmetic, no rounding, no NaN and no infinities.
    \<^verbatim>\<open>Math.max\<close>, \<^verbatim>\<open>Math.min\<close>, \<^verbatim>\<open>Math.abs\<close> and \<^verbatim>\<open>Math.floor\<close> are
    \<^const>\<open>max\<close>, \<^const>\<open>min\<close>, \<^const>\<open>abs\<close> and \<^const>\<open>floor\<close>.
  \<^item> Where a rounded value decides a count or a branch that a claim is about (the clock
    of the driver, the threshold of the restitution bias), the rounding of binary64 is
    written out on the reals: \<open>fl64\<close> below, and a decimal literal \<^verbatim>\<open>0.1\<close> of the source
    is \<open>fl64 (1 / 10)\<close>.
  \<^item> Identifiers (\<^verbatim>\<open>RigidBody.id\<close>) hold natural numbers. Where their magnitude decides
    a claim (the collision key), the rounding of binary64 is written out on the naturals
    (\<open>round_double\<close> below).
\<close>

text \<open>
  \<open>fl64 x\<close> is the binary64 value nearest to the real \<open>x\<close>, ties to the even significand:
  \<open>exponent64 x\<close> is the exponent \<open>e\<close> with \<open>2^e \<le> |x| < 2^(e+1)\<close>, the spacing of the
  binary64 values there is \<open>2^(e - 52)\<close>, and below \<open>2^(-1022)\<close> (the subnormal range) it
  is \<open>2^(-1074)\<close>. Overflow to an infinity is not modelled: the results are below
  \<open>2^1024\<close>. A binary64 operation of the source on finite values is the exact operation
  followed by \<open>fl64\<close>.
\<close>

definition exponent64 :: "real \<Rightarrow> int" where
  "exponent64 x =
     (if 1 \<le> \<bar>x\<bar> then bitlen \<lfloor>\<bar>x\<bar>\<rfloor> - 1 else - bitlen (\<lceil>1 / \<bar>x\<bar>\<rceil> - 1))"

definition round_half_even :: "real \<Rightarrow> int" where
  "round_half_even y =
     (let f = \<lfloor>y\<rfloor>; d = y - of_int f
      in if d < 1 / 2 then f else if 1 / 2 < d then f + 1 else if even f then f else f + 1)"

definition fl64 :: "real \<Rightarrow> real" where
  "fl64 x =
     (if x = 0 then 0
      else let e = max (exponent64 x) (- 1022);
               u = 2 powi (e - 52)
           in of_int (round_half_even (x / u)) * u)"

section \<open>The collision key: \<^verbatim>\<open>Collision.constructor\<close>\<close>

text \<open>
  \<^verbatim>\<open>this.id = bodyA.id * 1e10 + bodyB.id;\<close>

  Body identifiers are natural numbers (\<^verbatim>\<open>RigidBody.nextID++\<close>, starting at 0). The
  product and the sum are binary64 operations: each returns the exact result rounded
  to the nearest value with a 53-bit significand, ties to the even significand.
  \<open>round_double\<close> is that rounding on the naturals (no overflow below \<open>2 ^ 1024\<close>).
\<close>

fun bit_length :: "nat \<Rightarrow> nat" where
  "bit_length n = (if n = 0 then 0 else Suc (bit_length (n div 2)))"

declare bit_length.simps [simp del]

definition round_double :: "nat \<Rightarrow> nat" where
  "round_double n =
     (if n < 2 ^ 53 then n
      else let e = bit_length n - 53;
               q = n div 2 ^ e;
               r = n mod 2 ^ e;
               half = 2 ^ (e - 1)
           in if r < half then q * 2 ^ e
              else if half < r then (q + 1) * 2 ^ e
              else if even q then q * 2 ^ e
              else (q + 1) * 2 ^ e)"

definition collision_id :: "nat \<Rightarrow> nat \<Rightarrow> nat" where
  "collision_id idA idB = round_double (round_double (idA * 10 ^ 10) + idB)"

section \<open>Geometry kernel\<close>

text \<open>
  Objects of the classes \<^verbatim>\<open>Vec2\<close>, \<^verbatim>\<open>AABB\<close>, \<^verbatim>\<open>Circle\<close>, \<^verbatim>\<open>Polygon\<close> and
  \<^verbatim>\<open>Capsule\<close> are modelled as values: a method that mutates \<^verbatim>\<open>this\<close> returns the
  new value. This is the program's behaviour as long as no two owners share one vector
  object, which holds for every vector the engine creates itself (the static \<^verbatim>\<open>Vec2\<close>
  operations clone, \<^verbatim>\<open>Circle.setCentre\<close> clones, \<^verbatim>\<open>AABB.fromShape\<close> and
  \<^verbatim>\<open>getFurthestPoint\<close> build new vectors). The fields \<^verbatim>\<open>x\<close> and \<^verbatim>\<open>y\<close> are
  the selectors \<open>vec_x\<close> and \<open>vec_y\<close>; \<^verbatim>\<open>min\<close> and \<^verbatim>\<open>max\<close> of an AABB are
  \<open>AABB_min\<close> and \<open>AABB_max\<close>.
\<close>

datatype Vec2 = Vec2 (vec_x: real) (vec_y: real)

definition Vec2_zero :: Vec2 where
  "Vec2_zero = Vec2 0 0"

definition Vec2_perpendicular :: "Vec2 \<Rightarrow> Vec2" where
  "Vec2_perpendicular v = Vec2 (- vec_y v) (vec_x v)"

definition Vec2_isZero :: "Vec2 \<Rightarrow> bool" where
  "Vec2_isZero v \<longleftrightarrow> vec_x v = 0 \<and> vec_y v = 0"

definition Vec2_magnitude :: "Vec2 \<Rightarrow> real" where
  "Vec2_magnitude v = sqrt (vec_x v * vec_x v + vec_y v * vec_y v)"

definition Vec2_magnitudeSquared :: "Vec2 \<Rightarrow> real" where
  "Vec2_magnitudeSquared v = vec_x v * vec_x v + vec_y v * vec_y v"

definition Vec2_normalise :: "Vec2 \<Rightarrow> Vec2" where
  "Vec2_normalise v =
     (let m = Vec2_magnitude v
      in if m > 0 then Vec2 (vec_x v / m) (vec_y v / m) else v)"

definition Vec2_dot :: "Vec2 \<Rightarrow> Vec2 \<Rightarrow> real" where
  "Vec2_dot lhs rhs = vec_x lhs * vec_x rhs + vec_y lhs * vec_y rhs"

definition Vec2_cross :: "Vec2 \<Rightarrow> Vec2 \<Rightarrow> real" where
  "Vec2_cross lhs rhs = vec_x lhs * vec_y rhs - vec_y lhs * vec_x rhs"

definition Vec2_add :: "Vec2 \<Rightarrow> Vec2 \<Rightarrow> Vec2" where
  "Vec2_add lhs rhs = Vec2 (vec_x lhs + vec_x rhs) (vec_y lhs + vec_y rhs)"

definition Vec2_sub :: "Vec2 \<Rightarrow> Vec2 \<Rightarrow> Vec2" where
  "Vec2_sub lhs rhs = Vec2 (vec_x lhs - vec_x rhs) (vec_y lhs - vec_y rhs)"

definition Vec2_mulScalar :: "Vec2 \<Rightarrow> real \<Rightarrow> Vec2" where
  "Vec2_mulScalar lhs rhs = Vec2 (vec_x lhs * rhs) (vec_y lhs * rhs)"

definition Vec2_neg :: "Vec2 \<Rightarrow> Vec2" where
  "Vec2_neg v = Vec2 (- vec_x v) (- vec_y v)"

text \<open>
  \<^verbatim>\<open>rotate(rad, origin, sin, cos)\<close>: subtract the origin, turn, add the origin. Every
  caller passes \<^verbatim>\<open>Math.sin(rad)\<close> and \<^verbatim>\<open>Math.cos(rad)\<close> or leaves them to the
  defaults, which are the same values.
\<close>

definition Vec2_rotate :: "Vec2 \<Rightarrow> real \<Rightarrow> Vec2 \<Rightarrow> Vec2" where
  "Vec2_rotate v rad origin =
     (let v1 = Vec2_sub v origin;
          v2 = Vec2 (cos rad * vec_x v1 - sin rad * vec_y v1)
                    (sin rad * vec_x v1 + cos rad * vec_y v1)
      in Vec2_add v2 origin)"

datatype Vec3 = Vec3 (vec3_x: real) (vec3_y: real) (vec3_z: real)

definition Vec3_cross :: "Vec3 \<Rightarrow> Vec3 \<Rightarrow> Vec3" where
  "Vec3_cross lhs rhs =
     Vec3 (vec3_y lhs * vec3_z rhs - vec3_z lhs * vec3_y rhs)
          (vec3_z lhs * vec3_x rhs - vec3_x lhs * vec3_z rhs)
          (vec3_x lhs * vec3_y rhs - vec3_y lhs * vec3_x rhs)"

definition Vec3_intoVec2 :: "Vec3 \<Rightarrow> Vec2" where
  "Vec3_intoVec2 v = Vec2 (vec3_x v) (vec3_y v)"

definition Vec2_tripleCross :: "Vec2 \<Rightarrow> Vec2 \<Rightarrow> Vec2 \<Rightarrow> Vec2" where
  "Vec2_tripleCross v1 v2 v3 =
     Vec3_intoVec2
       (Vec3_cross (Vec3_cross (Vec3 (vec_x v1) (vec_y v1) 0) (Vec3 (vec_x v2) (vec_y v2) 0))
                   (Vec3 (vec_x v3) (vec_y v3) 0))"

text \<open>\<^verbatim>\<open>Number.MAX_VALUE\<close>, \<^verbatim>\<open>Number.MAX_SAFE_INTEGER\<close> and \<^verbatim>\<open>Number.MIN_SAFE_INTEGER\<close>.\<close>

definition MAX_VALUE :: real where
  "MAX_VALUE = (2 ^ 53 - 1) * 2 ^ 971"

definition MAX_SAFE_INTEGER :: real where
  "MAX_SAFE_INTEGER = 2 ^ 53 - 1"

definition MIN_SAFE_INTEGER :: real where
  "MIN_SAFE_INTEGER = - (2 ^ 53 - 1)"

subsection \<open>Shapes\<close>

datatype Circle = Circle (centre: Vec2) (radius: real)

definition Circle_getMinX :: "Circle \<Rightarrow> real" where
  "Circle_getMinX c = vec_x (centre c) - radius c"

definition Circle_getMinY :: "Circle \<Rightarrow> real" where
  "Circle_getMinY c = vec_y (centre c) - radius c"

definition Circle_getMaxX :: "Circle \<Rightarrow> real" where
  "Circle_getMaxX c = vec_x (centre c) + radius c"

definition Circle_getMaxY :: "Circle \<Rightarrow> real" where
  "Circle_getMaxY c = vec_y (centre c) + radius c"

definition Circle_getArea :: "Circle \<Rightarrow> real" where
  "Circle_getArea c = pi * radius c * radius c"

definition Circle_setCentre :: "Circle \<Rightarrow> Vec2 \<Rightarrow> Circle" where
  "Circle_setCentre c p = Circle p (radius c)"

definition Circle_rotate :: "Circle \<Rightarrow> real \<Rightarrow> Vec2 \<Rightarrow> Circle" where
  "Circle_rotate c radians origin = Circle (Vec2_rotate (centre c) radians origin) (radius c)"

definition Circle_translate :: "Circle \<Rightarrow> Vec2 \<Rightarrow> Circle" where
  "Circle_translate c delta = Circle (Vec2_add (centre c) delta) (radius c)"

definition Circle_getFurthestPoint :: "Circle \<Rightarrow> Vec2 \<Rightarrow> Vec2" where
  "Circle_getFurthestPoint c direction =
     Vec2_add (centre c) (Vec2_mulScalar direction (radius c))"

datatype Polygon = Polygon (points: "Vec2 list")

text \<open>The accumulating loops of \<^verbatim>\<open>Polygon\<close> are folds from the loop's initial value.\<close>

definition Polygon_getMinX :: "Polygon \<Rightarrow> real" where
  "Polygon_getMinX poly = fold (\<lambda>p m. min m (vec_x p)) (points poly) MAX_SAFE_INTEGER"

definition Polygon_getMinY :: "Polygon \<Rightarrow> real" where
  "Polygon_getMinY poly = fold (\<lambda>p m. min m (vec_y p)) (points poly) MAX_SAFE_INTEGER"

definition Polygon_getMaxX :: "Polygon \<Rightarrow> real" where
  "Polygon_getMaxX poly = fold (\<lambda>p m. max m (vec_x p)) (points poly) MIN_SAFE_INTEGER"

definition Polygon_getMaxY :: "Polygon \<Rightarrow> real" where
  "Polygon_getMaxY poly = fold (\<lambda>p m. max m (vec_y p)) (points poly) MIN_SAFE_INTEGER"

definition Polygon_getArea :: "Polygon \<Rightarrow> real" where
  "Polygon_getArea poly =
     (let ps = points poly;
          area = fold (\<lambda>i a. a + Vec2_cross (ps ! i) (ps ! ((i + 1) mod length ps)))
                      [0 ..< length ps] 0
      in \<bar>area\<bar> * 0.5)"

definition Polygon_getCentre :: "Polygon \<Rightarrow> Vec2" where
  "Polygon_getCentre poly =
     (let ps = points poly;
          sx = fold (\<lambda>p s. s + vec_x p) ps 0;
          sy = fold (\<lambda>p s. s + vec_y p) ps 0
      in Vec2 (sx / real (length ps)) (sy / real (length ps)))"

definition Polygon_translate :: "Polygon \<Rightarrow> Vec2 \<Rightarrow> Polygon" where
  "Polygon_translate poly delta = Polygon (map (\<lambda>p. Vec2_add p delta) (points poly))"

definition Polygon_setCentre :: "Polygon \<Rightarrow> Vec2 \<Rightarrow> Polygon" where
  "Polygon_setCentre poly c = Polygon_translate poly (Vec2_sub c (Polygon_getCentre poly))"

definition Polygon_rotate :: "Polygon \<Rightarrow> real \<Rightarrow> Vec2 \<Rightarrow> Polygon" where
  "Polygon_rotate poly radians origin =
     Polygon (map (\<lambda>p. Vec2_rotate p radians origin) (points poly))"

text \<open>
  \<^verbatim>\<open>getFurthestPoint\<close>: the first point with the strictly largest projection, starting
  from \<^verbatim>\<open>best = -Number.MAX_VALUE\<close> and \<^verbatim>\<open>bestPoint = Vec2.zero()\<close>.
\<close>

definition Polygon_getFurthestPoint :: "Polygon \<Rightarrow> Vec2 \<Rightarrow> Vec2" where
  "Polygon_getFurthestPoint poly direction =
     snd (fold (\<lambda>point (best, bestPoint).
                  let projection = Vec2_dot point direction
                  in if projection > best then (projection, point) else (best, bestPoint))
               (points poly) (- MAX_VALUE, Vec2_zero))"

datatype Capsule =
  Capsule (rectangle: Polygon) (circles0: Circle) (circles1: Circle)
          (capsule_length: real) (angle: real)

definition Capsule_new :: "Vec2 \<Rightarrow> real \<Rightarrow> real \<Rightarrow> Capsule" where
  "Capsule_new c r len =
     (let halfLength = len * 0.5
      in Capsule
           (Polygon [Vec2 (vec_x c - halfLength) (vec_y c - r),
                     Vec2 (vec_x c + halfLength) (vec_y c - r),
                     Vec2 (vec_x c + halfLength) (vec_y c + r),
                     Vec2 (vec_x c - halfLength) (vec_y c + r)])
           (Circle (Vec2 (vec_x c + halfLength) (vec_y c)) r)
           (Circle (Vec2 (vec_x c - halfLength) (vec_y c)) r)
           len 0)"

definition Capsule_getFurthestPoint :: "Capsule \<Rightarrow> Vec2 \<Rightarrow> Vec2" where
  "Capsule_getFurthestPoint cap direction =
     Vec2_add
       (if Vec2_dot direction (Vec2_sub (centre (circles1 cap)) (centre (circles0 cap))) \<ge> 0
        then centre (circles1 cap) else centre (circles0 cap))
       (Vec2_mulScalar direction (radius (circles0 cap)))"

definition Capsule_getArea :: "Capsule \<Rightarrow> real" where
  "Capsule_getArea cap =
     (let r = radius (circles0 cap) in pi * r * r + capsule_length cap * r * 2)"

definition Capsule_getMinX :: "Capsule \<Rightarrow> real" where
  "Capsule_getMinX cap = min (Circle_getMinX (circles0 cap)) (Circle_getMinX (circles1 cap))"

definition Capsule_getMinY :: "Capsule \<Rightarrow> real" where
  "Capsule_getMinY cap = min (Circle_getMinY (circles0 cap)) (Circle_getMinY (circles1 cap))"

definition Capsule_getMaxX :: "Capsule \<Rightarrow> real" where
  "Capsule_getMaxX cap = max (Circle_getMaxX (circles0 cap)) (Circle_getMaxX (circles1 cap))"

definition Capsule_getMaxY :: "Capsule \<Rightarrow> real" where
  "Capsule_getMaxY cap = max (Circle_getMaxY (circles0 cap)) (Circle_getMaxY (circles1 cap))"

definition Capsule_getCentre :: "Capsule \<Rightarrow> Vec2" where
  "Capsule_getCentre cap =
     Vec2_mulScalar (Vec2_add (centre (circles0 cap)) (centre (circles1 cap))) 0.5"

definition Capsule_translate :: "Capsule \<Rightarrow> Vec2 \<Rightarrow> Capsule" where
  "Capsule_translate cap delta =
     Capsule (Polygon_translate (rectangle cap) delta)
             (Circle_translate (circles0 cap) delta)
             (Circle_translate (circles1 cap) delta)
             (capsule_length cap) (angle cap)"

definition Capsule_setCentre :: "Capsule \<Rightarrow> Vec2 \<Rightarrow> Capsule" where
  "Capsule_setCentre cap c = Capsule_translate cap (Vec2_sub c (Capsule_getCentre cap))"

definition Capsule_rotate :: "Capsule \<Rightarrow> real \<Rightarrow> Vec2 \<Rightarrow> Capsule" where
  "Capsule_rotate cap radians origin =
     Capsule (Polygon_rotate (rectangle cap) radians origin)
             (Circle_rotate (circles0 cap) radians origin)
             (Circle_rotate (circles1 cap) radians origin)
             (capsule_length cap) (angle cap + radians)"

text \<open>The interface \<^verbatim>\<open>Shape\<close> with its three implementations, dispatched by case.\<close>

datatype Shape = CircleShape Circle | PolygonShape Polygon | CapsuleShape Capsule

fun Shape_getMinX :: "Shape \<Rightarrow> real" where
  "Shape_getMinX (CircleShape c) = Circle_getMinX c"
| "Shape_getMinX (PolygonShape p) = Polygon_getMinX p"
| "Shape_getMinX (CapsuleShape c) = Capsule_getMinX c"

fun Shape_getMinY :: "Shape \<Rightarrow> real" where
  "Shape_getMinY (CircleShape c) = Circle_getMinY c"
| "Shape_getMinY (PolygonShape p) = Polygon_getMinY p"
| "Shape_getMinY (CapsuleShape c) = Capsule_getMinY c"

fun Shape_getMaxX :: "Shape \<Rightarrow> real" where
  "Shape_getMaxX (CircleShape c) = Circle_getMaxX c"
| "Shape_getMaxX (PolygonShape p) = Polygon_getMaxX p"
| "Shape_getMaxX (CapsuleShape c) = Capsule_getMaxX c"

fun Shape_getMaxY :: "Shape \<Rightarrow> real" where
  "Shape_getMaxY (CircleShape c) = Circle_getMaxY c"
| "Shape_getMaxY (PolygonShape p) = Polygon_getMaxY p"
| "Shape_getMaxY (CapsuleShape c) = Capsule_getMaxY c"

fun Shape_getArea :: "Shape \<Rightarrow> real" where
  "Shape_getArea (CircleShape c) = Circle_getArea c"
| "Shape_getArea (PolygonShape p) = Polygon_getArea p"
| "Shape_getArea (CapsuleShape c) = Capsule_getArea c"

fun Shape_getCentre :: "Shape \<Rightarrow> Vec2" where
  "Shape_getCentre (CircleShape c) = centre c"
| "Shape_getCentre (PolygonShape p) = Polygon_getCentre p"
| "Shape_getCentre (CapsuleShape c) = Capsule_getCentre c"

fun Shape_setCentre :: "Shape \<Rightarrow> Vec2 \<Rightarrow> Shape" where
  "Shape_setCentre (CircleShape c) p = CircleShape (Circle_setCentre c p)"
| "Shape_setCentre (PolygonShape poly) p = PolygonShape (Polygon_setCentre poly p)"
| "Shape_setCentre (CapsuleShape c) p = CapsuleShape (Capsule_setCentre c p)"

fun Shape_translate :: "Shape \<Rightarrow> Vec2 \<Rightarrow> Shape" where
  "Shape_translate (CircleShape c) delta = CircleShape (Circle_translate c delta)"
| "Shape_translate (PolygonShape p) delta = PolygonShape (Polygon_translate p delta)"
| "Shape_translate (CapsuleShape c) delta = CapsuleShape (Capsule_translate c delta)"

fun Shape_rotate :: "Shape \<Rightarrow> real \<Rightarrow> Vec2 \<Rightarrow> Shape" where
  "Shape_rotate (CircleShape c) radians origin = CircleShape (Circle_rotate c radians origin)"
| "Shape_rotate (PolygonShape p) radians origin = PolygonShape (Polygon_rotate p radians origin)"
| "Shape_rotate (CapsuleShape c) radians origin = CapsuleShape (Capsule_rotate c radians origin)"

fun Shape_getFurthestPoint :: "Shape \<Rightarrow> Vec2 \<Rightarrow> Vec2" where
  "Shape_getFurthestPoint (CircleShape c) d = Circle_getFurthestPoint c d"
| "Shape_getFurthestPoint (PolygonShape p) d = Polygon_getFurthestPoint p d"
| "Shape_getFurthestPoint (CapsuleShape c) d = Capsule_getFurthestPoint c d"

subsection \<open>Axis-aligned bounding boxes\<close>

datatype AABB = AABB (AABB_min: Vec2) (AABB_max: Vec2)

definition AABB_fromDimensions :: "real \<Rightarrow> real \<Rightarrow> real \<Rightarrow> real \<Rightarrow> AABB" where
  "AABB_fromDimensions px py width height = AABB (Vec2 px py) (Vec2 (px + width) (py + height))"

definition AABB_fromShape :: "Shape \<Rightarrow> AABB" where
  "AABB_fromShape shape =
     AABB (Vec2 (Shape_getMinX shape) (Shape_getMinY shape))
          (Vec2 (Shape_getMaxX shape) (Shape_getMaxY shape))"

definition AABB_translate :: "AABB \<Rightarrow> Vec2 \<Rightarrow> AABB" where
  "AABB_translate b delta = AABB (Vec2_add (AABB_min b) delta) (Vec2_add (AABB_max b) delta)"

definition AABB_intersects :: "AABB \<Rightarrow> AABB \<Rightarrow> bool" where
  "AABB_intersects this other \<longleftrightarrow>
     vec_x (AABB_min this) < vec_x (AABB_max other) \<and>
     vec_x (AABB_max this) > vec_x (AABB_min other) \<and>
     vec_y (AABB_min this) < vec_y (AABB_max other) \<and>
     vec_y (AABB_max this) > vec_y (AABB_min other)"

definition AABB_contains :: "AABB \<Rightarrow> AABB \<Rightarrow> bool" where
  "AABB_contains this other \<longleftrightarrow>
     vec_x (AABB_min other) \<ge> vec_x (AABB_min this) \<and>
     vec_x (AABB_max other) \<le> vec_x (AABB_max this) \<and>
     vec_y (AABB_min other) \<ge> vec_y (AABB_min this) \<and>
     vec_y (AABB_max other) \<le> vec_y (AABB_max this)"

section \<open>Rigid bodies\<close>

text \<open>
  A \<^verbatim>\<open>RigidBody\<close> object is a record. The engine, the broad-phase, collisions and
  islands all hold references to the same body objects, so bodies live in a store
  (\<open>body_store\<close>) and are named by a reference (\<open>body_ref\<close>); a method that mutates a
  body is a function on the record, applied to the store at that reference. The field
  \<^verbatim>\<open>id\<close> is \<open>body_id\<close>; \<^verbatim>\<open>island\<close> is a reference to an island object or
  \<^verbatim>\<open>undefined\<close> (\<open>None\<close>).
\<close>

type_synonym body_ref = nat

type_synonym island_ref = nat

record RigidBody =
  body_id :: nat
  timeStill :: real
  sleeping :: bool
  fixed :: bool
  island :: "island_ref option"
  collider :: Shape
  bounds :: AABB
  position :: Vec2
  rotation :: real
  restitution :: real
  friction :: real
  density :: real
  mass :: real
  inverseMass :: real
  linearAcceleration :: Vec2
  linearVelocity :: Vec2
  angularMass :: real
  inverseAngularMass :: real
  angularAcceleration :: real
  angularVelocity :: real

type_synonym body_store = "body_ref \<Rightarrow> RigidBody"

text \<open>
  The constructor. \<open>nextID\<close> is the value of the static counter
  \<^verbatim>\<open>RigidBody.nextID\<close> when the constructor runs. \<^verbatim>\<open>collider.setCentre(position)\<close>
  returns the collider itself, moved; the bounds are taken from it afterwards. The two
  inverses are first set to the reciprocals and then overwritten with 0 for a fixed
  body.
\<close>

definition RigidBody_new ::
  "nat \<Rightarrow> Shape \<Rightarrow> Vec2 \<Rightarrow> real \<Rightarrow> real \<Rightarrow> real \<Rightarrow> real \<Rightarrow> bool \<Rightarrow> RigidBody" where
  "RigidBody_new nextID shape pos m am rest fric fx =
     (let c = Shape_setCentre shape pos;
          this = \<lparr>body_id = nextID, timeStill = 0, sleeping = False, fixed = fx,
                  island = None, collider = c, bounds = AABB_fromShape c,
                  position = pos, rotation = 0, restitution = rest, friction = fric,
                  density = m / Shape_getArea c, mass = m, inverseMass = 1 / m,
                  linearAcceleration = Vec2_zero, linearVelocity = Vec2_zero,
                  angularMass = am, inverseAngularMass = 1 / am,
                  angularAcceleration = 0, angularVelocity = 0\<rparr>
      in if fixed this then this\<lparr>inverseMass := 0, inverseAngularMass := 0\<rparr> else this)"

definition RigidBody_translate :: "RigidBody \<Rightarrow> Vec2 \<Rightarrow> RigidBody" where
  "RigidBody_translate this delta =
     this\<lparr>position := Vec2_add (position this) delta,
          collider := Shape_translate (collider this) delta,
          bounds := AABB_translate (bounds this) delta\<rparr>"

definition RigidBody_rotate :: "RigidBody \<Rightarrow> real \<Rightarrow> RigidBody" where
  "RigidBody_rotate this delta =
     (let c = Shape_rotate (collider this) delta (position this)
      in this\<lparr>rotation := rotation this + delta,
              collider := c,
              bounds := AABB (Vec2 (Shape_getMinX c) (Shape_getMinY c))
                             (Vec2 (Shape_getMaxX c) (Shape_getMaxY c))\<rparr>)"

definition RigidBody_getVelocityAtPoint :: "RigidBody \<Rightarrow> Vec2 \<Rightarrow> Vec2" where
  "RigidBody_getVelocityAtPoint this r =
     (let tangent = Vec2_perpendicular r;
          angularPart = Vec2_mulScalar tangent (angularVelocity this)
      in Vec2_add (linearVelocity this) angularPart)"

definition RigidBody_applyForce :: "RigidBody \<Rightarrow> Vec2 \<Rightarrow> Vec2 \<Rightarrow> RigidBody" where
  "RigidBody_applyForce this force r =
     (let torque = Vec2_cross r force
      in this\<lparr>linearAcceleration :=
                 Vec2_add (linearAcceleration this) (Vec2_mulScalar force (inverseMass this)),
              angularAcceleration :=
                 angularAcceleration this + torque * inverseAngularMass this\<rparr>)"

definition RigidBody_applyImpulse :: "RigidBody \<Rightarrow> Vec2 \<Rightarrow> Vec2 \<Rightarrow> RigidBody" where
  "RigidBody_applyImpulse this impulse r =
     (let linearDelta = Vec2_mulScalar impulse (inverseMass this);
          angularDelta = Vec2_cross r impulse * inverseAngularMass this
      in this\<lparr>linearVelocity := Vec2_add (linearVelocity this) linearDelta,
              angularVelocity := angularVelocity this + angularDelta\<rparr>)"

text \<open>
  \<^verbatim>\<open>
  integrate(deltaSeconds: number) {
      if (this.fixed || this.sleeping) return;
      this.linearVelocity.add(Vec2.mulScalar(this.linearAcceleration, deltaSeconds));
      const translationDelta = Vec2.mulScalar(this.linearVelocity, deltaSeconds);
      this.translate(translationDelta);
      this.angularVelocity += this.angularAcceleration * deltaSeconds;
      const rotationDelta = this.angularVelocity * deltaSeconds;
      this.rotate(rotationDelta);
      const linearDecay = Math.exp(-deltaSeconds * this.friction);
      const angularDecay = Math.exp(-deltaSeconds * this.friction);
      this.linearVelocity.mulScalar(linearDecay);
      this.angularVelocity *= angularDecay;
      this.linearAcceleration.x = 0;
      this.linearAcceleration.y = 0;
      this.angularAcceleration = 0;
  }
  \<close>
\<close>

definition RigidBody_integrate :: "RigidBody \<Rightarrow> real \<Rightarrow> RigidBody" where
  "RigidBody_integrate this deltaSeconds =
     (if fixed this \<or> sleeping this then this
      else
        let b1 = this\<lparr>linearVelocity :=
                       Vec2_add (linearVelocity this)
                                (Vec2_mulScalar (linearAcceleration this) deltaSeconds)\<rparr>;
            translationDelta = Vec2_mulScalar (linearVelocity b1) deltaSeconds;
            b2 = RigidBody_translate b1 translationDelta;
            b3 = b2\<lparr>angularVelocity :=
                      angularVelocity b2 + angularAcceleration b2 * deltaSeconds\<rparr>;
            rotationDelta = angularVelocity b3 * deltaSeconds;
            b4 = RigidBody_rotate b3 rotationDelta;
            linearDecay = exp (- deltaSeconds * friction b4);
            angularDecay = exp (- deltaSeconds * friction b4);
            b5 = b4\<lparr>linearVelocity := Vec2_mulScalar (linearVelocity b4) linearDecay\<rparr>;
            b6 = b5\<lparr>angularVelocity := angularVelocity b5 * angularDecay\<rparr>
        in b6\<lparr>linearAcceleration := Vec2 0 0, angularAcceleration := 0\<rparr>)"

section \<open>Contacts, manifolds and collisions\<close>

text \<open>
  A \<^verbatim>\<open>Contact\<close> belongs to one manifold and a manifold to one collision (the engine
  builds one new contact per narrow-phase hit and moves the contact array of a replaced
  collision into the new one), so both are values inside the \<open>Collision\<close> record. The
  bodies of a collision are references into the store. \<^verbatim>\<open>Collision.id\<close>,
  \<^verbatim>\<open>Collision.restitution\<close> and \<^verbatim>\<open>Collision.friction\<close> are \<open>collision_key\<close>,
  \<open>collision_restitution\<close> and \<open>collision_friction\<close>.
\<close>

record Contact =
  worldPosA :: Vec2
  worldPosB :: Vec2
  localPosA :: Vec2
  localPosB :: Vec2
  effectiveMassNormal :: real
  effectiveMassTangent :: real
  originalRestitutionBias :: real
  accumulatedNormalMagnitude :: real
  accumulatedTangentMagnitude :: real

text \<open>
  \<^verbatim>\<open>
  updateRestitutionBias(bodyA: RigidBody, bodyB: RigidBody, normal: Vec2) {
      const relativeVelocity = bodyB.getVelocityAtPoint(this.localPosB)
                                    .sub(bodyA.getVelocityAtPoint(this.localPosA));
      const relativeVelocityDotNormal = Vec2.dot(relativeVelocity, normal);
      if (relativeVelocityDotNormal < -0.1) {
          this.originalRestitutionBias =
              -(bodyA.restitution * bodyB.restitution) * relativeVelocityDotNormal;
      } else {
          this.originalRestitutionBias = 0;
      }
  }
  \<close>
  The comparison is with the binary64 value of the literal \<^verbatim>\<open>-0.1\<close>, which is
  \<open>- fl64 (1 / 10) = - 3602879701896397 / 2^55\<close>, a little below \<open>- 1 / 10\<close>.
\<close>

definition Contact_updateRestitutionBias ::
  "Contact \<Rightarrow> RigidBody \<Rightarrow> RigidBody \<Rightarrow> Vec2 \<Rightarrow> Contact" where
  "Contact_updateRestitutionBias this A B n =
     (let relativeVelocity =
            Vec2_sub (RigidBody_getVelocityAtPoint B (localPosB this))
                     (RigidBody_getVelocityAtPoint A (localPosA this));
          relativeVelocityDotNormal = Vec2_dot relativeVelocity n
      in if relativeVelocityDotNormal < - fl64 (1 / 10)
         then this\<lparr>originalRestitutionBias :=
                       - (restitution A * restitution B) * relativeVelocityDotNormal\<rparr>
         else this\<lparr>originalRestitutionBias := 0\<rparr>)"

definition Contact_new ::
  "RigidBody \<Rightarrow> RigidBody \<Rightarrow> Vec2 \<Rightarrow> Vec2 \<Rightarrow> Vec2 \<Rightarrow> Vec2 \<Rightarrow> Contact" where
  "Contact_new A B wA wB n t =
     (let lA = Vec2_sub wA (position A);
          lB = Vec2_sub wB (position B);
          this0 = \<lparr>worldPosA = wA, worldPosB = wB, localPosA = lA, localPosB = lB,
                   effectiveMassNormal = 0, effectiveMassTangent = 0,
                   originalRestitutionBias = 0,
                   accumulatedNormalMagnitude = 0, accumulatedTangentMagnitude = 0\<rparr>;
          this1 = Contact_updateRestitutionBias this0 A B n;
          radiusNormalA = Vec2_cross lA n;
          radiusNormalB = Vec2_cross lB n;
          radiusTangentA = Vec2_cross lA t;
          radiusTangentB = Vec2_cross lB t
      in this1\<lparr>effectiveMassNormal :=
                    1 / (inverseMass A + inverseMass B
                         + inverseAngularMass A * radiusNormalA * radiusNormalA
                         + inverseAngularMass B * radiusNormalB * radiusNormalB),
                 effectiveMassTangent :=
                    1 / (inverseMass A + inverseMass B
                         + inverseAngularMass A * radiusTangentA * radiusTangentA
                         + inverseAngularMass B * radiusTangentB * radiusTangentB)\<rparr>)"

record CollisionManifold =
  normal :: Vec2
  tangent :: Vec2
  depth :: real
  mtv :: Vec2
  contacts :: "Contact list"

definition CollisionManifold_new ::
  "Vec2 \<Rightarrow> Vec2 \<Rightarrow> real \<Rightarrow> Contact list \<Rightarrow> CollisionManifold" where
  "CollisionManifold_new n m d cs =
     \<lparr>normal = n, tangent = Vec2_perpendicular n, depth = d, mtv = m, contacts = cs\<rparr>"

record Collision =
  collision_key :: nat
  bodyA :: body_ref
  bodyB :: body_ref
  collision_restitution :: real
  collision_friction :: real
  manifold :: CollisionManifold

definition Collision_new ::
  "body_store \<Rightarrow> body_ref \<Rightarrow> body_ref \<Rightarrow> CollisionManifold \<Rightarrow> Collision" where
  "Collision_new st a b m =
     \<lparr>collision_key = collision_id (body_id (st a)) (body_id (st b)),
      bodyA = a, bodyB = b,
      collision_restitution = restitution (st a) * restitution (st b),
      collision_friction = (friction (st a) + friction (st b)) * 0.5,
      manifold = m\<rparr>"

text \<open>\<^verbatim>\<open>clamp(x, min, max) = Math.min(Math.max(min, x), max)\<close>.\<close>

definition clamp :: "real \<Rightarrow> real \<Rightarrow> real \<Rightarrow> real" where
  "clamp v lo hi = min (max lo v) hi"

text \<open>
  \<^verbatim>\<open>applyAccumulatedImpulses\<close>: for each contact in turn, the stored impulse is applied
  to body A (negated) and to body B.
\<close>

fun applyAccumulatedImpulses_loop ::
  "Collision \<Rightarrow> Contact list \<Rightarrow> body_store \<Rightarrow> body_store" where
  "applyAccumulatedImpulses_loop this [] st = st"
| "applyAccumulatedImpulses_loop this (contact # rest) st =
     (let impulse =
            Vec2_add
              (Vec2_mulScalar (normal (manifold this)) (accumulatedNormalMagnitude contact))
              (Vec2_mulScalar (tangent (manifold this)) (accumulatedTangentMagnitude contact));
          st1 = st(bodyA this :=
                     RigidBody_applyImpulse (st (bodyA this)) (Vec2_neg impulse)
                                            (localPosA contact));
          st2 = st1(bodyB this :=
                      RigidBody_applyImpulse (st1 (bodyB this)) impulse (localPosB contact))
      in applyAccumulatedImpulses_loop this rest st2)"

definition Collision_applyAccumulatedImpulses :: "Collision \<Rightarrow> body_store \<Rightarrow> body_store" where
  "Collision_applyAccumulatedImpulses this st =
     applyAccumulatedImpulses_loop this (contacts (manifold this)) st"

text \<open>
  \<^verbatim>\<open>
  solvePositionLinearOnly() {
      const effectiveMass = 1 / (this.bodyA.inverseMass + this.bodyB.inverseMass);
      const correction = Vec2.mulScalar(this.manifold.normal,
                                        Math.max(0, this.manifold.depth - 0.1));
      this.bodyA.translate(Vec2.mulScalar(correction, -effectiveMass * this.bodyA.inverseMass));
      this.bodyB.translate(Vec2.mulScalar(correction, effectiveMass * this.bodyB.inverseMass));
  }
  \<close>
\<close>

definition Collision_solvePositionLinearOnly :: "Collision \<Rightarrow> body_store \<Rightarrow> body_store" where
  "Collision_solvePositionLinearOnly this st =
     (let effectiveMass = 1 / (inverseMass (st (bodyA this)) + inverseMass (st (bodyB this)));
          correction = Vec2_mulScalar (normal (manifold this))
                                      (max 0 (depth (manifold this) - 0.1));
          st1 = st(bodyA this :=
                     RigidBody_translate (st (bodyA this))
                       (Vec2_mulScalar correction
                          (- effectiveMass * inverseMass (st (bodyA this)))));
          st2 = st1(bodyB this :=
                      RigidBody_translate (st1 (bodyB this))
                        (Vec2_mulScalar correction
                           (effectiveMass * inverseMass (st1 (bodyB this)))))
      in st2)"

text \<open>
  \<^verbatim>\<open>solveVelocity\<close> runs two loops over the contacts of the manifold: the normal
  impulses first, the tangent impulses second. Each loop reads the velocities of the two
  bodies as the contacts before it left them, updates the contact and applies the
  impulse difference to both bodies. The loops return the updated contacts and store.
\<close>

fun solveVelocity_normal ::
  "Collision \<Rightarrow> Contact list \<Rightarrow> body_store \<Rightarrow> Contact list \<times> body_store" where
  "solveVelocity_normal this [] st = ([], st)"
| "solveVelocity_normal this (contact # rest) st =
     (let relativeVelocity =
            Vec2_sub (RigidBody_getVelocityAtPoint (st (bodyB this)) (localPosB contact))
                     (RigidBody_getVelocityAtPoint (st (bodyA this)) (localPosA contact));
          relativeVelocityDotNormal = Vec2_dot relativeVelocity (normal (manifold this));
          impulseMagnitude =
            - (relativeVelocityDotNormal - originalRestitutionBias contact)
              * effectiveMassNormal contact;
          newAccumulatedMagnitude = max (accumulatedNormalMagnitude contact + impulseMagnitude) 0;
          newImpulse = newAccumulatedMagnitude - accumulatedNormalMagnitude contact;
          contact' = contact\<lparr>accumulatedNormalMagnitude := newAccumulatedMagnitude\<rparr>;
          st1 = st(bodyA this :=
                     RigidBody_applyImpulse (st (bodyA this))
                       (Vec2_mulScalar (normal (manifold this)) (- newImpulse))
                       (localPosA contact'));
          st2 = st1(bodyB this :=
                      RigidBody_applyImpulse (st1 (bodyB this))
                        (Vec2_mulScalar (normal (manifold this)) newImpulse)
                        (localPosB contact'));
          (rest', st3) = solveVelocity_normal this rest st2
      in (contact' # rest', st3))"

fun solveVelocity_tangent ::
  "Collision \<Rightarrow> Contact list \<Rightarrow> body_store \<Rightarrow> Contact list \<times> body_store" where
  "solveVelocity_tangent this [] st = ([], st)"
| "solveVelocity_tangent this (contact # rest) st =
     (let relativeVelocity =
            Vec2_sub (RigidBody_getVelocityAtPoint (st (bodyB this)) (localPosB contact))
                     (RigidBody_getVelocityAtPoint (st (bodyA this)) (localPosA contact));
          relativeVelocityDotTangent = Vec2_dot relativeVelocity (tangent (manifold this));
          impulseMagnitude = - relativeVelocityDotTangent * effectiveMassTangent contact;
          staticFrictionLimit = accumulatedNormalMagnitude contact * collision_friction this;
          newAccumulatedMagnitude =
            clamp (accumulatedTangentMagnitude contact + impulseMagnitude)
                  (- staticFrictionLimit) staticFrictionLimit;
          newImpulse = newAccumulatedMagnitude - accumulatedTangentMagnitude contact;
          contact' = contact\<lparr>accumulatedTangentMagnitude := newAccumulatedMagnitude\<rparr>;
          st1 = st(bodyA this :=
                     RigidBody_applyImpulse (st (bodyA this))
                       (Vec2_mulScalar (tangent (manifold this)) (- newImpulse))
                       (localPosA contact'));
          st2 = st1(bodyB this :=
                      RigidBody_applyImpulse (st1 (bodyB this))
                        (Vec2_mulScalar (tangent (manifold this)) newImpulse)
                        (localPosB contact'));
          (rest', st3) = solveVelocity_tangent this rest st2
      in (contact' # rest', st3))"

definition Collision_solveVelocity ::
  "Collision \<Rightarrow> body_store \<Rightarrow> Collision \<times> body_store" where
  "Collision_solveVelocity this st =
     (let (cs1, st1) = solveVelocity_normal this (contacts (manifold this)) st;
          (cs2, st2) = solveVelocity_tangent this cs1 st1
      in (this\<lparr>manifold := (manifold this)\<lparr>contacts := cs2\<rparr>\<rparr>, st2))"

section \<open>Narrow-phase: EPA\<close>

text \<open>
  A \<^verbatim>\<open>MinkowskiDiff\<close> is built from two shapes and a direction; its fields \<^verbatim>\<open>a\<close>,
  \<^verbatim>\<open>b\<close> and \<^verbatim>\<open>result\<close> are \<open>supportA\<close>, \<open>supportB\<close> and \<open>result\<close>.
\<close>

record MinkowskiDiff =
  supportA :: Vec2
  supportB :: Vec2
  result :: Vec2

definition MinkowskiDiff_new :: "Shape \<Rightarrow> Shape \<Rightarrow> Vec2 \<Rightarrow> MinkowskiDiff" where
  "MinkowskiDiff_new shapeA shapeB direction =
     (let pa = Shape_getFurthestPoint shapeA direction;
          pb = Shape_getFurthestPoint shapeB (Vec2_neg direction)
      in \<lparr>supportA = pa, supportB = pb, result = Vec2_sub pa pb\<rparr>)"

text \<open>The fields of \<^verbatim>\<open>EpaResult\<close> carry the prefix \<open>epa_\<close>.\<close>

record EpaResult =
  epa_normal :: Vec2
  epa_tangent :: Vec2
  epa_mtv :: Vec2
  epa_depth :: real
  worldContactA :: Vec2
  worldContactB :: Vec2

definition EpaResult_new :: "Vec2 \<Rightarrow> Vec2 \<Rightarrow> real \<Rightarrow> Vec2 \<Rightarrow> Vec2 \<Rightarrow> EpaResult" where
  "EpaResult_new n m d cA cB =
     \<lparr>epa_normal = n, epa_tangent = Vec2_perpendicular n, epa_mtv = m, epa_depth = d,
      worldContactA = cA, worldContactB = cB\<rparr>"

datatype error = EpaFailedToConverge

text \<open>
  The inner loop of \<^verbatim>\<open>EPA\<close> visits the edges \<open>(i, (i + 1) % n)\<close> of the polytope in
  order and keeps the first edge of strictly smallest distance:
  \<^verbatim>\<open>
  let minIndexA = 0; let minIndexB = 0;
  let minNormal = Vec2.zero(); let minDistance = Number.MAX_VALUE;
  for (let i = 0; i < simplex.length; i++) {
      const j = (i + 1) % simplex.length;
      const a = simplex[i].result;
      const b = simplex[j].result;
      const ab = Vec2.sub(b, a);
      const oa = a;
      let normal = Vec2.tripleCross(ab, oa, ab);
      if (normal.isZero()) normal = Vec2.perpendicular(ab);
      normal.normalise();
      // This can sometimes be negative due to floating point errors, so we clamp it
      const distance = Math.max(0, normal.dot(a));
      if (distance < minDistance) {
          minIndexA = i; minIndexB = j; minNormal = normal; minDistance = distance;
      }
  }
  \<close>
\<close>

definition EPA_edgeNormal :: "MinkowskiDiff list \<Rightarrow> nat \<Rightarrow> Vec2" where
  "EPA_edgeNormal simplex i =
     (let j = (i + 1) mod length simplex;
          a = result (simplex ! i);
          b = result (simplex ! j);
          ab = Vec2_sub b a;
          oa = a;
          normal0 = Vec2_tripleCross ab oa ab;
          normal1 = (if Vec2_isZero normal0 then Vec2_perpendicular ab else normal0)
      in Vec2_normalise normal1)"

definition EPA_edgeDistance :: "MinkowskiDiff list \<Rightarrow> nat \<Rightarrow> real" where
  "EPA_edgeDistance simplex i =
     max 0 (Vec2_dot (EPA_edgeNormal simplex i) (result (simplex ! i)))"

definition EPA_closestEdge :: "MinkowskiDiff list \<Rightarrow> nat \<times> nat \<times> Vec2 \<times> real" where
  "EPA_closestEdge simplex =
     fold (\<lambda>i (minIndexA, minIndexB, minNormal, minDistance).
             let j = (i + 1) mod length simplex;
                 normal = EPA_edgeNormal simplex i;
                 distance = EPA_edgeDistance simplex i
             in if distance < minDistance then (i, j, normal, distance)
                else (minIndexA, minIndexB, minNormal, minDistance))
          [0 ..< length simplex] (0, 0, Vec2_zero, MAX_VALUE)"

text \<open>\<^verbatim>\<open>simplex.splice(index, 0, point)\<close> inserts \<open>point\<close> before position \<open>index\<close>.\<close>

definition splice_insert :: "'a list \<Rightarrow> nat \<Rightarrow> 'a \<Rightarrow> 'a list" where
  "splice_insert array index v = take index array @ [v] @ drop index array"

text \<open>
  \<^verbatim>\<open>
  export function EPA(shapeA: Shape, shapeB: Shape, simplex: MinkowskiDiff[]): EpaResult {
      for (let i = 0; i < 100; i++) {
          ... the search for the closest edge ...
          const point = new MinkowskiDiff(shapeA, shapeB, minNormal);
          const distance = minNormal.dot(point.result);
          if (Math.abs(distance - minDistance) < 1e-3) {
              const mtv = Vec2.mulScalar(minNormal, distance);
              let contactA;
              if (Vec2.sub(simplex[minIndexB].a, simplex[minIndexA].a).magnitudeSquared() < 1) {
                  contactA = simplex[minIndexA].a;
              } else {
                  const edge = Vec2.sub(simplex[minIndexB].result, simplex[minIndexA].result);
                  const t = -simplex[minIndexA].result.dot(edge) / edge.magnitudeSquared();
                  contactA = Vec2.add(simplex[minIndexA].a, edge.mulScalar(t));
              }
              const contactB = Vec2.sub(contactA, mtv);
              return new EpaResult(minNormal, mtv, distance, contactA, contactB);
          }
          simplex.splice(minIndexA + 1, 0, point);
      }
      throw new Error("EPA failed to converge");
  }
  \<close>
  The function returns \<open>Inr\<close> of the result, or \<open>Inl EpaFailedToConverge\<close> where the
  source throws.
\<close>

definition EPA_result ::
  "MinkowskiDiff list \<Rightarrow> nat \<Rightarrow> nat \<Rightarrow> Vec2 \<Rightarrow> real \<Rightarrow> EpaResult" where
  "EPA_result simplex minIndexA minIndexB minNormal distance =
     (let mtv = Vec2_mulScalar minNormal distance;
          contactA =
            (if Vec2_magnitudeSquared
                  (Vec2_sub (supportA (simplex ! minIndexB)) (supportA (simplex ! minIndexA))) < 1
             then supportA (simplex ! minIndexA)
             else
               let edge = Vec2_sub (result (simplex ! minIndexB)) (result (simplex ! minIndexA));
                   t = - Vec2_dot (result (simplex ! minIndexA)) edge / Vec2_magnitudeSquared edge
               in Vec2_add (supportA (simplex ! minIndexA)) (Vec2_mulScalar edge t));
          contactB = Vec2_sub contactA mtv
      in EpaResult_new minNormal mtv distance contactA contactB)"

function EPA_loop ::
  "Shape \<Rightarrow> Shape \<Rightarrow> nat \<Rightarrow> MinkowskiDiff list \<Rightarrow> error + EpaResult" where
  "EPA_loop shapeA shapeB i simplex =
     (if i < 100 then
        (let (minIndexA, minIndexB, minNormal, minDistance) = EPA_closestEdge simplex;
             point = MinkowskiDiff_new shapeA shapeB minNormal;
             distance = Vec2_dot minNormal (result point)
         in if \<bar>distance - minDistance\<bar> < 1 / 1000
            then Inr (EPA_result simplex minIndexA minIndexB minNormal distance)
            else EPA_loop shapeA shapeB (i + 1) (splice_insert simplex (minIndexA + 1) point))
      else Inl EpaFailedToConverge)"
  by pat_completeness auto
termination
  by (relation "measure (\<lambda>(shapeA, shapeB, i, simplex). 100 - i)") auto

declare EPA_loop.simps [simp del]

definition EPA :: "Shape \<Rightarrow> Shape \<Rightarrow> MinkowskiDiff list \<Rightarrow> error + EpaResult" where
  "EPA shapeA shapeB simplex = EPA_loop shapeA shapeB 0 simplex"

section \<open>Broad-phase: the region quadtree\<close>

text \<open>
  A node object has the read-only fields \<^verbatim>\<open>depth\<close>, \<^verbatim>\<open>bounds\<close> and \<^verbatim>\<open>childBounds\<close>
  and the mutable fields \<^verbatim>\<open>children\<close> (an array of four entries, each a node or
  \<^verbatim>\<open>undefined\<close>) and \<^verbatim>\<open>items\<close>. The datatype holds the mutable fields; the read-only
  ones are determined by the bounds of the root and the position of the node in the tree
  (a child at slot \<open>i\<close> is built as \<^verbatim>\<open>new QuadTreeNode(this.childBounds[i], this.depth + 1)\<close>)
  and are passed along as arguments where a method reads them.
\<close>

definition MAX_DEPTH :: nat where
  "MAX_DEPTH = 4"

datatype 'a QuadTreeNode =
  QuadTreeNode (items: "'a list") (children: "'a QuadTreeNode option list")

definition QuadTreeNode_new :: "'a QuadTreeNode" where
  "QuadTreeNode_new = QuadTreeNode [] (replicate 4 None)"

definition childBounds :: "AABB \<Rightarrow> AABB list" where
  "childBounds b =
     (let halfWidth = (vec_x (AABB_max b) - vec_x (AABB_min b)) * 0.5;
          halfHeight = (vec_y (AABB_max b) - vec_y (AABB_min b)) * 0.5
      in [AABB_fromDimensions (vec_x (AABB_min b)) (vec_y (AABB_min b)) halfWidth halfHeight,
          AABB_fromDimensions (vec_x (AABB_min b) + halfWidth) (vec_y (AABB_min b))
                              halfWidth halfHeight,
          AABB_fromDimensions (vec_x (AABB_min b)) (vec_y (AABB_min b) + halfHeight)
                              halfWidth halfHeight,
          AABB_fromDimensions (vec_x (AABB_min b) + halfWidth) (vec_y (AABB_min b) + halfHeight)
                              halfWidth halfHeight])"

text \<open>
  \<^verbatim>\<open>
  prune(): boolean {
      let hasChildren = false;
      for (let i = 0; i < 4; i++) {
          if (this.children[i] !== undefined) {
              const prunable = this.children[i]!.prune();
              hasChildren ||= !prunable;
              if (prunable) {
                  this.children[i] = undefined;
              }
          }
      }
      return this.items.length === 0 && !hasChildren;
  }
  \<close>
  The function returns the result of the method and the node as the method leaves it.
  For each child slot the loop body yields the contribution to \<open>hasChildren\<close> and the
  new content of the slot.
\<close>

fun QuadTreeNode_prune :: "'a QuadTreeNode \<Rightarrow> bool \<times> 'a QuadTreeNode" where
  "QuadTreeNode_prune (QuadTreeNode its cs) =
     (let rs = map (\<lambda>child. case child of
                       None \<Rightarrow> (False, None)
                     | Some c \<Rightarrow>
                         (let (prunable, c') = QuadTreeNode_prune c
                          in (\<not> prunable, if prunable then None else Some c'))) cs;
          hasChildren = list_ex fst rs
      in (its = [] \<and> \<not> hasChildren, QuadTreeNode its (map snd rs)))"

declare QuadTreeNode_prune.simps [simp del]

text \<open>
  \<^verbatim>\<open>
  insert(item: T): ItemLocation<T> {
      if (this.depth < MAX_DEPTH) {
          for (let i = 0; i < 4; i++) {
              if (this.childBounds[i].contains(item.bounds)) {
                  if (this.children[i] === undefined) {
                      this.children[i] = new QuadTreeNode(this.childBounds[i], this.depth + 1);
                  }
                  return this.children[i]!.insert(item);
              }
          }
      }
      this.items.push(item);
      return new ItemLocation(this, this.items.length - 1);
  }
  \<close>
  An \<^verbatim>\<open>ItemLocation\<close> holds a reference to a node and an index into its items. A node
  of the tree is named by its path from the root (the child slots taken), so a location
  is a path and an index.
\<close>

type_synonym ItemLocation = "nat list \<times> nat"

definition firstFittingChild :: "AABB \<Rightarrow> AABB \<Rightarrow> nat option" where
  "firstFittingChild nodeBounds itemBounds =
     find (\<lambda>i. AABB_contains (childBounds nodeBounds ! i) itemBounds) [0 ..< 4]"

function QuadTreeNode_insert ::
  "AABB \<Rightarrow> nat \<Rightarrow> 'a QuadTreeNode \<Rightarrow> 'a \<Rightarrow> AABB \<Rightarrow> 'a QuadTreeNode \<times> ItemLocation" where
  "QuadTreeNode_insert nodeBounds nodeDepth (QuadTreeNode its cs) item itemBounds =
     (case (if nodeDepth < MAX_DEPTH then firstFittingChild nodeBounds itemBounds else None) of
        Some i \<Rightarrow>
          (let child = (case cs ! i of None \<Rightarrow> QuadTreeNode_new | Some c \<Rightarrow> c);
               (child', (path, index)) =
                 QuadTreeNode_insert (childBounds nodeBounds ! i) (nodeDepth + 1) child
                                     item itemBounds
           in (QuadTreeNode its (cs[i := Some child']), (i # path, index)))
      | None \<Rightarrow> (QuadTreeNode (its @ [item]) cs, ([], length its)))"
  by pat_completeness auto
termination
  by (relation "measure (\<lambda>(nodeBounds, nodeDepth, this, item, itemBounds). MAX_DEPTH - nodeDepth)")
     (auto split: if_splits)

declare QuadTreeNode_insert.simps [simp del]

text \<open>
  Reading and writing through a node reference. \<open>node_at\<close> follows a path from a node;
  \<open>replace_at\<close> puts a node in the place a path leads to. A path that leaves the tree
  names no node of it.
\<close>

fun node_at :: "'a QuadTreeNode \<Rightarrow> nat list \<Rightarrow> 'a QuadTreeNode option" where
  "node_at n [] = Some n"
| "node_at (QuadTreeNode its cs) (i # p) =
     (if i < length cs then (case cs ! i of None \<Rightarrow> None | Some c \<Rightarrow> node_at c p)
      else None)"

fun replace_at :: "nat list \<Rightarrow> 'a QuadTreeNode \<Rightarrow> 'a QuadTreeNode \<Rightarrow> 'a QuadTreeNode" where
  "replace_at [] new n = new"
| "replace_at (i # p) new (QuadTreeNode its cs) =
     QuadTreeNode its
       (if i < length cs
        then cs[i := (case cs ! i of None \<Rightarrow> None | Some c \<Rightarrow> Some (replace_at p new c))]
        else cs)"

text \<open>
  \<^verbatim>\<open>swapRemove(array, index)\<close> swaps the entry at \<open>index\<close> with the last entry and pops
  the last entry. Here \<open>index\<close> is within the array.
\<close>

definition swapRemove :: "'a list \<Rightarrow> nat \<Rightarrow> 'a list" where
  "swapRemove array index = butlast (array[index := last array])"

record 'a QuadTree =
  root_bounds :: AABB
  root :: "'a QuadTreeNode"
  itemLocations :: "'a \<Rightarrow> ItemLocation option"

definition QuadTree_new :: "AABB \<Rightarrow> 'a QuadTree" where
  "QuadTree_new b = \<lparr>root_bounds = b, root = QuadTreeNode_new, itemLocations = (\<lambda>item. None)\<rparr>"

text \<open>
  \<^verbatim>\<open>insert(item)\<close> reads \<^verbatim>\<open>item.bounds\<close>; the bounds of the item at the time of the call
  are the argument \<open>itemBounds\<close>.
\<close>

definition QuadTree_insert :: "'a QuadTree \<Rightarrow> 'a \<Rightarrow> AABB \<Rightarrow> bool \<times> 'a QuadTree" where
  "QuadTree_insert this item itemBounds =
     (if \<not> AABB_contains (root_bounds this) itemBounds then (False, this)
      else
        let (root', location) =
              QuadTreeNode_insert (root_bounds this) 0 (root this) item itemBounds
        in (True, this\<lparr>root := root', itemLocations := (itemLocations this)(item \<mapsto> location)\<rparr>))"

text \<open>
  \<^verbatim>\<open>
  remove(item: T): boolean {
      const location = this.itemLocations.get(item);
      if (location === undefined) return false;
      swapRemove(location.node.items, location.index);
      this.itemLocations.delete(item);
      // check if the removed item was the last item in the node
      if (location.node.items.length > location.index) {
          // update the location of the item that was swapped with the removed item
          const swappedItem = location.node.items[location.index];
          this.itemLocations.set(swappedItem, location);
      }
      location.node.prune();
      return true;
  }
  \<close>
  The result is \<open>None\<close> where the stored location names no node of the tree or an index
  beyond the items of its node: there JavaScript would work on a detached node or leave
  a hole in the array, which this model does not represent. The class keeps every
  stored location inside the tree (\<open>QuadTree_inv\<close> below).
\<close>

definition QuadTree_remove :: "'a QuadTree \<Rightarrow> 'a \<Rightarrow> (bool \<times> 'a QuadTree) option" where
  "QuadTree_remove this item =
     (case itemLocations this item of
        None \<Rightarrow> Some (False, this)
      | Some (path, index) \<Rightarrow>
          (case node_at (root this) path of
             None \<Rightarrow> None
           | Some node \<Rightarrow>
               if index < length (items node) then
                 let items1 = swapRemove (items node) index;
                     locations1 = (itemLocations this)(item := None);
                     locations2 = (if length items1 > index
                                   then locations1(items1 ! index \<mapsto> (path, index))
                                   else locations1);
                     node2 = snd (QuadTreeNode_prune (QuadTreeNode items1 (children node)))
                 in Some (True, this\<lparr>root := replace_at path node2 (root this),
                                      itemLocations := locations2\<rparr>)
               else None))"

text \<open>\<^verbatim>\<open>update(item) { this.remove(item); return this.insert(item); }\<close>\<close>

definition QuadTree_update :: "'a QuadTree \<Rightarrow> 'a \<Rightarrow> AABB \<Rightarrow> (bool \<times> 'a QuadTree) option" where
  "QuadTree_update this item itemBounds =
     (case QuadTree_remove this item of
        None \<Rightarrow> None
      | Some (removed, this1) \<Rightarrow> Some (QuadTree_insert this1 item itemBounds))"

section \<open>The engine: solver pass\<close>

record PhysicsEngineConfig =
  gravity :: real
  stepsPerSecond :: real
  velocityIterations :: real
  sleepLinearThreshold :: real
  sleepAngularThreshold :: real
  sleepTimeThreshold :: real

definition PhysicsEngineConfigDefault :: PhysicsEngineConfig where
  "PhysicsEngineConfigDefault =
     \<lparr>gravity = 981, stepsPerSecond = 500, velocityIterations = 5,
      sleepLinearThreshold = 0.15, sleepAngularThreshold = 0.15, sleepTimeThreshold = 0.5\<rparr>"

text \<open>
  \<^verbatim>\<open>
  resolveCollisions() {
      for (const collision of this.collisions.values()) {
          collision.solvePositionLinearOnly();
          collision.applyAccumulatedImpulses();
          for (const contact of collision.manifold.contacts) {
              contact.updateRestitutionBias(collision.bodyA, collision.bodyB,
                                            collision.manifold.normal);
          }
      }
      for (let i = 0; i < this.config.velocityIterations; i++) {
          for (const collision of this.collisions.values()) {
              collision.solveVelocity();
          }
      }
  }
  \<close>
  The collisions are the values of the map \<^verbatim>\<open>this.collisions\<close> in iteration order.
  \<^verbatim>\<open>updateRestitutionBias\<close> writes to the contact only, so the inner loop of the first
  pass is a \<open>map\<close> over the contacts.
\<close>

fun resolveCollisions_prepare ::
  "Collision list \<Rightarrow> body_store \<Rightarrow> Collision list \<times> body_store" where
  "resolveCollisions_prepare [] st = ([], st)"
| "resolveCollisions_prepare (collision # rest) st =
     (let st1 = Collision_solvePositionLinearOnly collision st;
          st2 = Collision_applyAccumulatedImpulses collision st1;
          cs = map (\<lambda>contact.
                      Contact_updateRestitutionBias contact
                        (st2 (bodyA collision)) (st2 (bodyB collision))
                        (normal (manifold collision)))
                   (contacts (manifold collision));
          collision' = collision\<lparr>manifold := (manifold collision)\<lparr>contacts := cs\<rparr>\<rparr>;
          (rest', st3) = resolveCollisions_prepare rest st2
      in (collision' # rest', st3))"

fun solveVelocity_all ::
  "Collision list \<Rightarrow> body_store \<Rightarrow> Collision list \<times> body_store" where
  "solveVelocity_all [] st = ([], st)"
| "solveVelocity_all (collision # rest) st =
     (let (collision', st1) = Collision_solveVelocity collision st;
          (rest', st2) = solveVelocity_all rest st1
      in (collision' # rest', st2))"

function velocityIterations_loop ::
  "int \<Rightarrow> real \<Rightarrow> Collision list \<Rightarrow> body_store \<Rightarrow> Collision list \<times> body_store" where
  "velocityIterations_loop i n cs st =
     (if real_of_int i < n
      then (let (cs', st') = solveVelocity_all cs st
            in velocityIterations_loop (i + 1) n cs' st')
      else (cs, st))"
  by pat_completeness auto
termination
  by (relation "measure (\<lambda>(i, n, cs, st). nat (\<lceil>n\<rceil> - i))") (auto simp: less_ceiling_iff)

declare velocityIterations_loop.simps [simp del]

definition PhysicsEngine_resolveCollisions ::
  "PhysicsEngineConfig \<Rightarrow> Collision list \<Rightarrow> body_store \<Rightarrow> Collision list \<times> body_store" where
  "PhysicsEngine_resolveCollisions config cs st =
     (let (cs1, st1) = resolveCollisions_prepare cs st
      in velocityIterations_loop 0 (velocityIterations config) cs1 st1)"

section \<open>The engine: body list and broad-phase\<close>

text \<open>
  The engine holds its bodies in the array \<^verbatim>\<open>this.bodies\<close> and in the quadtree
  \<^verbatim>\<open>this.quadtree\<close>; both hold references. \<^verbatim>\<open>Array.prototype.indexOf\<close> returns the
  first index at which the reference is found, and \<open>-1\<close> when there is none.
\<close>

fun indexOf_from :: "'a list \<Rightarrow> 'a \<Rightarrow> int \<Rightarrow> int" where
  "indexOf_from [] v i = - 1"
| "indexOf_from (y # ys) v i = (if y = v then i else indexOf_from ys v (i + 1))"

definition Array_indexOf :: "'a list \<Rightarrow> 'a \<Rightarrow> int" where
  "Array_indexOf array v = indexOf_from array v 0"

text \<open>
  \<^verbatim>\<open>
  addBody(body: RigidBody) {
      this.bodies.push(body);
      this.quadtree.insert(body);
  }
  removeBody(body: RigidBody) {
      const index = this.bodies.indexOf(body);
      [this.bodies[index], this.bodies[this.bodies.length - 1]] = [
          this.bodies[this.bodies.length - 1],
          this.bodies[index],
      ];
      this.bodies.pop();
      this.quadtree.remove(body);
  }
  \<close>
  The destructuring assignment reads both entries and then writes \<^verbatim>\<open>bodies[index]\<close> and
  \<^verbatim>\<open>bodies[length - 1]\<close>, in this order. With \<open>index = -1\<close> the first write sets the
  property \<^verbatim>\<open>"-1"\<close> of the array object, which is no element of the array, and the
  second writes \<^verbatim>\<open>undefined\<close> (the value read from \<^verbatim>\<open>bodies[-1]\<close>) over the last
  entry; \<^verbatim>\<open>pop\<close> then removes that entry. On an empty array \<^verbatim>\<open>pop\<close> removes nothing.
  The stray property \<^verbatim>\<open>"-1"\<close> is not modelled: neither \<^verbatim>\<open>length\<close> nor iteration
  sees it.
\<close>

definition PhysicsEngine_addBody ::
  "body_ref list \<times> body_ref QuadTree \<Rightarrow> body_ref \<Rightarrow> AABB \<Rightarrow> body_ref list \<times> body_ref QuadTree"
  where
  "PhysicsEngine_addBody this body bodyBounds =
     (fst this @ [body], snd (QuadTree_insert (snd this) body bodyBounds))"

definition PhysicsEngine_removeBody ::
  "body_ref list \<times> body_ref QuadTree \<Rightarrow> body_ref
     \<Rightarrow> (body_ref list \<times> body_ref QuadTree) option" where
  "PhysicsEngine_removeBody this body =
     (let bodies = fst this;
          index = Array_indexOf bodies body;
          swapped = (if 0 \<le> index
                     then (bodies[nat index := last bodies])
                            [length bodies - 1 := bodies ! nat index]
                     else bodies);
          popped = butlast swapped
      in case QuadTree_remove (snd this) body of
           None \<Rightarrow> None
         | Some (removed, quadtree') \<Rightarrow> Some (popped, quadtree'))"

section \<open>The fixed-step driver: \<^verbatim>\<open>PhysicsEngine.update\<close>\<close>

text \<open>
  \<^verbatim>\<open>
  update(deltaSeconds: number): number {
      const deltaSteps = Math.floor(this.timeElapsed / this.fixedTimeStep) - this.stepsElapsed;
      const start = performance.now();
      for (let i = 0; i < deltaSteps; i++) {
          this.step(this.fixedTimeStep);
      }
      this.updateDuration = performance.now() - start;
      this.timeElapsed += deltaSeconds;
      this.stepsElapsed += deltaSteps;
      return deltaSteps;
  }
  \<close>
  The clock fields of the engine are kept apart from everything \<^verbatim>\<open>step\<close> works on
  (bodies, broad-phase, collisions, islands), which is the field \<open>world\<close>:
  \<^verbatim>\<open>step\<close> never assigns \<^verbatim>\<open>timeElapsed\<close>, \<^verbatim>\<open>stepsElapsed\<close> or
  \<^verbatim>\<open>fixedTimeStep\<close>. The step is a parameter of \<open>PhysicsEngine_update\<close>; it returns
  \<open>None\<close> where the call does not return, \<open>Some (Inl e)\<close> where it throws and
  \<open>Some (Inr w)\<close> where it returns and leaves the world \<open>w\<close> (\<open>PhysicsEngine_step\<close> below
  is the step of the source). \<^verbatim>\<open>update\<close> has no \<^verbatim>\<open>try\<close>: where a step throws or does
  not return, \<^verbatim>\<open>update\<close> does the same and the two assignments to the clock do not run.
  \<^verbatim>\<open>updateDuration\<close> is wall-clock time and is not modelled.

  The numbers of the clock are binary64 values, finite and with \<open>fixedTimeStep\<close> not
  zero: the quotient, the difference, the two sums and the increment of the loop
  counter are the exact results rounded by \<open>fl64\<close>. \<open>stepsElapsed\<close>, \<open>deltaSteps\<close> and
  the loop counter are integers (the value of \<^verbatim>\<open>Math.floor\<close>, and sums and differences
  of integers, rounded to binary64 values, which are integers again).
\<close>

record 'w PhysicsEngine =
  fixedTimeStep :: real
  timeElapsed :: real
  stepsElapsed :: int
  world :: 'w

text \<open>The constructor: \<^verbatim>\<open>fixedTimeStep = 1 / config.stepsPerSecond\<close>, both counters zero.\<close>

definition PhysicsEngine_new :: "PhysicsEngineConfig \<Rightarrow> 'w \<Rightarrow> 'w PhysicsEngine" where
  "PhysicsEngine_new config w =
     \<lparr>fixedTimeStep = fl64 (1 / stepsPerSecond config), timeElapsed = 0, stepsElapsed = 0,
      world = w\<rparr>"

text \<open>
  The \<^verbatim>\<open>for\<close> loop: \<open>i\<close> counts up from 0 while \<open>i < deltaSteps\<close>; the body runs
  \<open>step\<close> once. A \<open>deltaSteps\<close> that is zero or negative runs the body not at all. The
  loop does not return where a step does not, and where the counter stops growing
  (\<^verbatim>\<open>i++\<close> leaves \<open>2^53\<close> as it is).
\<close>

partial_function (option) run_steps ::
  "(real \<Rightarrow> 'w \<Rightarrow> (error + 'w) option) \<Rightarrow> real \<Rightarrow> int \<Rightarrow> int \<Rightarrow> 'w \<Rightarrow> (error + 'w) option"
  where
  "run_steps step dt i deltaSteps w =
     (if i < deltaSteps
      then (case step dt w of
              None \<Rightarrow> None
            | Some (Inl e) \<Rightarrow> Some (Inl e)
            | Some (Inr w') \<Rightarrow> run_steps step dt \<lfloor>fl64 (of_int i + 1)\<rfloor> deltaSteps w')
      else Some (Inr w))"

definition PhysicsEngine_update ::
  "(real \<Rightarrow> 'w \<Rightarrow> (error + 'w) option) \<Rightarrow> real \<Rightarrow> 'w PhysicsEngine
     \<Rightarrow> (error + int \<times> 'w PhysicsEngine) option" where
  "PhysicsEngine_update step deltaSeconds e =
     (let deltaSteps =
            \<lfloor>fl64 (of_int \<lfloor>fl64 (timeElapsed e / fixedTimeStep e)\<rfloor> - of_int (stepsElapsed e))\<rfloor>
      in case run_steps step (fixedTimeStep e) 0 deltaSteps (world e) of
           None \<Rightarrow> None
         | Some (Inl err) \<Rightarrow> Some (Inl err)
         | Some (Inr w') \<Rightarrow>
             Some (Inr (deltaSteps,
                        e\<lparr>world := w',
                          timeElapsed := fl64 (timeElapsed e + deltaSeconds),
                          stepsElapsed :=
                            \<lfloor>fl64 (of_int (stepsElapsed e) + of_int deltaSteps)\<rfloor>\<rparr>)))"

section \<open>The engine: islands, the collision pass and the step\<close>

subsection \<open>Broad-phase queries\<close>

text \<open>
  \<^verbatim>\<open>
  getAll(result: T[]) {
      result.push(...this.items);
      for (const child of this.children) {
          child?.getAll(result);
      }
  }
  get(bounds: AABB, result: T[]) {
      for (const item of this.items) {
          if (item.bounds.intersects(bounds)) {
              result.push(item);
          }
      }
      for (const child of this.children) {
          if (child !== undefined) {
              if (bounds.contains(child.bounds)) child.getAll(result);
              else if (bounds.intersects(child.bounds)) child.get(bounds, result);
          }
      }
  }
  \<close>
  The array \<^verbatim>\<open>result\<close> is the argument \<open>out\<close> and the value of the function. The bounds
  of the child in slot \<open>i\<close> are \<^verbatim>\<open>this.childBounds[i]\<close>; \<open>itemBounds\<close> reads
  \<^verbatim>\<open>item.bounds\<close>.
\<close>

fun QuadTreeNode_getAll :: "'a QuadTreeNode \<Rightarrow> 'a list \<Rightarrow> 'a list" where
  "QuadTreeNode_getAll (QuadTreeNode its cs) out =
     fold (\<lambda>child r. case child of None \<Rightarrow> r | Some c \<Rightarrow> QuadTreeNode_getAll c r) cs
          (out @ its)"

function QuadTreeNode_get ::
  "('a \<Rightarrow> AABB) \<Rightarrow> AABB \<Rightarrow> 'a QuadTreeNode \<Rightarrow> AABB \<Rightarrow> 'a list \<Rightarrow> 'a list" where
  "QuadTreeNode_get itemBounds nodeBounds (QuadTreeNode its cs) queryBounds out =
     fold (\<lambda>i r. case cs ! i of
                   None \<Rightarrow> r
                 | Some c \<Rightarrow>
                     if AABB_contains queryBounds (childBounds nodeBounds ! i)
                     then QuadTreeNode_getAll c r
                     else if AABB_intersects queryBounds (childBounds nodeBounds ! i)
                     then QuadTreeNode_get itemBounds (childBounds nodeBounds ! i) c queryBounds r
                     else r)
          [0 ..< length cs]
          (out @ filter (\<lambda>item. AABB_intersects (itemBounds item) queryBounds) its)"
  by pat_completeness auto
termination
proof (relation "measure (\<lambda>(itemBounds, nodeBounds, this, queryBounds, out). size this)", goal_cases)
  case 1
  show ?case by simp
next
  case (2 itemBounds nodeBounds its cs queryBounds out i r c)
  then have "Some c \<in> set cs"
    by (metis atLeastLessThan_iff nth_mem set_upt)
  then have "size_option size (Some c) \<le> size_list (size_option size) cs"
    by (rule size_list_estimation') simp
  then show ?case by simp
qed

declare QuadTreeNode_getAll.simps [simp del]
declare QuadTreeNode_get.simps [simp del]

text \<open>\<^verbatim>\<open>get(bounds) { const result = []; this.root.get(bounds, result); return result; }\<close>\<close>

definition QuadTree_get :: "('a \<Rightarrow> AABB) \<Rightarrow> 'a QuadTree \<Rightarrow> AABB \<Rightarrow> 'a list" where
  "QuadTree_get itemBounds this queryBounds =
     QuadTreeNode_get itemBounds (root_bounds this) (root this) queryBounds []"

subsection \<open>Maps, sets and arrays of JavaScript\<close>

text \<open>
  A \<^verbatim>\<open>Map\<close> iterates in the order in which its keys were first set, and \<^verbatim>\<open>set\<close> on a
  key that is present keeps its place: a \<^verbatim>\<open>Map\<close> is a list of key-value pairs with
  distinct keys. A \<^verbatim>\<open>Set\<close> iterates in insertion order, and \<^verbatim>\<open>add\<close> of a member
  changes nothing: a \<^verbatim>\<open>Set\<close> is a list without repetition.
\<close>

fun Map_set :: "'k \<Rightarrow> 'v \<Rightarrow> ('k \<times> 'v) list \<Rightarrow> ('k \<times> 'v) list" where
  "Map_set k v [] = [(k, v)]"
| "Map_set k v (e # m) = (if fst e = k then (k, v) # m else e # Map_set k v m)"

definition Map_get :: "('k \<times> 'v) list \<Rightarrow> 'k \<Rightarrow> 'v option" where
  "Map_get m k = map_of m k"

definition Map_delete :: "'k \<Rightarrow> ('k \<times> 'v) list \<Rightarrow> ('k \<times> 'v) list" where
  "Map_delete k m = filter (\<lambda>e. fst e \<noteq> k) m"

definition Map_keys :: "('k \<times> 'v) list \<Rightarrow> 'k list" where
  "Map_keys m = map fst m"

definition Map_values :: "('k \<times> 'v) list \<Rightarrow> 'v list" where
  "Map_values m = map snd m"

definition Set_add :: "'a list \<Rightarrow> 'a \<Rightarrow> 'a list" where
  "Set_add s x = (if x \<in> set s then s else s @ [x])"

text \<open>
  \<^verbatim>\<open>
  export function swapRemove<T>(array: T[], index: number): T | undefined {
      [array[index], array[array.length - 1]] = [array[array.length - 1], array[index]];
      return array.pop();
  }
  \<close>
  of \<^verbatim>\<open>lib/util\<close>, with an index that may be \<open>-1\<close> (the result of \<^verbatim>\<open>indexOf\<close>): then
  the last entry is overwritten with \<^verbatim>\<open>undefined\<close> and popped, as in \<^verbatim>\<open>removeBody\<close>.
\<close>

definition Array_swapRemove :: "'a list \<Rightarrow> int \<Rightarrow> 'a list" where
  "Array_swapRemove array index =
     butlast (if 0 \<le> index
              then (array[nat index := last array])[length array - 1 := array ! nat index]
              else array)"

subsection \<open>The state of the engine\<close>

text \<open>
  The fields of \<^verbatim>\<open>PhysicsEngine\<close> that \<^verbatim>\<open>step\<close> reads and writes are the fields
  \<open>this_\<dots>\<close>. \<open>bodyObjects\<close> holds the \<^verbatim>\<open>RigidBody\<close> objects and \<open>islandObjects\<close> the
  \<^verbatim>\<open>bodies\<close> set of each \<^verbatim>\<open>Island\<close> object; \<open>islandsCreated\<close> counts the \<^verbatim>\<open>Island\<close>
  objects built so far, and \<^verbatim>\<open>new Island()\<close> takes the next reference.
  \<open>resolvedCollisionIds\<close> is the local array of \<^verbatim>\<open>checkCollisions\<close>. \<open>confirmedPairs\<close>
  is a history variable, not a field of the source: \<^verbatim>\<open>checkCollisions\<close> appends to it
  each pair \<open>(bodyA, bodyB)\<close> for which \<^verbatim>\<open>checkCollision\<close> returned a collision.
\<close>

record PhysicsWorld =
  this_config :: PhysicsEngineConfig
  this_worldBounds :: AABB
  this_quadtree :: "body_ref QuadTree"
  this_bodies :: "body_ref list"
  this_collisions :: "(nat \<times> Collision) list"
  this_islands :: "island_ref list"
  bodyObjects :: body_store
  islandObjects :: "island_ref \<Rightarrow> body_ref list"
  islandsCreated :: nat
  resolvedCollisionIds :: "nat list"
  confirmedPairs :: "(body_ref \<times> body_ref) list"

subsection \<open>Islands\<close>

text \<open>
  \<^verbatim>\<open>
  export class Island {
      bodies: Set<RigidBody>;
      constructor() { this.bodies = new Set(); }
      add(body: RigidBody) { this.bodies.add(body); }
      merge(island: Island) {
          for (const body of island.bodies) {
              // Don't need to check if body is fixed, otherwise it wouldn't be in an island
              this.bodies.add(body);
              body.island = this;
          }
          island.clear();
      }
      clear() { this.bodies.clear(); }
  }
  \<close>
  and, of \<^verbatim>\<open>RigidBody\<close>,
  \<^verbatim>\<open>
  addToIsland(island: Island) {
      if (!this.fixed) {
          this.island = island;
          island.add(this);
      }
  }
  \<close>
\<close>

definition Island_new :: "PhysicsWorld \<Rightarrow> island_ref \<times> PhysicsWorld" where
  "Island_new w =
     (islandsCreated w,
      w\<lparr>islandObjects := (islandObjects w)(islandsCreated w := []),
        islandsCreated := islandsCreated w + 1\<rparr>)"

definition Island_add :: "island_ref \<Rightarrow> body_ref \<Rightarrow> PhysicsWorld \<Rightarrow> PhysicsWorld" where
  "Island_add this body w =
     w\<lparr>islandObjects := (islandObjects w)(this := Set_add (islandObjects w this) body)\<rparr>"

definition Island_clear :: "island_ref \<Rightarrow> PhysicsWorld \<Rightarrow> PhysicsWorld" where
  "Island_clear this w = w\<lparr>islandObjects := (islandObjects w)(this := [])\<rparr>"

definition Island_merge :: "island_ref \<Rightarrow> island_ref \<Rightarrow> PhysicsWorld \<Rightarrow> PhysicsWorld" where
  "Island_merge this other w =
     Island_clear other
       (fold (\<lambda>body w'.
                (Island_add this body w')
                  \<lparr>bodyObjects :=
                     (bodyObjects w')(body := (bodyObjects w' body)\<lparr>island := Some this\<rparr>)\<rparr>)
             (islandObjects w other) w)"

definition RigidBody_addToIsland :: "body_ref \<Rightarrow> island_ref \<Rightarrow> PhysicsWorld \<Rightarrow> PhysicsWorld" where
  "RigidBody_addToIsland this i w =
     (if \<not> fixed (bodyObjects w this)
      then Island_add i this
             (w\<lparr>bodyObjects := (bodyObjects w)(this := (bodyObjects w this)\<lparr>island := Some i\<rparr>)\<rparr>)
      else w)"

subsection \<open>The collision pass\<close>

text \<open>
  The island part of the loop body of \<^verbatim>\<open>checkCollisions\<close>; its last branch is
  \<open>checkCollisions_newIsland\<close>:
  \<^verbatim>\<open>
  if (bodyA.island !== undefined && bodyB.island !== undefined) {
      if (bodyA.island !== bodyB.island) {
          bodyA.island.merge(bodyB.island);
      }
  } else if (bodyA.island !== undefined) {
      bodyB.addToIsland(bodyA.island);
  } else if (bodyB.island !== undefined) {
      bodyA.addToIsland(bodyB.island);
  } else {
      const newIsland = new Island();
      bodyA.addToIsland(newIsland);
      bodyB.addToIsland(newIsland);
      this.islands.push(newIsland);
  }
  \<close>
\<close>

definition checkCollisions_newIsland :: "body_ref \<Rightarrow> body_ref \<Rightarrow> PhysicsWorld \<Rightarrow> PhysicsWorld" where
  "checkCollisions_newIsland a b w =
     (let (newIsland, w1) = Island_new w;
          w2 = RigidBody_addToIsland a newIsland w1;
          w3 = RigidBody_addToIsland b newIsland w2
      in w3\<lparr>this_islands := this_islands w3 @ [newIsland]\<rparr>)"

definition checkCollisions_islands :: "body_ref \<Rightarrow> body_ref \<Rightarrow> PhysicsWorld \<Rightarrow> PhysicsWorld" where
  "checkCollisions_islands a b w =
     (case (island (bodyObjects w a), island (bodyObjects w b)) of
        (Some islandA, Some islandB) \<Rightarrow>
          if islandA \<noteq> islandB then Island_merge islandA islandB w else w
      | (Some islandA, None) \<Rightarrow> RigidBody_addToIsland b islandA w
      | (None, Some islandB) \<Rightarrow> RigidBody_addToIsland a islandB w
      | (None, None) \<Rightarrow> checkCollisions_newIsland a b w)"

text \<open>
  The manifold part of the loop body, for a collision that replaces an existing one:
  \<^verbatim>\<open>
  const newContact = collision.manifold.contacts[0];
  collision.manifold.contacts = existingCollision.manifold.contacts;
  // remove invalid points
  for (let i = collision.manifold.contacts.length - 1; i >= 0; i--) {
      const contact = collision.manifold.contacts[i];
      const currentWorldPosA = Vec2.add(bodyA.position, contact.localPosA);
      const currentWorldPosB = Vec2.add(bodyB.position, contact.localPosB);
      const currentOverlap = Vec2.sub(currentWorldPosB, currentWorldPosA);
      const movementA = Vec2.sub(contact.worldPosA, currentWorldPosA).magnitudeSquared();
      const movementB = Vec2.sub(contact.worldPosB, currentWorldPosB).magnitudeSquared();
      const inContact = collision.manifold.normal.dot(currentOverlap) <= 0.01;
      if (!inContact || movementA > 4 || movementB > 4) {
          swapRemove(collision.manifold.contacts, i);
      }
  }
  let duplicate = false;
  // add new point
  for (const contact of collision.manifold.contacts) {
      const distanceA = Vec2.sub(newContact.localPosA, contact.localPosA).magnitudeSquared();
      const distanceB = Vec2.sub(newContact.localPosB, contact.localPosB).magnitudeSquared();
      if (distanceA < 4 || distanceB < 4) { duplicate = true; break; }
  }
  if (!duplicate) { collision.manifold.contacts.push(newContact); }
  // reduce number of points to 2
  if (collision.manifold.contacts.length > 2) {
      let deepestContact = collision.manifold.contacts[0];
      let deepestDepth = 0;
      for (const contact of collision.manifold.contacts) {
          const depth = Vec2.sub(contact.worldPosB, contact.worldPosA).magnitudeSquared();
          if (depth > deepestDepth) { deepestContact = contact; deepestDepth = depth; }
      }
      let furthestContact = collision.manifold.contacts[0];
      let furthestDistance = 0;
      for (const contact of collision.manifold.contacts) {
          const distance = Vec2.sub(contact.worldPosA, deepestContact.worldPosA).magnitudeSquared();
          if (distance > furthestDistance) { furthestContact = contact; furthestDistance = distance; }
      }
      collision.manifold.contacts[0] = deepestContact;
      collision.manifold.contacts[1] = furthestContact;
      collision.manifold.contacts.length = 2;
  }
  \<close>
\<close>

definition checkCollisions_removeInvalid ::
  "RigidBody \<Rightarrow> RigidBody \<Rightarrow> Vec2 \<Rightarrow> Contact list \<Rightarrow> Contact list" where
  "checkCollisions_removeInvalid A B n cs =
     fold (\<lambda>i cs'.
             let contact = cs' ! i;
                 currentWorldPosA = Vec2_add (position A) (localPosA contact);
                 currentWorldPosB = Vec2_add (position B) (localPosB contact);
                 currentOverlap = Vec2_sub currentWorldPosB currentWorldPosA;
                 movementA = Vec2_magnitudeSquared (Vec2_sub (worldPosA contact) currentWorldPosA);
                 movementB = Vec2_magnitudeSquared (Vec2_sub (worldPosB contact) currentWorldPosB);
                 inContact = (Vec2_dot n currentOverlap \<le> 0.01)
             in if \<not> inContact \<or> movementA > 4 \<or> movementB > 4
                then Array_swapRemove cs' (int i) else cs')
          (rev [0 ..< length cs]) cs"

definition checkCollisions_duplicate :: "Contact \<Rightarrow> Contact list \<Rightarrow> bool" where
  "checkCollisions_duplicate newContact cs =
     list_ex (\<lambda>contact.
                Vec2_magnitudeSquared (Vec2_sub (localPosA newContact) (localPosA contact)) < 4
                \<or> Vec2_magnitudeSquared (Vec2_sub (localPosB newContact) (localPosB contact)) < 4)
             cs"

definition checkCollisions_reduce :: "Contact list \<Rightarrow> Contact list" where
  "checkCollisions_reduce cs =
     (let deepestContact =
            fst (fold (\<lambda>contact (deepestContact, deepestDepth).
                         let d = Vec2_magnitudeSquared
                                   (Vec2_sub (worldPosB contact) (worldPosA contact))
                         in if d > deepestDepth then (contact, d)
                            else (deepestContact, deepestDepth))
                      cs (cs ! 0, 0));
          furthestContact =
            fst (fold (\<lambda>contact (furthestContact, furthestDistance).
                         let d = Vec2_magnitudeSquared
                                   (Vec2_sub (worldPosA contact) (worldPosA deepestContact))
                         in if d > furthestDistance then (contact, d)
                            else (furthestContact, furthestDistance))
                      cs (cs ! 0, 0))
      in [deepestContact, furthestContact])"

definition checkCollisions_persist ::
  "RigidBody \<Rightarrow> RigidBody \<Rightarrow> Collision \<Rightarrow> Collision \<Rightarrow> Collision" where
  "checkCollisions_persist A B collision existingCollision =
     (let newContact = contacts (manifold collision) ! 0;
          cs1 = checkCollisions_removeInvalid A B (normal (manifold collision))
                  (contacts (manifold existingCollision));
          cs2 = (if \<not> checkCollisions_duplicate newContact cs1 then cs1 @ [newContact] else cs1);
          cs3 = (if length cs2 > 2 then checkCollisions_reduce cs2 else cs2)
      in collision\<lparr>manifold := (manifold collision)\<lparr>contacts := cs3\<rparr>\<rparr>)"

text \<open>
  The loop body of \<^verbatim>\<open>checkCollisions\<close> from the point where \<^verbatim>\<open>checkCollision\<close> has
  returned a collision:
  \<^verbatim>\<open>
  // If at least one body is awake, wake up both bodies
  bodyA.sleeping = false;
  bodyB.sleeping = false;
  ... the island part ...
  const existingCollision = this.collisions.get(collision.id);
  if (existingCollision !== undefined) {
      swapRemove(resolvedCollisionIds, resolvedCollisionIds.indexOf(collision.id));
      ... the manifold part ...
  }
  this.collisions.set(collision.id, collision);
  \<close>
\<close>

definition checkCollisions_confirmed ::
  "body_ref \<Rightarrow> body_ref \<Rightarrow> Collision \<Rightarrow> PhysicsWorld \<Rightarrow> PhysicsWorld" where
  "checkCollisions_confirmed a b collision w =
     (let w1 = w\<lparr>bodyObjects := (bodyObjects w)(a := (bodyObjects w a)\<lparr>sleeping := False\<rparr>)\<rparr>;
          w2 = w1\<lparr>bodyObjects := (bodyObjects w1)(b := (bodyObjects w1 b)\<lparr>sleeping := False\<rparr>)\<rparr>;
          w3 = checkCollisions_islands a b w2;
          (collision', resolved') =
            (case Map_get (this_collisions w3) (collision_key collision) of
               None \<Rightarrow> (collision, resolvedCollisionIds w3)
             | Some existingCollision \<Rightarrow>
                 (checkCollisions_persist (bodyObjects w3 a) (bodyObjects w3 b)
                    collision existingCollision,
                  Array_swapRemove (resolvedCollisionIds w3)
                    (Array_indexOf (resolvedCollisionIds w3) (collision_key collision))))
      in w3\<lparr>this_collisions := Map_set (collision_key collision) collision' (this_collisions w3),
            resolvedCollisionIds := resolved',
            confirmedPairs := confirmedPairs w3 @ [(a, b)]\<rparr>)"

text \<open>
  \<^verbatim>\<open>checkCollision(bodyA, bodyB)\<close> runs \<^verbatim>\<open>GJK\<close>, whose loop is \<^verbatim>\<open>while (true)\<close>, and
  \<^verbatim>\<open>EPA\<close>, which may throw; it reads the two bodies and writes nothing. It is an
  argument of the pass: a function from the bodies as they are and the two references to
  \<open>None\<close> (the call does not return), \<open>Some (Inl e)\<close> (it throws), \<open>Some (Inr None)\<close> (it
  returns \<^verbatim>\<open>undefined\<close>) or \<open>Some (Inr (Some collision))\<close>.
  \<^verbatim>\<open>
  checkCollisions() {
      const resolvedCollisionIds = Array.from(this.collisions.keys());
      for (const bodyA of this.bodies) {
          for (const bodyB of this.quadtree.get(bodyA.bounds)) {
              if (((bodyA.fixed || bodyA.sleeping) && (bodyB.fixed || bodyB.sleeping))
                  || bodyB.id <= bodyA.id)
                  continue;
              const collision = this.checkCollision(bodyA, bodyB);
              if (collision === undefined) continue;
              ... the loop body above ...
          }
      }
      // remove resolved collisions
      for (const id of resolvedCollisionIds) {
          this.collisions.delete(id);
      }
  }
  \<close>
\<close>

type_synonym narrowPhase =
  "body_store \<Rightarrow> body_ref \<Rightarrow> body_ref \<Rightarrow> (error + Collision option) option"

fun checkCollisions_inner ::
  "narrowPhase \<Rightarrow> body_ref \<Rightarrow> body_ref list \<Rightarrow> PhysicsWorld \<Rightarrow> (error + PhysicsWorld) option"
  where
  "checkCollisions_inner checkCollision a [] w = Some (Inr w)"
| "checkCollisions_inner checkCollision a (b # rest) w =
     (if ((fixed (bodyObjects w a) \<or> sleeping (bodyObjects w a))
          \<and> (fixed (bodyObjects w b) \<or> sleeping (bodyObjects w b)))
         \<or> body_id (bodyObjects w b) \<le> body_id (bodyObjects w a)
      then checkCollisions_inner checkCollision a rest w
      else
        (case checkCollision (bodyObjects w) a b of
           None \<Rightarrow> None
         | Some (Inl e) \<Rightarrow> Some (Inl e)
         | Some (Inr None) \<Rightarrow> checkCollisions_inner checkCollision a rest w
         | Some (Inr (Some collision)) \<Rightarrow>
             checkCollisions_inner checkCollision a rest
               (checkCollisions_confirmed a b collision w)))"

fun checkCollisions_outer ::
  "narrowPhase \<Rightarrow> body_ref list \<Rightarrow> PhysicsWorld \<Rightarrow> (error + PhysicsWorld) option" where
  "checkCollisions_outer checkCollision [] w = Some (Inr w)"
| "checkCollisions_outer checkCollision (a # rest) w =
     (case checkCollisions_inner checkCollision a
             (QuadTree_get (\<lambda>r. bounds (bodyObjects w r)) (this_quadtree w)
                (bounds (bodyObjects w a))) w of
        None \<Rightarrow> None
      | Some (Inl e) \<Rightarrow> Some (Inl e)
      | Some (Inr w') \<Rightarrow> checkCollisions_outer checkCollision rest w')"

definition PhysicsEngine_checkCollisions ::
  "narrowPhase \<Rightarrow> PhysicsWorld \<Rightarrow> (error + PhysicsWorld) option" where
  "PhysicsEngine_checkCollisions checkCollision w =
     (case checkCollisions_outer checkCollision (this_bodies w)
             (w\<lparr>resolvedCollisionIds := Map_keys (this_collisions w), confirmedPairs := []\<rparr>) of
        None \<Rightarrow> None
      | Some (Inl e) \<Rightarrow> Some (Inl e)
      | Some (Inr w') \<Rightarrow>
          Some (Inr (w'\<lparr>this_collisions :=
                          fold Map_delete (resolvedCollisionIds w') (this_collisions w')\<rparr>)))"

text \<open>
  In \<^verbatim>\<open>step\<close>, between the integration of the bodies and the collision pass:
  \<^verbatim>\<open>
  for (const body of this.bodies) {
      body.island = undefined;
  }
  this.islands.length = 0;
  \<close>
\<close>

definition step_clearIslands :: "PhysicsWorld \<Rightarrow> PhysicsWorld" where
  "step_clearIslands w =
     (fold (\<lambda>body w'.
              w'\<lparr>bodyObjects := (bodyObjects w')(body := (bodyObjects w' body)\<lparr>island := None\<rparr>)\<rparr>)
           (this_bodies w) w)
       \<lparr>this_islands := []\<rparr>"

subsection \<open>The step\<close>

text \<open>
  The first loop of \<^verbatim>\<open>step\<close>:
  \<^verbatim>\<open>
  for (const body of this.bodies) {
      if (body.fixed || body.sleeping) continue;
      body.linearVelocity.y += this.config.gravity * deltaSeconds;
      body.integrate(deltaSeconds);
      // crude wrap around
      const wrap = new Vec2(0, 0);
      if (body.bounds.min.x > this.worldBounds.max.x) wrap.x = -body.bounds.max.x;
      if (body.bounds.min.y > this.worldBounds.max.y) wrap.y = -body.bounds.max.y;
      if (body.bounds.max.x < 0) wrap.x = this.worldBounds.max.x - body.bounds.min.x;
      if (body.bounds.max.y < 0) wrap.y = this.worldBounds.max.y - body.bounds.min.y;
      body.translate(wrap);
      if (body.linearVelocity.magnitudeSquared() > 0 || Math.abs(body.angularVelocity) > 0) {
          this.quadtree.update(body);
      }
  }
  \<close>
  The result is \<open>None\<close> where \<open>QuadTree_update\<close> is: the quadtree holds a location that
  names no node of the tree.
\<close>

definition step_wrap :: "AABB \<Rightarrow> AABB \<Rightarrow> Vec2" where
  "step_wrap bodyBounds worldBounds =
     (let wrap0 = Vec2 0 0;
          wrap1 = (if vec_x (AABB_min bodyBounds) > vec_x (AABB_max worldBounds)
                   then Vec2 (- vec_x (AABB_max bodyBounds)) (vec_y wrap0) else wrap0);
          wrap2 = (if vec_y (AABB_min bodyBounds) > vec_y (AABB_max worldBounds)
                   then Vec2 (vec_x wrap1) (- vec_y (AABB_max bodyBounds)) else wrap1);
          wrap3 = (if vec_x (AABB_max bodyBounds) < 0
                   then Vec2 (vec_x (AABB_max worldBounds) - vec_x (AABB_min bodyBounds))
                             (vec_y wrap2)
                   else wrap2);
          wrap4 = (if vec_y (AABB_max bodyBounds) < 0
                   then Vec2 (vec_x wrap3)
                             (vec_y (AABB_max worldBounds) - vec_y (AABB_min bodyBounds))
                   else wrap3)
      in wrap4)"

definition step_integrateBody :: "real \<Rightarrow> body_ref \<Rightarrow> PhysicsWorld \<Rightarrow> PhysicsWorld option" where
  "step_integrateBody deltaSeconds r w =
     (let body = bodyObjects w r in
      if fixed body \<or> sleeping body then Some w
      else
        let b1 = body\<lparr>linearVelocity :=
                       Vec2 (vec_x (linearVelocity body))
                            (vec_y (linearVelocity body)
                               + gravity (this_config w) * deltaSeconds)\<rparr>;
            b2 = RigidBody_integrate b1 deltaSeconds;
            b3 = RigidBody_translate b2 (step_wrap (bounds b2) (this_worldBounds w));
            w1 = w\<lparr>bodyObjects := (bodyObjects w)(r := b3)\<rparr>
        in if Vec2_magnitudeSquared (linearVelocity b3) > 0 \<or> \<bar>angularVelocity b3\<bar> > 0
           then (case QuadTree_update (this_quadtree w1) r (bounds b3) of
                   None \<Rightarrow> None
                 | Some (inserted, quadtree') \<Rightarrow> Some (w1\<lparr>this_quadtree := quadtree'\<rparr>))
           else Some w1)"

fun step_integrate :: "real \<Rightarrow> body_ref list \<Rightarrow> PhysicsWorld \<Rightarrow> PhysicsWorld option" where
  "step_integrate deltaSeconds [] w = Some w"
| "step_integrate deltaSeconds (body # rest) w =
     (case step_integrateBody deltaSeconds body w of
        None \<Rightarrow> None
      | Some w' \<Rightarrow> step_integrate deltaSeconds rest w')"

text \<open>
  The last loop of \<^verbatim>\<open>step\<close>:
  \<^verbatim>\<open>
  for (const island of this.islands) {
      let minSleepTime = Number.MAX_VALUE;
      for (const body of island.bodies) {
          const linearMotion = body.linearVelocity.magnitudeSquared();
          const angularMotion = Math.abs(body.angularVelocity);
          if (
              linearMotion < this.config.sleepLinearThreshold * this.config.sleepLinearThreshold &&
              angularMotion < this.config.sleepAngularThreshold
          ) {
              body.timeStill += deltaSeconds;
              minSleepTime = Math.min(minSleepTime, body.timeStill);
          } else {
              body.timeStill = 0;
              minSleepTime = 0;
          }
      }
      // Put the whole island to sleep if all bodies are still for a while
      if (minSleepTime >= this.config.sleepTimeThreshold) {
          for (const body of island.bodies) {
              body.sleeping = true;
          }
      }
  }
  \<close>
  \<open>step_sleepBody\<close> is the body of the first inner loop, on the pair of the store and
  \<^verbatim>\<open>minSleepTime\<close>.
\<close>

definition step_sleepBody ::
  "PhysicsEngineConfig \<Rightarrow> real \<Rightarrow> body_ref \<Rightarrow> body_store \<times> real \<Rightarrow> body_store \<times> real" where
  "step_sleepBody config deltaSeconds r acc =
     (let st = fst acc;
          minSleepTime = snd acc;
          body = st r;
          linearMotion = Vec2_magnitudeSquared (linearVelocity body);
          angularMotion = \<bar>angularVelocity body\<bar>
      in if linearMotion < sleepLinearThreshold config * sleepLinearThreshold config
            \<and> angularMotion < sleepAngularThreshold config
         then (st(r := body\<lparr>timeStill := timeStill body + deltaSeconds\<rparr>),
               min minSleepTime (timeStill body + deltaSeconds))
         else (st(r := body\<lparr>timeStill := 0\<rparr>), 0))"

definition step_sleepIsland :: "real \<Rightarrow> island_ref \<Rightarrow> PhysicsWorld \<Rightarrow> PhysicsWorld" where
  "step_sleepIsland deltaSeconds i w =
     (let acc = fold (step_sleepBody (this_config w) deltaSeconds) (islandObjects w i)
                     (bodyObjects w, MAX_VALUE);
          st1 = fst acc;
          minSleepTime = snd acc;
          st2 = (if minSleepTime \<ge> sleepTimeThreshold (this_config w)
                 then fold (\<lambda>r st. st(r := (st r)\<lparr>sleeping := True\<rparr>)) (islandObjects w i) st1
                 else st1)
      in w\<lparr>bodyObjects := st2\<rparr>)"

text \<open>
  \<^verbatim>\<open>
  step(deltaSeconds: number) {
      ... the first loop ...
      for (const body of this.bodies) { body.island = undefined; }
      this.islands.length = 0;
      this.checkCollisions();
      this.resolveCollisions();
      ... the last loop ...
  }
  \<close>
  \<^verbatim>\<open>resolveCollisions\<close> works on the values of \<^verbatim>\<open>this.collisions\<close>, which keep their keys.
\<close>

definition PhysicsEngine_step ::
  "narrowPhase \<Rightarrow> real \<Rightarrow> PhysicsWorld \<Rightarrow> (error + PhysicsWorld) option" where
  "PhysicsEngine_step checkCollision deltaSeconds w =
     (case step_integrate deltaSeconds (this_bodies w) w of
        None \<Rightarrow> None
      | Some w1 \<Rightarrow>
          (case PhysicsEngine_checkCollisions checkCollision (step_clearIslands w1) of
             None \<Rightarrow> None
           | Some (Inl e) \<Rightarrow> Some (Inl e)
           | Some (Inr w2) \<Rightarrow>
               (let (cs, st) = PhysicsEngine_resolveCollisions (this_config w2)
                                 (Map_values (this_collisions w2)) (bodyObjects w2);
                    w3 = w2\<lparr>this_collisions := zip (Map_keys (this_collisions w2)) cs,
                            bodyObjects := st\<rparr>
                in Some (Inr (fold (step_sleepIsland deltaSeconds) (this_islands w3) w3)))))"

section \<open>Predicates of the solver properties\<close>

text \<open>
  The friction cone of a contact, for a friction coefficient \<open>mu\<close>: the accumulated normal
  impulse is not negative and the accumulated tangent impulse is at most \<open>mu\<close> times it
  in absolute value.
\<close>

definition contact_in_cone :: "real \<Rightarrow> Contact \<Rightarrow> bool" where
  "contact_in_cone mu ct \<longleftrightarrow>
     0 \<le> accumulatedNormalMagnitude ct \<and>
     \<bar>accumulatedTangentMagnitude ct\<bar> \<le> mu * accumulatedNormalMagnitude ct"

definition collisions_in_cone :: "Collision list \<Rightarrow> bool" where
  "collisions_in_cone cs \<longleftrightarrow>
     (\<forall>c \<in> set cs. \<forall>ct \<in> set (contacts (manifold c)). contact_in_cone (collision_friction c) ct)"

definition frictions_nonneg :: "Collision list \<Rightarrow> bool" where
  "frictions_nonneg cs \<longleftrightarrow> (\<forall>c \<in> set cs. 0 \<le> collision_friction c)"




section \<open>Predicates of the quadtree properties\<close>

text \<open>
  A subtree is prunable iff it has no items and all its children are prunable (the rule
  as the specification words it; \<open>QuadTreeNode_prune\<close> is the method of the source).
\<close>

fun prunable :: "'a QuadTreeNode \<Rightarrow> bool" where
  "prunable (QuadTreeNode its cs) \<longleftrightarrow>
     its = [] \<and> (\<forall>child \<in> set cs. case child of None \<Rightarrow> True | Some c \<Rightarrow> prunable c)"

text \<open>
  \<open>located r p i y\<close>: the node that path \<open>p\<close> leads to from \<open>r\<close> exists and holds \<open>y\<close> at
  index \<open>i\<close> of its items (\<^verbatim>\<open>node.items[index] === y\<close>).
\<close>

definition located :: "'a QuadTreeNode \<Rightarrow> nat list \<Rightarrow> nat \<Rightarrow> 'a \<Rightarrow> bool" where
  "located r p i y \<longleftrightarrow>
     (case node_at r p of
        None \<Rightarrow> False
      | Some n \<Rightarrow> i < length (items n) \<and> items n ! i = y)"

text \<open>
  The location map is exact: it maps an item to a location iff the item is stored
  there. In particular every item of the tree is stored once.
\<close>

definition QuadTree_inv :: "'a QuadTree \<Rightarrow> bool" where
  "QuadTree_inv qt \<longleftrightarrow>
     (\<forall>y p i. itemLocations qt y = Some (p, i) \<longleftrightarrow> located (root qt) p i y)"

text \<open>
  Every node has its four child slots (\<^verbatim>\<open>new Array(4)\<close>, never resized); a quadtree is
  well formed when moreover its location map is exact.
\<close>

fun four_slots :: "'a QuadTreeNode \<Rightarrow> bool" where
  "four_slots (QuadTreeNode its cs) \<longleftrightarrow>
     length cs = 4 \<and> (\<forall>child \<in> set cs. case child of None \<Rightarrow> True | Some c \<Rightarrow> four_slots c)"

definition QuadTree_wf :: "'a QuadTree \<Rightarrow> bool" where
  "QuadTree_wf qt \<longleftrightarrow> QuadTree_inv qt \<and> four_slots (root qt)"

section \<open>The expanding polytope: one iteration at a time\<close>

text \<open>
  The body of the \<^verbatim>\<open>for\<close> loop of \<^verbatim>\<open>EPA\<close> is read in three pieces: the test
  \<^verbatim>\<open>Math.abs(distance - minDistance) < 0.001\<close>, the result that is returned when the
  test succeeds, and the \<^verbatim>\<open>splice\<close> that expands the polytope when it fails.
  \<open>EPA_polytope shapeA shapeB k simplex\<close> is the polytope after \<open>k\<close> expansions.
  \<open>EPA_searchStep\<close> is the body of the inner loop that searches for the closest edge.
\<close>

definition EPA_tolerance_met :: "Shape \<Rightarrow> Shape \<Rightarrow> MinkowskiDiff list \<Rightarrow> bool" where
  "EPA_tolerance_met shapeA shapeB simplex \<longleftrightarrow>
     (let (minIndexA, minIndexB, minNormal, minDistance) = EPA_closestEdge simplex;
          d = Vec2_dot minNormal (result (MinkowskiDiff_new shapeA shapeB minNormal))
      in \<bar>d - minDistance\<bar> < 1 / 1000)"

definition EPA_expand :: "Shape \<Rightarrow> Shape \<Rightarrow> MinkowskiDiff list \<Rightarrow> MinkowskiDiff list" where
  "EPA_expand shapeA shapeB simplex =
     (let (minIndexA, minIndexB, minNormal, minDistance) = EPA_closestEdge simplex
      in splice_insert simplex (minIndexA + 1) (MinkowskiDiff_new shapeA shapeB minNormal))"

definition EPA_polytope :: "Shape \<Rightarrow> Shape \<Rightarrow> nat \<Rightarrow> MinkowskiDiff list \<Rightarrow> MinkowskiDiff list" where
  "EPA_polytope shapeA shapeB k simplex = ((EPA_expand shapeA shapeB) ^^ k) simplex"

definition EPA_answer :: "Shape \<Rightarrow> Shape \<Rightarrow> MinkowskiDiff list \<Rightarrow> EpaResult" where
  "EPA_answer shapeA shapeB simplex =
     (let (minIndexA, minIndexB, minNormal, minDistance) = EPA_closestEdge simplex;
          d = Vec2_dot minNormal (result (MinkowskiDiff_new shapeA shapeB minNormal))
      in EPA_result simplex minIndexA minIndexB minNormal d)"

definition EPA_searchStep ::
  "MinkowskiDiff list \<Rightarrow> nat \<Rightarrow> nat \<times> nat \<times> Vec2 \<times> real \<Rightarrow> nat \<times> nat \<times> Vec2 \<times> real" where
  "EPA_searchStep simplex i acc =
     (case acc of (minIndexA, minIndexB, minNormal, minDistance) \<Rightarrow>
        if EPA_edgeDistance simplex i < minDistance
        then (i, (i + 1) mod length simplex, EPA_edgeNormal simplex i, EPA_edgeDistance simplex i)
        else (minIndexA, minIndexB, minNormal, minDistance))"

section \<open>Islands: what the collision pass maintains\<close>

text \<open>
  Two bodies form a confirmed pair when the collision pass has recorded them, in either
  order. \<open>islands_inv bs\<close> relates the island pointers of the bodies in \<open>bs\<close> to the
  islands in \<^verbatim>\<open>this.islands\<close>: a body that points to an island is a member of it and the
  island is in the list; the members of a listed island are in \<open>bs\<close> and point to it; the
  listed islands have been created. \<open>same_island\<close> is what the island part of the loop
  body achieves for its two bodies, and \<open>islands_grow\<close> what every later iteration keeps.
\<close>

definition confirmed_pair :: "PhysicsWorld \<Rightarrow> body_ref \<Rightarrow> body_ref \<Rightarrow> bool" where
  "confirmed_pair w a b \<longleftrightarrow> (a, b) \<in> set (confirmedPairs w) \<or> (b, a) \<in> set (confirmedPairs w)"

definition islands_inv :: "body_ref set \<Rightarrow> PhysicsWorld \<Rightarrow> bool" where
  "islands_inv bs w \<longleftrightarrow>
     (\<forall>r i. r \<in> bs \<longrightarrow> island (bodyObjects w r) = Some i \<longrightarrow>
        i \<in> set (this_islands w) \<and> r \<in> set (islandObjects w i))
     \<and> (\<forall>i r. i \<in> set (this_islands w) \<longrightarrow> r \<in> set (islandObjects w i) \<longrightarrow>
          r \<in> bs \<and> island (bodyObjects w r) = Some i)
     \<and> (\<forall>i. i \<in> set (this_islands w) \<longrightarrow> i < islandsCreated w)"

definition same_island :: "PhysicsWorld \<Rightarrow> body_ref \<Rightarrow> body_ref \<Rightarrow> bool" where
  "same_island w a b \<longleftrightarrow>
     (\<not> fixed (bodyObjects w a) \<longrightarrow> island (bodyObjects w a) \<noteq> None)
     \<and> (\<not> fixed (bodyObjects w b) \<longrightarrow> island (bodyObjects w b) \<noteq> None)
     \<and> (\<not> fixed (bodyObjects w a) \<longrightarrow> \<not> fixed (bodyObjects w b) \<longrightarrow>
          island (bodyObjects w a) = island (bodyObjects w b))"

definition islands_grow :: "body_ref set \<Rightarrow> PhysicsWorld \<Rightarrow> PhysicsWorld \<Rightarrow> bool" where
  "islands_grow bs w w' \<longleftrightarrow>
     (\<forall>r. fixed (bodyObjects w' r) = fixed (bodyObjects w r))
     \<and> (\<forall>r. r \<in> bs \<longrightarrow> island (bodyObjects w r) \<noteq> None \<longrightarrow> island (bodyObjects w' r) \<noteq> None)
     \<and> (\<forall>r1 r2. r1 \<in> bs \<longrightarrow> r2 \<in> bs \<longrightarrow> island (bodyObjects w r1) \<noteq> None \<longrightarrow>
          island (bodyObjects w r1) = island (bodyObjects w r2) \<longrightarrow>
          island (bodyObjects w' r1) = island (bodyObjects w' r2))
     \<and> this_quadtree w' = this_quadtree w
     \<and> this_bodies w' = this_bodies w
     \<and> confirmedPairs w' = confirmedPairs w"

text \<open>
  \<open>pass_inv\<close> is the invariant of the two loops of \<^verbatim>\<open>checkCollisions\<close>: the islands are
  consistent and every recorded pair is in one island, as far as its bodies are not fixed.
\<close>

definition pass_inv :: "body_ref set \<Rightarrow> PhysicsWorld \<Rightarrow> bool" where
  "pass_inv bs w \<longleftrightarrow>
     islands_inv bs w
     \<and> (\<forall>a b. (a, b) \<in> set (confirmedPairs w) \<longrightarrow> a \<in> bs \<and> b \<in> bs \<and> same_island w a b)"

section \<open>Predicates of the fixed-body property\<close>

text \<open>
  The three fields of a body that the property speaks of: \<^verbatim>\<open>fixed\<close>, \<^verbatim>\<open>inverseMass\<close>
  and \<^verbatim>\<open>inverseAngularMass\<close>. \<open>masses_kept st st'\<close>: every body has the three fields
  in the store \<open>st'\<close> as it has them in \<open>st\<close>.
\<close>

definition masses_of :: "RigidBody \<Rightarrow> bool \<times> real \<times> real" where
  "masses_of b = (fixed b, inverseMass b, inverseAngularMass b)"

definition masses_kept :: "body_store \<Rightarrow> body_store \<Rightarrow> bool" where
  "masses_kept st st' \<longleftrightarrow> (\<forall>r. masses_of (st' r) = masses_of (st r))"

section \<open>Example inputs\<close>

text \<open>
  A fixed disc at \<open>(0, 10)\<close> and a disc of mass 2 at \<open>(0, 8)\<close> that moves with velocity
  \<open>(3, 4)\<close> towards it; one contact between them at \<open>(0, 9)\<close> with normal \<open>(0, -1)\<close>,
  tangent \<open>(1, 0)\<close> and depth \<open>1/2\<close>.
\<close>

definition example_floor :: RigidBody where
  "example_floor =
     RigidBody_new 0 (CircleShape (Circle (Vec2 0 0) 1)) (Vec2 0 10) 1 1 (1/2) (1/2) True"

definition example_ball :: RigidBody where
  "example_ball =
     (RigidBody_new 1 (CircleShape (Circle (Vec2 0 0) 1)) (Vec2 0 8) 2 1 (1/2) (1/2) False)
       \<lparr>linearVelocity := Vec2 3 4\<rparr>"

definition example_store :: body_store where
  "example_store = (\<lambda>r. example_floor)(1 := example_ball)"

definition example_contact :: Contact where
  "example_contact =
     Contact_new example_floor example_ball (Vec2 0 9) (Vec2 0 9) (Vec2 0 (- 1)) (Vec2 1 0)"

definition example_collision :: Collision where
  "example_collision =
     Collision_new example_store 0 1
       (CollisionManifold_new (Vec2 0 (- 1)) (Vec2 0 (- 1/2)) (1/2) [example_contact])"

text \<open>
  The ball after the position correction, with linear velocity \<open>v\<close> and angular velocity
  \<open>w\<close>; the store that holds it; the collision with given accumulated impulses.
\<close>

definition example_ball_moved :: "Vec2 \<Rightarrow> real \<Rightarrow> RigidBody" where
  "example_ball_moved v w =
     (RigidBody_translate example_ball (Vec2 0 (- 2/5)))
       \<lparr>linearVelocity := v, angularVelocity := w\<rparr>"

definition example_store_moved :: "Vec2 \<Rightarrow> real \<Rightarrow> body_store" where
  "example_store_moved v w =
     (\<lambda>r. example_floor)(0 := example_floor, 1 := example_ball_moved v w)"

definition example_collision_acc :: "real \<Rightarrow> real \<Rightarrow> Collision" where
  "example_collision_acc aN aT =
     example_collision\<lparr>manifold := (manifold example_collision)\<lparr>contacts :=
       [example_contact\<lparr>accumulatedNormalMagnitude := aN,
                         accumulatedTangentMagnitude := aT\<rparr>]\<rparr>\<rparr>"

text \<open>
  A quadtree over the world \<open>[0, 16] x [0, 16]\<close> that received four items: item 1 spans
  the centre and stays at the root, items 2 and 3 fit the fourth quadrant, item 4 fits a
  cell of the deepest level.
\<close>

definition example_world :: AABB where
  "example_world = AABB_fromDimensions 0 0 16 16"

definition example_tree1 :: "nat QuadTree" where
  "example_tree1 = snd (QuadTree_insert (QuadTree_new example_world) 1 (AABB (Vec2 1 1) (Vec2 15 15)))"

definition example_tree2 :: "nat QuadTree" where
  "example_tree2 = snd (QuadTree_insert example_tree1 2 (AABB (Vec2 9 9) (Vec2 15 15)))"

definition example_tree3 :: "nat QuadTree" where
  "example_tree3 = snd (QuadTree_insert example_tree2 3 (AABB (Vec2 10 10) (Vec2 14 14)))"

definition example_tree :: "nat QuadTree" where
  "example_tree = snd (QuadTree_insert example_tree3 4 (AABB (Vec2 1 1) (Vec2 2 2)))"

text \<open>
  A triangle and a point (a circle of radius 0) inside it, with the simplex of the three
  support points of their Minkowski difference.
\<close>

definition example_triangle :: Shape where
  "example_triangle = PolygonShape (Polygon [Vec2 0 0, Vec2 4 0, Vec2 0 3])"

definition example_point :: Shape where
  "example_point = CircleShape (Circle (Vec2 1 (1/2)) 0)"

definition example_simplex :: "MinkowskiDiff list" where
  "example_simplex =
     [\<lparr>supportA = Vec2 0 0, supportB = Vec2 1 (1/2), result = Vec2 (- 1) (- 1/2)\<rparr>,
      \<lparr>supportA = Vec2 4 0, supportB = Vec2 1 (1/2), result = Vec2 3 (- 1/2)\<rparr>,
      \<lparr>supportA = Vec2 0 3, supportB = Vec2 1 (1/2), result = Vec2 (- 1) (5/2)\<rparr>]"

text \<open>
  Three unit discs on a horizontal line in the world of 16 by 16, each overlapping the
  next, added to the engine in order; the state is that after an earlier step which has
  put the three into one island. \<open>example_checkCollision\<close> is a narrow phase for unit
  discs on a horizontal line, \<^verbatim>\<open>bodyB\<close> to the right of \<^verbatim>\<open>bodyA\<close>.
\<close>

definition example_disc :: "nat \<Rightarrow> real \<Rightarrow> RigidBody" where
  "example_disc k x =
     RigidBody_new k (CircleShape (Circle (Vec2 0 0) 1)) (Vec2 x 6) 1 1 (1/2) (1/2) False"

definition example_discs :: body_store where
  "example_discs = (\<lambda>r. (example_disc r (13/2 + 3/2 * real r))\<lparr>island := Some 0\<rparr>)"

definition example_quadtree :: "body_ref QuadTree" where
  "example_quadtree =
     snd (PhysicsEngine_addBody
       (PhysicsEngine_addBody
         (PhysicsEngine_addBody ([], QuadTree_new example_world) 0 (bounds (example_discs 0)))
         1 (bounds (example_discs 1)))
       2 (bounds (example_discs 2)))"

definition example_engine :: PhysicsWorld where
  "example_engine =
     \<lparr>this_config = PhysicsEngineConfigDefault, this_worldBounds = example_world,
      this_quadtree = example_quadtree, this_bodies = [0, 1, 2],
      this_collisions = [], this_islands = [0],
      bodyObjects = example_discs, islandObjects = (\<lambda>i. [])(0 := [0, 1, 2]),
      islandsCreated = 1, resolvedCollisionIds = [], confirmedPairs = []\<rparr>"

definition example_discCollision :: "body_store \<Rightarrow> body_ref \<Rightarrow> body_ref \<Rightarrow> Collision" where
  "example_discCollision st a b =
     (let pa = position (st a); pb = position (st b); d = 2 - (vec_x pb - vec_x pa)
      in Collision_new st a b
           (CollisionManifold_new (Vec2 1 0) (Vec2 d 0) d
              [Contact_new (st a) (st b) (Vec2_add pa (Vec2 1 0)) (Vec2_sub pb (Vec2 1 0))
                 (Vec2 1 0) (Vec2 0 1)]))"

definition example_checkCollision :: narrowPhase where
  "example_checkCollision st a b =
     (if Vec2_magnitudeSquared (Vec2_sub (position (st b)) (position (st a))) < 4
      then Some (Inr (Some (example_discCollision st a b)))
      else Some (Inr None))"

text \<open>
  Six unit discs on the same line. All six were added to the engine; then \<^verbatim>\<open>removeBody\<close>
  was called with a body that is not in the engine, which dropped the last disc, 5, from
  \<^verbatim>\<open>this.bodies\<close> and left it in the quadtree. In the step before, discs 1 and 5 were in
  one island (island 0), and disc 5 still points to it. \<open>example_stale_pass\<close> is the
  engine as the next collision pass leaves it.
\<close>

definition example_stale_discs :: body_store where
  "example_stale_discs r =
     (example_disc r (if r < 6 then [2, 7/2, 5, 10, 23/2, 11] ! r else 14))
       \<lparr>island := (if r = 1 \<or> r = 5 then Some 0 else None)\<rparr>"

definition example_stale_members :: "body_ref list \<times> body_ref QuadTree" where
  "example_stale_members =
     fold (\<lambda>r this. PhysicsEngine_addBody this r (bounds (example_stale_discs r)))
          [0, 1, 2, 3, 4, 5] ([], QuadTree_new example_world)"

definition example_stale :: PhysicsWorld where
  "example_stale =
     \<lparr>this_config = PhysicsEngineConfigDefault, this_worldBounds = example_world,
      this_quadtree = snd (the (PhysicsEngine_removeBody example_stale_members 7)),
      this_bodies = fst (the (PhysicsEngine_removeBody example_stale_members 7)),
      this_collisions = [], this_islands = [0],
      bodyObjects = example_stale_discs, islandObjects = (\<lambda>i. [])(0 := [1, 5]),
      islandsCreated = 1, resolvedCollisionIds = [], confirmedPairs = []\<rparr>"

definition example_stale_pass :: PhysicsWorld where
  "example_stale_pass =
     (case PhysicsEngine_checkCollisions example_checkCollision (step_clearIslands example_stale) of
        Some (Inr w') \<Rightarrow> w'
      | _ \<Rightarrow> example_stale)"

text \<open>
  \<open>steers_like st qt w\<close>: the engine \<open>w\<close> has the quadtree \<open>qt\<close>, and its bodies agree with
  those of \<open>st\<close> in every field that steers the collision pass, and are awake.
\<close>

definition steers_like :: "body_store \<Rightarrow> body_ref QuadTree \<Rightarrow> PhysicsWorld \<Rightarrow> bool" where
  "steers_like st qt w \<longleftrightarrow>
     this_quadtree w = qt
     \<and> (\<forall>r. body_id (bodyObjects w r) = body_id (st r)
            \<and> fixed (bodyObjects w r) = fixed (st r)
            \<and> sleeping (bodyObjects w r) = False
            \<and> position (bodyObjects w r) = position (st r)
            \<and> bounds (bodyObjects w r) = bounds (st r))"

text \<open>
  A yard in the world of 16 by 16: a fixed unit disc, 0, and below it a unit disc of mass
  2, 1, that moves with velocity \<open>(3, 4)\<close>; both are in the engine and in its quadtree.
  \<open>example_yard_engine\<close> is the engine of the default configuration whose clock
  stands at one time step, \<open>fl(1/500)\<close>, with no step taken yet.
\<close>

definition example_yard_store :: body_store where
  "example_yard_store =
     (\<lambda>r. RigidBody_new 0 (CircleShape (Circle (Vec2 0 0) 1)) (Vec2 4 10) 1 1 (1/2) (1/2) True)
       (1 := (RigidBody_new 1 (CircleShape (Circle (Vec2 0 0) 1)) (Vec2 4 4) 2 1 (1/2) (1/2) False)
               \<lparr>linearVelocity := Vec2 3 4\<rparr>)"

definition example_yard :: PhysicsWorld where
  "example_yard =
     \<lparr>this_config = PhysicsEngineConfigDefault, this_worldBounds = example_world,
      this_quadtree =
        snd (PhysicsEngine_addBody
               (PhysicsEngine_addBody ([], QuadTree_new example_world)
                  0 (bounds (example_yard_store 0)))
               1 (bounds (example_yard_store 1))),
      this_bodies = [0, 1],
      this_collisions = [], this_islands = [],
      bodyObjects = example_yard_store, islandObjects = (\<lambda>i. []),
      islandsCreated = 0, resolvedCollisionIds = [], confirmedPairs = []\<rparr>"

definition example_yard_engine :: "PhysicsWorld PhysicsEngine" where
  "example_yard_engine =
     \<lparr>fixedTimeStep = 1152921504606847 / 2 ^ 59, timeElapsed = 1152921504606847 / 2 ^ 59,
      stepsElapsed = 0, world = example_yard\<rparr>"

section \<open>Values of the binary64 rounding\<close>

lemma bitlen_unique:
  assumes "0 < k" "2 ^ (nat k - 1) \<le> n" "n < 2 ^ nat k"
  shows "bitlen n = k"
proof -
  have n: "0 < n"
    using assms(2) by (smt (verit) zero_less_power)
  have "2 ^ (nat k - 1) \<le> nat n"
    using assms(2) n by (simp add: le_nat_iff)
  then have lo: "nat k \<le> floorlog 2 (nat n)"
    by (rule floorlog_geI) simp
  have "nat n < 2 ^ nat k"
    using assms(3) n by (simp add: nat_less_iff)
  then have hi: "floorlog 2 (nat n) \<le> nat k"
    by (simp add: floorlog_le_iff)
  show ?thesis
    using lo hi assms(1) by (simp add: bitlen_def)
qed

lemma fl64_one: "fl64 1 = 1"
proof -
  have b: "bitlen 1 = 1" by (rule bitlen_unique) simp_all
  show ?thesis
    by (simp add: fl64_def exponent64_def round_half_even_def b Let_def)
qed

lemma fl64_tenth: "fl64 (1 / 10) = 3602879701896397 / 2 ^ 55"
proof -
  have b: "bitlen 9 = 4" by (rule bitlen_unique) simp_all
  have e: "exponent64 (1 / 10) = - 4"
    by (simp add: exponent64_def b)
  show ?thesis
    by (simp add: fl64_def e round_half_even_def Let_def)
qed

lemma fl64_500th: "fl64 (1 / 500) = 1152921504606847 / 2 ^ 59"
proof -
  have b: "bitlen 499 = 9" by (rule bitlen_unique) simp_all
  have e: "exponent64 (1 / 500) = - 9"
    by (simp add: exponent64_def b)
  show ?thesis
    by (simp add: fl64_def e round_half_even_def Let_def)
qed

lemma fl64_500: "fl64 (576460752303423488 / 1152921504606847) = 500"
proof -
  have b: "bitlen 499 = 9" by (rule bitlen_unique) simp_all
  have f: "\<lfloor>(576460752303423488::real) / 1152921504606847\<rfloor> = 499"
    by (simp add: floor_eq_iff)
  have e: "exponent64 (576460752303423488 / 1152921504606847) = 8"
    by (simp add: exponent64_def b f)
  have r: "round_half_even (10141204801825835211973625643008 / 1152921504606847)
           = 8796093022208000"
    by (simp add: round_half_even_def Let_def floor_eq_iff)
  show ?thesis
    unfolding fl64_def e Let_def by (simp add: r)
qed

lemma fl64_zero: "fl64 0 = 0"
  by (simp add: fl64_def)

section \<open>Properties of the driver\<close>

lemma PhysicsEngine_update_returns:
  assumes "PhysicsEngine_update step dt e = Some (Inr (n, e'))"
  shows "n = \<lfloor>fl64 (of_int \<lfloor>fl64 (timeElapsed e / fixedTimeStep e)\<rfloor> - of_int (stepsElapsed e))\<rfloor>
         \<and> run_steps step (fixedTimeStep e) 0 n (world e) = Some (Inr (world e'))
         \<and> timeElapsed e' = fl64 (timeElapsed e + dt)
         \<and> stepsElapsed e' = \<lfloor>fl64 (of_int (stepsElapsed e) + of_int n)\<rfloor>
         \<and> fixedTimeStep e' = fixedTimeStep e"
  using assms unfolding PhysicsEngine_update_def Let_def
  by (auto split: option.splits sum.splits)

lemma PhysicsEngine_update_no_step:
  assumes "\<lfloor>fl64 (of_int \<lfloor>fl64 (timeElapsed e / fixedTimeStep e)\<rfloor> - of_int (stepsElapsed e))\<rfloor> \<le> 0"
  shows "\<exists>n e'. PhysicsEngine_update step dt e = Some (Inr (n, e')) \<and> world e' = world e"
  using assms unfolding PhysicsEngine_update_def Let_def
  by (simp add: run_steps.simps [of step _ 0])

text \<open>
  C1 (the code at a failing input). A fresh engine with the default configuration
  (500 steps per second), whose world counts the calls of \<open>step\<close>, is asked to
  \<open>update(1)\<close>. The claim has the clock advanced to 1 first and the count taken from it:
  \<open>floor(1 / fixedTimeStep) - 0\<close>, which is 500 in binary64. The code takes the count
  from the clock as it stands, \<open>floor(0 / fixedTimeStep) - 0 = 0\<close>: it runs no step,
  returns 0, and only then advances \<open>timeElapsed\<close> to 1.
\<close>

theorem update_fresh_engine_runs_no_step:
  "PhysicsEngine_update (\<lambda>dt n. Some (Inr (Suc n))) 1
       (PhysicsEngine_new PhysicsEngineConfigDefault (0::nat))
     = Some (Inr (0, \<lparr>fixedTimeStep = 1152921504606847 / 2 ^ 59, timeElapsed = 1,
                      stepsElapsed = 0, world = 0\<rparr>))
   \<and> fixedTimeStep (PhysicsEngine_new PhysicsEngineConfigDefault (0::nat))
       = 1152921504606847 / 2 ^ 59
   \<and> \<lfloor>fl64 (of_int \<lfloor>fl64 (fl64 (timeElapsed (PhysicsEngine_new PhysicsEngineConfigDefault (0::nat)) + 1)
                           / fixedTimeStep (PhysicsEngine_new PhysicsEngineConfigDefault (0::nat)))\<rfloor>
             - of_int (stepsElapsed (PhysicsEngine_new PhysicsEngineConfigDefault (0::nat))))\<rfloor>
       = 500"
proof -
  have new: "PhysicsEngine_new PhysicsEngineConfigDefault (0::nat)
             = \<lparr>fixedTimeStep = 1152921504606847 / 2 ^ 59, timeElapsed = 0,
                stepsElapsed = 0, world = 0\<rparr>"
    by (simp add: PhysicsEngine_new_def PhysicsEngineConfigDefault_def fl64_500th)
  have b: "bitlen 500 = 9" by (rule bitlen_unique) simp_all
  have f500: "fl64 500 = 500"
    by (simp add: fl64_def exponent64_def round_half_even_def b Let_def)
  show ?thesis
    unfolding new
    by (simp add: PhysicsEngine_update_def Let_def fl64_zero fl64_one fl64_500 f500
        run_steps.simps [of _ _ 0])
qed

section \<open>Properties of the collision key\<close>

lemma round_double_exact: "n < 2 ^ 53 \<Longrightarrow> round_double n = n"
  by (simp add: round_double_def)

lemma collision_id_exact:
  assumes "idA * 10 ^ 10 + idB < 2 ^ 53"
  shows "collision_id idA idB = idA * 10 ^ 10 + idB"
proof -
  have "idA * 10 ^ 10 < (2::nat) ^ 53"
    using assms by linarith
  then show ?thesis
    using assms by (simp add: collision_id_def round_double_exact)
qed

lemma pair_key_unique:
  fixes a b a' b' m :: nat
  assumes "b < m" "b' < m" "a * m + b = a' * m + b'"
  shows "a = a' \<and> b = b'"
proof -
  have "(a * m + b) div m = a" "(a' * m + b') div m = a'"
    using assms(1,2) by simp_all
  then have "a = a'"
    using assms(3) by simp
  with assms(3) show ?thesis
    by simp
qed

text \<open>
  C9 (as the code has it). For pairs \<open>idA < idB < 10^10\<close> and \<open>idA' < idB' < 10^10\<close>
  whose exact keys \<open>idA * 10^10 + idB\<close> and \<open>idA' * 10^10 + idB'\<close> are below \<open>2^53\<close>
  (which holds whenever \<open>idA\<close> and \<open>idA'\<close> are at most 900718), the keys computed in
  binary64 are equal exactly when the pairs are equal.
\<close>

theorem collision_id_injective_below_2_53:
  assumes "idA < idB" "idB < 10 ^ 10" "idA' < idB'" "idB' < 10 ^ 10"
    and "idA * 10 ^ 10 + idB < 2 ^ 53" "idA' * 10 ^ 10 + idB' < 2 ^ 53"
  shows "collision_id idA idB = collision_id idA' idB' \<longleftrightarrow> idA = idA' \<and> idB = idB'"
proof
  assume "collision_id idA idB = collision_id idA' idB'"
  then have "idA * 10 ^ 10 + idB = idA' * 10 ^ 10 + idB'"
    using assms(5,6) by (simp add: collision_id_exact)
  then show "idA = idA' \<and> idB = idB'"
    using assms(2,4) pair_key_unique [of idB "10 ^ 10" idB' idA idA'] by simp
next
  assume "idA = idA' \<and> idB = idB'"
  then show "collision_id idA idB = collision_id idA' idB'"
    by simp
qed

theorem collision_id_injective_below_2_53_witness:
  "(3::nat) < 7 \<and> (7::nat) < 10 ^ 10 \<and> (7::nat) < 9 \<and> (9::nat) < 10 ^ 10
   \<and> (3::nat) * 10 ^ 10 + 7 < 2 ^ 53 \<and> (7::nat) * 10 ^ 10 + 9 < 2 ^ 53
   \<and> collision_id 3 7 \<noteq> collision_id 7 9
   \<and> collision_id 3 7 = 30000000007"
  using collision_id_injective_below_2_53 [of 3 7 7 9] collision_id_exact [of 3 7]
  by simp

text \<open>
  The claim as stated covers every pair below \<open>10^10\<close>. The bodies 1000000, 1000003 and
  1000004 give two admissible pairs with one key: \<open>10^16 + 1000003\<close> lies between the
  neighbouring binary64 values \<open>10^16 + 1000002\<close> and \<open>10^16 + 1000004\<close> and is rounded
  to the one with the even significand.
\<close>

lemma bit_length_16: "bit_length 10000000000000000 = 54"
  and bit_length_16_3: "bit_length 10000000001000003 = 54"
  and bit_length_16_4: "bit_length 10000000001000004 = 54"
  by (simp_all add: bit_length.simps)

lemma round_double_16: "round_double 10000000000000000 = 10000000000000000"
  by (simp add: round_double_def bit_length_16)

lemma round_double_16_3: "round_double 10000000001000003 = 10000000001000004"
  by (simp add: round_double_def bit_length_16_3)

lemma round_double_16_4: "round_double 10000000001000004 = 10000000001000004"
  by (simp add: round_double_def bit_length_16_4)

theorem collision_id_injective_counterexample:
  "(1000000::nat) < 1000003 \<and> (1000003::nat) < 10 ^ 10
   \<and> (1000000::nat) < 1000004 \<and> (1000004::nat) < 10 ^ 10
   \<and> collision_id 1000000 1000003 = collision_id 1000000 1000004
   \<and> (1000003::nat) \<noteq> 1000004"
  by (simp add: collision_id_def round_double_16 round_double_16_3 round_double_16_4)

section \<open>Properties of contacts and the solver\<close>

lemmas vec_defs = Vec2_add_def Vec2_sub_def Vec2_mulScalar_def Vec2_neg_def Vec2_dot_def
  Vec2_cross_def Vec2_perpendicular_def Vec2_zero_def

subsection \<open>The example, evaluated\<close>


lemma example_contact_value:
  "example_contact =
     \<lparr>worldPosA = Vec2 0 9, worldPosB = Vec2 0 9, localPosA = Vec2 0 (- 1), localPosB = Vec2 0 1,
      effectiveMassNormal = 2, effectiveMassTangent = 2/3, originalRestitutionBias = 1,
      accumulatedNormalMagnitude = 0, accumulatedTangentMagnitude = 0\<rparr>"
  by (simp add: example_contact_def Contact_new_def Contact_updateRestitutionBias_def fl64_tenth
      RigidBody_getVelocityAtPoint_def example_floor_def example_ball_def RigidBody_new_def
      vec_defs Let_def)





lemma collision_id_0_1: "collision_id 0 (Suc 0) = Suc 0"
  using collision_id_exact [of 0 1] by simp

lemma example_collision_value:
  "example_collision =
     \<lparr>collision_key = 1, bodyA = 0, bodyB = 1, collision_restitution = 1/4,
      collision_friction = 1/2,
      manifold = \<lparr>normal = Vec2 0 (- 1), tangent = Vec2 1 0, depth = 1/2,
                  mtv = Vec2 0 (- 1/2), contacts = [example_contact]\<rparr>\<rparr>"
  by (simp add: example_collision_def Collision_new_def CollisionManifold_new_def
      example_store_def example_floor_def example_ball_def RigidBody_new_def
      collision_id_0_1 vec_defs Let_def)


lemma example_floor_translate_0: "RigidBody_translate example_floor (Vec2 0 0) = example_floor"
  by (simp add: example_floor_def RigidBody_new_def RigidBody_translate_def Let_def vec_defs
      Circle_translate_def Circle_setCentre_def AABB_translate_def AABB_fromShape_def)

lemma example_prepare:
  "resolveCollisions_prepare [example_collision] example_store =
     ([example_collision],
      (\<lambda>r. example_floor)(0 := example_floor, 1 := example_ball_moved (Vec2 3 4) 0))"
  apply (simp add: example_collision_value Collision_solvePositionLinearOnly_def
      Collision_applyAccumulatedImpulses_def example_contact_value
      Contact_updateRestitutionBias_def fl64_tenth RigidBody_getVelocityAtPoint_def vec_defs Let_def
      example_store_def)
  apply (simp add: example_floor_def example_ball_def example_ball_moved_def RigidBody_new_def
      RigidBody_translate_def RigidBody_applyImpulse_def vec_defs Let_def
      Circle_translate_def Circle_setCentre_def AABB_translate_def AABB_fromShape_def)
  done


lemma example_ball_fields:
  "inverseMass example_ball = 1/2" "inverseAngularMass example_ball = 1"
  "linearVelocity example_ball = Vec2 3 4" "angularVelocity example_ball = 0"
  "restitution example_ball = 1/2" "position example_ball = Vec2 0 8"
  "rotation example_ball = 0"
  by (simp_all add: example_ball_def RigidBody_new_def Let_def)

lemma example_floor_material:
  "restitution example_floor = 1/2" "position example_floor = Vec2 0 10"
  "rotation example_floor = 0"
  by (simp_all add: example_floor_def RigidBody_new_def Let_def)

lemma example_floor_fixed:
  "inverseMass example_floor = 0" "inverseAngularMass example_floor = 0"
  "linearVelocity example_floor = Vec2 0 0" "angularVelocity example_floor = 0"
  by (simp_all add: example_floor_def RigidBody_new_def Let_def vec_defs)

lemma example_floor_applyImpulse: "RigidBody_applyImpulse example_floor j r = example_floor"
  by (simp add: RigidBody_applyImpulse_def example_floor_fixed vec_defs Let_def)

lemma example_ball_moved_fields:
  "inverseMass (example_ball_moved v w) = 1/2" "inverseAngularMass (example_ball_moved v w) = 1"
  "linearVelocity (example_ball_moved v w) = v" "angularVelocity (example_ball_moved v w) = w"
  by (simp_all add: example_ball_moved_def example_ball_def RigidBody_translate_def
      RigidBody_new_def Let_def)

lemma example_ball_moved_applyImpulse:
  "RigidBody_applyImpulse (example_ball_moved v w) j r =
     example_ball_moved (Vec2_add v (Vec2_mulScalar j (1/2))) (w + Vec2_cross r j)"
  by (simp add: RigidBody_applyImpulse_def example_ball_moved_def example_ball_def
      RigidBody_translate_def RigidBody_new_def Let_def)

lemmas example_solver_simps =
  Collision_solveVelocity_def example_collision_acc_def example_collision_value
  example_contact_value example_store_moved_def RigidBody_getVelocityAtPoint_def
  example_floor_fixed example_floor_applyImpulse example_ball_moved_fields
  example_ball_moved_applyImpulse vec_defs Let_def clamp_def

lemma example_solveVelocity_first:
  "Collision_solveVelocity (example_collision_acc 0 0) (example_store_moved (Vec2 3 4) 0) =
     (example_collision_acc 10 (- 2), example_store_moved (Vec2 2 (- 1)) 2)"
  by (simp add: example_solver_simps)

lemma example_solveVelocity_fixpoint:
  "Collision_solveVelocity (example_collision_acc 10 (- 2)) (example_store_moved (Vec2 2 (- 1)) 2) =
     (example_collision_acc 10 (- 2), example_store_moved (Vec2 2 (- 1)) 2)"
  by (simp add: example_solver_simps)

lemma example_collision_acc_0: "example_collision_acc 0 0 = example_collision"
  by (simp add: example_collision_acc_def example_collision_value example_contact_value)

lemma example_resolved:
  "PhysicsEngine_resolveCollisions PhysicsEngineConfigDefault [example_collision] example_store =
     ([example_collision_acc 10 (- 2)], example_store_moved (Vec2 2 (- 1)) 2)"
proof -
  have p: "resolveCollisions_prepare [example_collision] example_store =
     ([example_collision_acc 0 0], example_store_moved (Vec2 3 4) 0)"
    by (simp only: example_prepare example_collision_acc_0 example_store_moved_def)
  have a1: "solveVelocity_all [example_collision_acc 0 0] (example_store_moved (Vec2 3 4) 0) =
     ([example_collision_acc 10 (- 2)], example_store_moved (Vec2 2 (- 1)) 2)"
    by (simp add: example_solveVelocity_first)
  have a2: "solveVelocity_all [example_collision_acc 10 (- 2)] (example_store_moved (Vec2 2 (- 1)) 2) =
     ([example_collision_acc 10 (- 2)], example_store_moved (Vec2 2 (- 1)) 2)"
    by (simp add: example_solveVelocity_fixpoint)
  show ?thesis
    by (simp add: PhysicsEngine_resolveCollisions_def PhysicsEngineConfigDefault_def p
        velocityIterations_loop.simps a1 a2
        del: resolveCollisions_prepare.simps solveVelocity_all.simps)
qed


subsection \<open>Restitution bias\<close>













subsection \<open>Linear position correction\<close>

lemma RigidBody_translate_fields:
  "position (RigidBody_translate b d) = Vec2_add (position b) d"
  "collider (RigidBody_translate b d) = Shape_translate (collider b) d"
  "bounds (RigidBody_translate b d) = AABB_translate (bounds b) d"
  "rotation (RigidBody_translate b d) = rotation b"
  "inverseMass (RigidBody_translate b d) = inverseMass b"
  by (simp_all add: RigidBody_translate_def)

text \<open>A translated shape keeps its orientation: a capsule keeps its angle, and the
  vector between any two vertices of a polygon is the same as before.\<close>

lemma Capsule_translate_angle: "angle (Capsule_translate cap d) = angle cap"
  by (simp add: Capsule_translate_def)

lemma Polygon_translate_edges:
  assumes "i < length (points poly)" "j < length (points poly)"
  shows "Vec2_sub (points (Polygon_translate poly d) ! i) (points (Polygon_translate poly d) ! j)
         = Vec2_sub (points poly ! i) (points poly ! j)"
  using assms by (simp add: Polygon_translate_def Vec2_sub_def Vec2_add_def)

text \<open>
  C4. The per-collision linear position correction translates body A by
  \<open>-k * invMassA * c\<close> and body B by \<open>+k * invMassB * c\<close>, where
  \<open>k = 1 / (invMassA + invMassB)\<close> and \<open>c = normal * max(0, depth - 0.1)\<close>; position,
  collider and bounds of each body move by that vector, both rotation angles stay as
  they are, and no other body changes. The two bodies of a collision are different
  objects (pairs are formed with \<open>idA < idB\<close>), and the sum of the inverse masses is
  not zero (a pair of two fixed bodies is never tested), which is where the quotient of
  the real numbers is the program's quotient.
\<close>

theorem solvePositionLinearOnly_translates:
  assumes "bodyA c \<noteq> bodyB c"
    and "inverseMass (st (bodyA c)) + inverseMass (st (bodyB c)) \<noteq> 0"
  shows "(let k = 1 / (inverseMass (st (bodyA c)) + inverseMass (st (bodyB c)));
              cv = Vec2_mulScalar (normal (manifold c)) (max 0 (depth (manifold c) - 0.1));
              dA = Vec2_mulScalar cv (- (k * inverseMass (st (bodyA c))));
              dB = Vec2_mulScalar cv (k * inverseMass (st (bodyB c)));
              st' = Collision_solvePositionLinearOnly c st
          in st' (bodyA c) = RigidBody_translate (st (bodyA c)) dA
           \<and> st' (bodyB c) = RigidBody_translate (st (bodyB c)) dB
           \<and> position (st' (bodyA c)) = Vec2_add (position (st (bodyA c))) dA
           \<and> position (st' (bodyB c)) = Vec2_add (position (st (bodyB c))) dB
           \<and> collider (st' (bodyA c)) = Shape_translate (collider (st (bodyA c))) dA
           \<and> collider (st' (bodyB c)) = Shape_translate (collider (st (bodyB c))) dB
           \<and> rotation (st' (bodyA c)) = rotation (st (bodyA c))
           \<and> rotation (st' (bodyB c)) = rotation (st (bodyB c))
           \<and> (\<forall>r. r \<noteq> bodyA c \<and> r \<noteq> bodyB c \<longrightarrow> st' r = st r))"
  using assms
  by (simp add: Collision_solvePositionLinearOnly_def Let_def RigidBody_translate_fields)

theorem solvePositionLinearOnly_translates_witness:
  "bodyA example_collision \<noteq> bodyB example_collision
   \<and> inverseMass (example_store (bodyA example_collision))
       + inverseMass (example_store (bodyB example_collision)) = 1/2
   \<and> position (Collision_solvePositionLinearOnly example_collision example_store 0) = Vec2 0 10
   \<and> position (Collision_solvePositionLinearOnly example_collision example_store 1)
       = Vec2 0 (38/5)
   \<and> rotation (Collision_solvePositionLinearOnly example_collision example_store 0) = 0
   \<and> rotation (Collision_solvePositionLinearOnly example_collision example_store 1) = 0"
  using solvePositionLinearOnly_translates [of example_collision example_store]
  by (simp add: example_collision_value example_store_def example_floor_fixed
      example_ball_fields example_floor_material RigidBody_translate_fields Let_def vec_defs)

subsection \<open>The friction cone\<close>

lemma clamp_abs_le: "0 \<le> l \<Longrightarrow> \<bar>clamp v (- l) l\<bar> \<le> l"
  by (simp add: clamp_def min_def max_def abs_if)

lemma solveVelocity_normal_nonneg:
  "solveVelocity_normal c cs st = (cs', st') \<Longrightarrow>
   \<forall>ct \<in> set cs'. 0 \<le> accumulatedNormalMagnitude ct"
proof (induction cs arbitrary: st cs' st')
  case Nil
  then show ?case by simp
next
  case (Cons ct cs)
  then show ?case
    by (auto simp: Let_def split: prod.splits)
qed

lemma solveVelocity_tangent_cone:
  "solveVelocity_tangent c cs st = (cs', st') \<Longrightarrow> 0 \<le> collision_friction c \<Longrightarrow>
   \<forall>ct \<in> set cs. 0 \<le> accumulatedNormalMagnitude ct \<Longrightarrow>
   \<forall>ct \<in> set cs'. contact_in_cone (collision_friction c) ct"
proof (induction cs arbitrary: st cs' st')
  case Nil
  then show ?case by simp
next
  case (Cons ct cs)
  have l: "0 \<le> accumulatedNormalMagnitude ct * collision_friction c"
    using Cons.prems by simp
  show ?case
    using Cons clamp_abs_le [OF l]
    by (auto simp: Let_def contact_in_cone_def mult.commute split: prod.splits)
qed

lemma Collision_solveVelocity_cone:
  assumes "0 \<le> collision_friction c"
  shows "\<forall>ct \<in> set (contacts (manifold (fst (Collision_solveVelocity c st)))).
           contact_in_cone (collision_friction c) ct"
    and "collision_friction (fst (Collision_solveVelocity c st)) = collision_friction c"
proof -
  obtain cs1 st1 where n: "solveVelocity_normal c (contacts (manifold c)) st = (cs1, st1)"
    by (cases "solveVelocity_normal c (contacts (manifold c)) st")
  obtain cs2 st2 where t: "solveVelocity_tangent c cs1 st1 = (cs2, st2)"
    by (cases "solveVelocity_tangent c cs1 st1")
  have "\<forall>ct \<in> set cs2. contact_in_cone (collision_friction c) ct"
    using solveVelocity_tangent_cone [OF t assms] solveVelocity_normal_nonneg [OF n] by blast
  then show "\<forall>ct \<in> set (contacts (manifold (fst (Collision_solveVelocity c st)))).
           contact_in_cone (collision_friction c) ct"
    by (simp add: Collision_solveVelocity_def n t)
  show "collision_friction (fst (Collision_solveVelocity c st)) = collision_friction c"
    by (simp add: Collision_solveVelocity_def n t)
qed

lemma solveVelocity_all_cone:
  "frictions_nonneg cs \<Longrightarrow>
   collisions_in_cone (fst (solveVelocity_all cs st)) \<and>
   frictions_nonneg (fst (solveVelocity_all cs st))"
proof (induction cs arbitrary: st)
  case Nil
  then show ?case by (simp add: collisions_in_cone_def frictions_nonneg_def)
next
  case (Cons c cs)
  obtain c' st1 where s: "Collision_solveVelocity c st = (c', st1)"
    by (cases "Collision_solveVelocity c st")
  have f: "0 \<le> collision_friction c" and fs: "frictions_nonneg cs"
    using Cons.prems by (simp_all add: frictions_nonneg_def)
  have c': "\<forall>ct \<in> set (contacts (manifold c')). contact_in_cone (collision_friction c') ct"
    "0 \<le> collision_friction c'"
    using Collision_solveVelocity_cone [OF f, of st] f by (simp_all add: s)
  show ?case
    using Cons.IH [OF fs, of st1] c'
    by (simp add: s collisions_in_cone_def frictions_nonneg_def split: prod.splits)
qed

lemma velocityIterations_loop_cone:
  "frictions_nonneg cs \<Longrightarrow> real_of_int i < n \<or> collisions_in_cone cs \<Longrightarrow>
   collisions_in_cone (fst (velocityIterations_loop i n cs st))"
proof (induction i n cs st rule: velocityIterations_loop.induct)
  case (1 i n cs st)
  show ?case
  proof (cases "real_of_int i < n")
    case True
    obtain cs' st' where s: "solveVelocity_all cs st = (cs', st')"
      by (cases "solveVelocity_all cs st")
    have "collisions_in_cone cs' \<and> frictions_nonneg cs'"
      using solveVelocity_all_cone [OF "1.prems"(1), of st] by (simp add: s)
    then have "collisions_in_cone (fst (velocityIterations_loop (i + 1) n cs' st'))"
      using "1.IH" [OF True s [symmetric] refl] by simp
    then show ?thesis
      using True by (simp add: velocityIterations_loop.simps [of i n cs st] s)
  next
    case False
    then show ?thesis
      using "1.prems" by (simp add: velocityIterations_loop.simps [of i n cs st])
  qed
qed

lemma resolveCollisions_prepare_frictions:
  "resolveCollisions_prepare cs st = (cs', st') \<Longrightarrow>
   map collision_friction cs' = map collision_friction cs"
proof (induction cs arbitrary: st cs' st')
  case Nil
  then show ?case by simp
next
  case (Cons c cs)
  then show ?case
    by (auto simp: Let_def split: prod.splits)
qed

lemma updateRestitutionBias_accumulated:
  "accumulatedNormalMagnitude (Contact_updateRestitutionBias ct A B n) =
     accumulatedNormalMagnitude ct"
  "accumulatedTangentMagnitude (Contact_updateRestitutionBias ct A B n) =
     accumulatedTangentMagnitude ct"
  by (simp_all add: Contact_updateRestitutionBias_def Let_def)

lemma contact_in_cone_updateRestitutionBias:
  "contact_in_cone mu (Contact_updateRestitutionBias ct A B n) = contact_in_cone mu ct"
  by (simp add: contact_in_cone_def updateRestitutionBias_accumulated)

lemma resolveCollisions_prepare_cone:
  "resolveCollisions_prepare cs st = (cs', st') \<Longrightarrow>
   collisions_in_cone cs' = collisions_in_cone cs"
proof (induction cs arbitrary: st cs' st')
  case Nil
  then show ?case by simp
next
  case (Cons c cs)
  then show ?case
    by (auto simp: Let_def collisions_in_cone_def contact_in_cone_updateRestitutionBias
        split: prod.splits)
qed

lemma Collision_new_friction_nonneg:
  "0 \<le> friction (st a) \<Longrightarrow> 0 \<le> friction (st b) \<Longrightarrow>
   0 \<le> collision_friction (Collision_new st a b m)"
  by (simp add: Collision_new_def)

lemma Contact_new_in_cone: "contact_in_cone mu (Contact_new A B wA wB n t)"
  by (simp add: Contact_new_def Let_def contact_in_cone_def updateRestitutionBias_accumulated)

text \<open>
  C2. For every contact of every active collision, after the velocity solver iterations
  of a step complete: \<open>accumulatedNormalMagnitude \<ge> 0\<close>, and the absolute value of
  \<open>accumulatedTangentMagnitude\<close> is at most the collision's friction coefficient times
  that contact's \<open>accumulatedNormalMagnitude\<close>. The friction coefficient of a collision is
  the mean of two material frictions, which the data model keeps in \<open>[0, 1]\<close>, so it is
  not negative. Either an iteration runs (\<open>velocityIterations > 0\<close>), or none does and
  the contacts are as they were, inside the cone (a new contact starts with both
  impulses zero).
\<close>

theorem solver_keeps_friction_cone:
  assumes "\<forall>c \<in> set cs. 0 \<le> collision_friction c"
    and "0 < velocityIterations config \<or>
         (\<forall>c \<in> set cs. \<forall>ct \<in> set (contacts (manifold c)).
            0 \<le> accumulatedNormalMagnitude ct \<and>
            \<bar>accumulatedTangentMagnitude ct\<bar>
              \<le> collision_friction c * accumulatedNormalMagnitude ct)"
  shows "\<forall>c \<in> set (fst (PhysicsEngine_resolveCollisions config cs st)).
           \<forall>ct \<in> set (contacts (manifold c)).
             0 \<le> accumulatedNormalMagnitude ct \<and>
             \<bar>accumulatedTangentMagnitude ct\<bar>
               \<le> collision_friction c * accumulatedNormalMagnitude ct"
proof -
  obtain cs1 st1 where p: "resolveCollisions_prepare cs st = (cs1, st1)"
    by (cases "resolveCollisions_prepare cs st")
  have "map collision_friction cs1 = map collision_friction cs"
    using resolveCollisions_prepare_frictions [OF p] .
  then have "set (map collision_friction cs1) = set (map collision_friction cs)"
    by simp
  then have f1: "frictions_nonneg cs1"
    using assms(1) unfolding frictions_nonneg_def by (metis image_iff list.set_map)
  have "real_of_int 0 < velocityIterations config \<or> collisions_in_cone cs1"
    using assms(2) resolveCollisions_prepare_cone [OF p]
    by (auto simp: collisions_in_cone_def contact_in_cone_def)
  then have "collisions_in_cone (fst (velocityIterations_loop 0 (velocityIterations config) cs1 st1))"
    using velocityIterations_loop_cone [OF f1] by blast
  then show ?thesis
    by (simp add: PhysicsEngine_resolveCollisions_def p collisions_in_cone_def contact_in_cone_def)
qed


theorem solver_keeps_friction_cone_witness:
  "0 \<le> collision_friction example_collision
   \<and> 0 < velocityIterations PhysicsEngineConfigDefault
   \<and> fst (PhysicsEngine_resolveCollisions PhysicsEngineConfigDefault [example_collision]
             example_store) = [example_collision_acc 10 (- 2)]
   \<and> map accumulatedNormalMagnitude (contacts (manifold (example_collision_acc 10 (- 2)))) = [10]
   \<and> map accumulatedTangentMagnitude (contacts (manifold (example_collision_acc 10 (- 2)))) = [- 2]
   \<and> collision_friction (example_collision_acc 10 (- 2)) = 1/2
   \<and> (0::real) \<le> 10 \<and> \<bar>- 2 :: real\<bar> \<le> 1/2 * 10"
proof -
  have r: "fst (PhysicsEngine_resolveCollisions PhysicsEngineConfigDefault [example_collision]
             example_store) = [example_collision_acc 10 (- 2)]"
    by (simp only: example_resolved fst_conv)
  have f: "0 \<le> collision_friction example_collision"
    by (simp add: example_collision_value)
  have v: "0 < velocityIterations PhysicsEngineConfigDefault"
    by (simp add: PhysicsEngineConfigDefault_def)
  have "\<forall>c \<in> set (fst (PhysicsEngine_resolveCollisions PhysicsEngineConfigDefault
                        [example_collision] example_store)).
          \<forall>ct \<in> set (contacts (manifold c)).
            0 \<le> accumulatedNormalMagnitude ct \<and>
            \<bar>accumulatedTangentMagnitude ct\<bar>
              \<le> collision_friction c * accumulatedNormalMagnitude ct"
    by (rule solver_keeps_friction_cone) (use f v in simp_all)
  then have "0 \<le> (10::real) \<and> \<bar>- 2 :: real\<bar> \<le> 1/2 * 10"
    unfolding r by (simp add: example_collision_acc_def example_collision_value)
  then show ?thesis
    using r f v by (simp add: example_collision_acc_def example_collision_value)
qed

section \<open>Properties of the quadtree\<close>

lemma prune_items [simp]: "items (snd (QuadTreeNode_prune n)) = items n"
  by (cases n) (simp add: QuadTreeNode_prune.simps Let_def)

lemma prune_slot:
  assumes "fst (QuadTreeNode_prune c) = prunable c"
  shows "(case QuadTreeNode_prune c of (p, c') \<Rightarrow> (\<not> p, if p then None else Some c')) =
         (\<not> prunable c, if prunable c then None else Some (snd (QuadTreeNode_prune c)))"
  using assms by (cases "QuadTreeNode_prune c") simp

lemma prune_slots:
  assumes "\<And>c. Some c \<in> set cs \<Longrightarrow> fst (QuadTreeNode_prune c) = prunable c"
  shows "map (\<lambda>child. case child of
                  None \<Rightarrow> (False, None)
                | Some c \<Rightarrow>
                    (case QuadTreeNode_prune c of
                       (p, c') \<Rightarrow> (\<not> p, if p then None else Some c'))) cs =
         map (\<lambda>child. case child of
                  None \<Rightarrow> (False, None)
                | Some c \<Rightarrow> (\<not> prunable c,
                             if prunable c then None else Some (snd (QuadTreeNode_prune c)))) cs"
proof (rule map_cong [OF refl])
  fix child assume child: "child \<in> set cs"
  show "(case child of
                  None \<Rightarrow> (False, None)
                | Some c \<Rightarrow>
                    (case QuadTreeNode_prune c of
                       (p, c') \<Rightarrow> (\<not> p, if p then None else Some c'))) =
             (case child of
                  None \<Rightarrow> (False, None)
                | Some c \<Rightarrow> (\<not> prunable c,
                             if prunable c then None else Some (snd (QuadTreeNode_prune c))))"
  proof (cases child)
    case None
    then show ?thesis by simp
  next
    case (Some c)
    then show ?thesis using assms [of c] child prune_slot [of c] by simp
  qed
qed

lemma prune_fst: "fst (QuadTreeNode_prune n) = prunable n"
proof (induction n)
  case (QuadTreeNode its cs)
  have ih: "\<And>c. Some c \<in> set cs \<Longrightarrow> fst (QuadTreeNode_prune c) = prunable c"
    using QuadTreeNode.IH by auto
  show ?case
    by (simp add: QuadTreeNode_prune.simps Let_def prune_slots [OF ih] list_ex_iff)
       (auto split: option.splits)
qed

lemma prune_children:
  "children (snd (QuadTreeNode_prune (QuadTreeNode its cs))) =
     map (\<lambda>child. case child of
                    None \<Rightarrow> None
                  | Some c \<Rightarrow> if prunable c then None else Some (snd (QuadTreeNode_prune c))) cs"
  by (simp add: QuadTreeNode_prune.simps Let_def prune_slots [OF prune_fst] comp_def)
     (auto split: option.splits)

lemma prune_node:
  "snd (QuadTreeNode_prune (QuadTreeNode its cs)) =
     QuadTreeNode its
       (map (\<lambda>child. case child of
                    None \<Rightarrow> None
                  | Some c \<Rightarrow> if prunable c then None else Some (snd (QuadTreeNode_prune c))) cs)"
  using prune_children [of its cs] prune_items [of "QuadTreeNode its cs"]
  by (cases "snd (QuadTreeNode_prune (QuadTreeNode its cs))") simp

lemma prunable_node_at:
  "prunable n \<Longrightarrow> node_at n q = Some m \<Longrightarrow> prunable m"
proof (induction q arbitrary: n)
  case Nil
  then show ?case by simp
next
  case (Cons i q)
  obtain its cs where n: "n = QuadTreeNode its cs" by (cases n)
  from Cons.prems(2) obtain c where c: "i < length cs" "cs ! i = Some c" "node_at c q = Some m"
    by (auto simp: n split: if_splits option.splits)
  then have "Some c \<in> set cs"
    by (metis nth_mem)
  then have "prunable c"
    using Cons.prems(1) by (auto simp: n)
  then show ?case
    using Cons.IH c(3) by blast
qed

lemma prunable_items: "prunable m \<Longrightarrow> items m = []"
  by (cases m) simp

lemma node_at_prune:
  "node_at (snd (QuadTreeNode_prune n)) q =
     (case node_at n q of
        None \<Rightarrow> None
      | Some m \<Rightarrow> if q \<noteq> [] \<and> prunable m then None else Some (snd (QuadTreeNode_prune m)))"
proof (induction q arbitrary: n)
  case Nil
  then show ?case by simp
next
  case (Cons i q)
  obtain its cs where n: "n = QuadTreeNode its cs" by (cases n)
  show ?case
  proof (cases "i < length cs")
    case False
    then show ?thesis by (simp add: n prune_node)
  next
    case True
    show ?thesis
    proof (cases "cs ! i")
      case None
      then show ?thesis using True by (simp add: n prune_node)
    next
      case (Some c)
      show ?thesis
      proof (cases "prunable c")
        case True
        then have "\<And>m. node_at c q = Some m \<Longrightarrow> prunable m"
          using prunable_node_at by blast
        then show ?thesis
          using True Some \<open>i < length cs\<close> by (auto simp: n prune_node split: option.splits)
      next
        case False
        then have "q = [] \<Longrightarrow> node_at c q = Some c \<and> \<not> prunable c"
          by simp
        then show ?thesis
          using False Some \<open>i < length cs\<close> Cons.IH [of c]
          by (cases "q = []") (auto simp: n prune_node split: option.splits)
      qed
    qed
  qed
qed

lemma located_prune:
  "located (snd (QuadTreeNode_prune n)) p i y \<longleftrightarrow> located n p i y"
  by (auto simp: located_def node_at_prune prunable_items split: option.splits if_splits)


lemma node_at_append:
  "node_at r (p @ q) = (case node_at r p of None \<Rightarrow> None | Some m \<Rightarrow> node_at m q)"
proof (induction p arbitrary: r)
  case Nil
  then show ?case by simp
next
  case (Cons i p)
  then show ?case
    by (cases r) (auto split: option.splits)
qed

lemma node_at_replace_at:
  "node_at r p = Some n \<Longrightarrow> node_at (replace_at p new r) (p @ q) = node_at new q"
proof (induction p arbitrary: r)
  case Nil
  then show ?case by simp
next
  case (Cons i p)
  then show ?case
    by (cases r) (auto split: option.splits if_splits)
qed

lemma located_replace_at_other:
  "\<not> prefix p q \<Longrightarrow> located (replace_at p new r) q i y \<longleftrightarrow> located r q i y"
proof (induction p arbitrary: r q)
  case Nil
  then show ?case by simp
next
  case (Cons j p)
  obtain its cs where r: "r = QuadTreeNode its cs" by (cases r)
  show ?case
  proof (cases q)
    case Nil
    then show ?thesis by (simp add: located_def r)
  next
    case (Cons k q')
    show ?thesis
    proof (cases "k = j")
      case False
      then show ?thesis
        by (simp add: located_def r Cons)
    next
      case True
      then have np: "\<not> prefix p q'"
        using Cons.prems Cons by simp
      show ?thesis
      proof (cases "j < length cs")
        case False
        then show ?thesis by (simp add: located_def r Cons True)
      next
        case jl: True
        show ?thesis
        proof (cases "cs ! j")
          case None
          then show ?thesis using jl by (simp add: located_def r Cons True)
        next
          case (Some c)
          have "located (replace_at p new c) q' i y \<longleftrightarrow> located c q' i y"
            using Cons.IH [OF np] .
          then show ?thesis
            using jl Some by (simp add: located_def r Cons True)
        qed
      qed
    qed
  qed
qed


lemma swapRemove_length: "length (swapRemove its ix) = length its - 1"
  by (simp add: swapRemove_def)

lemma swapRemove_nth:
  assumes "i < length its - 1"
  shows "swapRemove its ix ! i = (if i = ix then last its else its ! i)"
  using assms by (simp add: swapRemove_def nth_butlast)

lemma located_root: "located n [] i y \<longleftrightarrow> i < length (items n) \<and> items n ! i = y"
  by (simp add: located_def)

lemma located_below:
  "located (QuadTreeNode its cs) (k # q) i y \<longleftrightarrow> located (QuadTreeNode its' cs) (k # q) i y"
  by (simp add: located_def)

lemma located_append:
  "node_at r p = Some n \<Longrightarrow> located r (p @ q) i y \<longleftrightarrow> located n q i y"
  by (simp add: located_def node_at_append)

lemma located_after_remove:
  assumes n: "node_at r px = Some n"
  shows "located (replace_at px (snd (QuadTreeNode_prune (QuadTreeNode its1 (children n)))) r) q i y
         \<longleftrightarrow> (if q = px then i < length its1 \<and> its1 ! i = y else located r q i y)"
proof (cases "prefix px q")
  case False
  then have "q \<noteq> px" by auto
  then show ?thesis
    using located_replace_at_other [OF False] by simp
next
  case True
  then obtain q' where q: "q = px @ q'"
    by (auto simp: prefix_def)
  let ?n1 = "QuadTreeNode its1 (children n)"
  have "located (replace_at px (snd (QuadTreeNode_prune ?n1)) r) q i y
        \<longleftrightarrow> located (snd (QuadTreeNode_prune ?n1)) q' i y"
    by (simp add: located_def q node_at_replace_at [OF n])
  also have "\<dots> \<longleftrightarrow> located ?n1 q' i y"
    by (rule located_prune)
  also have "\<dots> \<longleftrightarrow> (if q' = [] then i < length its1 \<and> its1 ! i = y else located n q' i y)"
  proof (cases q')
    case Nil
    then show ?thesis by (simp add: located_root)
  next
    case (Cons k q'')
    have "located ?n1 (k # q'') i y \<longleftrightarrow> located (QuadTreeNode (items n) (children n)) (k # q'') i y"
      by (rule located_below)
    then show ?thesis by (simp add: Cons)
  qed
  also have "\<dots> \<longleftrightarrow> (if q = px then i < length its1 \<and> its1 ! i = y else located r q i y)"
    by (simp add: q located_append [OF n])
  finally show ?thesis .
qed


lemma node_at_below:
  "q \<noteq> [] \<Longrightarrow> node_at (QuadTreeNode its cs) q = node_at (QuadTreeNode its' cs) q"
  by (cases q) simp_all

lemma QuadTree_remove_effect:
  assumes inv: "QuadTree_inv qt" and loc: "itemLocations qt x = Some (px, ix)"
  obtains qt' n where
    "QuadTree_remove qt x = Some (True, qt')"
    "node_at (root qt) px = Some n"
    "QuadTree_inv qt'"
    "itemLocations qt' x = None"
    "\<forall>p i. \<not> located (root qt') p i x"
    "\<forall>y. y \<noteq> x \<longrightarrow> (itemLocations qt' y = None \<longleftrightarrow> itemLocations qt y = None)"
    "ix < length (items n) - 1 \<longrightarrow> itemLocations qt' (last (items n)) = Some (px, ix)"
    "\<forall>y. y \<noteq> x \<and> y \<noteq> last (items n) \<longrightarrow> itemLocations qt' y = itemLocations qt y"
    "node_at (root qt') px =
       Some (snd (QuadTreeNode_prune (QuadTreeNode (swapRemove (items n) ix) (children n))))"
    "\<forall>q. q \<noteq> [] \<longrightarrow>
       (node_at (root qt') (px @ q) = None \<longleftrightarrow>
          (case node_at (root qt) (px @ q) of None \<Rightarrow> True | Some m \<Rightarrow> prunable m))"
    "root_bounds qt' = root_bounds qt"
    "root qt' = replace_at px (snd (QuadTreeNode_prune
                  (QuadTreeNode (swapRemove (items n) ix) (children n)))) (root qt)"
proof -
  have "located (root qt) px ix x"
    using inv loc by (simp add: QuadTree_inv_def)
  then obtain n where n: "node_at (root qt) px = Some n"
    and ix: "ix < length (items n)" and x: "items n ! ix = x"
    by (auto simp: located_def split: option.splits)
  define its where "its = items n"
  define its1 where "its1 = swapRemove its ix"
  define n2 where "n2 = snd (QuadTreeNode_prune (QuadTreeNode its1 (children n)))"
  define locs1 where "locs1 = (itemLocations qt)(x := None)"
  define locs2 where
    "locs2 = (if length its1 > ix then locs1(its1 ! ix \<mapsto> (px, ix)) else locs1)"
  define qt' where "qt' = qt\<lparr>root := replace_at px n2 (root qt), itemLocations := locs2\<rparr>"
  have rem: "QuadTree_remove qt x = Some (True, qt')"
    using loc n ix
    by (simp add: QuadTree_remove_def Let_def qt'_def locs2_def locs1_def n2_def its1_def its_def)
  have at: "\<And>i. i < length its \<Longrightarrow> itemLocations qt (its ! i) = Some (px, i)"
    using inv n by (simp add: QuadTree_inv_def located_def its_def)
  have inj: "\<And>i j. i < length its \<Longrightarrow> j < length its \<Longrightarrow> its ! i = its ! j \<Longrightarrow> i = j"
    using at by (metis Pair_inject option.inject)
  have len1: "length its1 = length its - 1"
    by (simp add: its1_def swapRemove_length)
  have nth1: "\<And>i. i < length its - 1 \<Longrightarrow> its1 ! i = (if i = ix then last its else its ! i)"
    by (simp add: its1_def swapRemove_nth)
  have ixl: "ix < length its" and xi: "its ! ix = x"
    using ix x by (simp_all add: its_def)
  have last: "last its = its ! (length its - 1)"
    using ixl by (cases "its = []") (simp_all add: last_conv_nth)
  have ne_last: "\<And>i. i < length its - 1 \<Longrightarrow> its ! i \<noteq> last its"
  proof
    fix i assume i: "i < length its - 1" and e: "its ! i = last its"
    have "i = length its - 1"
      by (rule inj) (use i e last in simp_all)
    then show False using i by simp
  qed
  have loc': "\<And>q i y. located (root qt') q i y \<longleftrightarrow>
                (if q = px then i < length its1 \<and> its1 ! i = y else located (root qt) q i y)"
    using located_after_remove [OF n] by (simp add: qt'_def n2_def)
  have old: "\<And>q i y. located (root qt) q i y \<longleftrightarrow> itemLocations qt y = Some (q, i)"
    using inv by (simp add: QuadTree_inv_def)
  have old_px: "\<And>i y. itemLocations qt y = Some (px, i) \<longleftrightarrow> i < length its \<and> its ! i = y"
    using old [of px] n by (simp add: located_def its_def)
  have new_px: "\<And>i y. i < length its1 \<and> its1 ! i = y \<longleftrightarrow>
                  (i < length its - 1 \<and> (if i = ix then y = last its else its ! i = y))"
    using nth1 len1 by auto
  have locs2: "\<And>y. locs2 y =
      (if ix < length its - 1 \<and> y = last its then Some (px, ix)
       else if y = x then None else itemLocations qt y)"
    using nth1 [of ix] by (simp add: locs2_def locs1_def len1)
  have il: "itemLocations qt' = locs2"
    by (simp add: qt'_def)
  have inv': "QuadTree_inv qt'"
    unfolding QuadTree_inv_def
  proof (intro allI)
    fix y q i
    show "itemLocations qt' y = Some (q, i) \<longleftrightarrow> located (root qt') q i y"
    proof (cases "q = px")
      case False
      have "itemLocations qt (last its) = Some (px, length its - 1)"
        using at [of "length its - 1"] ixl last by simp
      moreover have "itemLocations qt x = Some (px, ix)"
        by (rule loc)
      ultimately show ?thesis
        using False by (auto simp: loc' il locs2 old)
    next
      case True
      have "locs2 y = Some (px, i) \<longleftrightarrow>
              (i < length its - 1 \<and> (if i = ix then y = last its else its ! i = y))"
      proof (cases "ix < length its - 1 \<and> y = last its")
        case True
        then have l: "locs2 y = Some (px, ix)"
          by (simp add: locs2)
        show ?thesis
        proof (cases "i = ix")
          case True
          then show ?thesis using l \<open>ix < length its - 1 \<and> y = last its\<close> by simp
        next
          case False
          then show ?thesis
            using l ne_last [of i] \<open>ix < length its - 1 \<and> y = last its\<close> by auto
        qed
      next
        case False
        note nsw = this
        show ?thesis
        proof (cases "y = x")
          case True
          then have l: "locs2 y = None"
            using nsw by (cases "ix < length its - 1") (simp_all add: locs2)
          have "\<not> (i < length its - 1 \<and> (if i = ix then y = last its else its ! i = y))"
          proof (cases "i = ix")
            case True
            then show ?thesis using nsw by auto
          next
            case False
            have "\<not> (i < length its \<and> its ! i = x)"
              using inj [of i ix] ixl xi False by auto
            moreover have "i < length its - 1 \<Longrightarrow> i < length its"
              by simp
            ultimately show ?thesis using False True by auto
          qed
          then show ?thesis using l by simp
        next
          case False
          then have l: "locs2 y = itemLocations qt y"
            using nsw by (cases "ix < length its - 1") (simp_all add: locs2)
          have o: "itemLocations qt y = Some (px, i) \<longleftrightarrow> i < length its \<and> its ! i = y"
            by (rule old_px)
          show ?thesis
          proof (cases "i = ix")
            case True
            then show ?thesis using l o xi False nsw by auto
          next
            case ne: False
            show ?thesis
            proof (cases "i < length its - 1")
              case True
              then show ?thesis using l o ne by auto
            next
              case False
              have "\<not> (i < length its \<and> its ! i = y)"
              proof
                assume a: "i < length its \<and> its ! i = y"
                then have "i = length its - 1" using False by linarith
                then have "y = last its" using a last by simp
                moreover have "ix < length its - 1" using ne ixl \<open>i = length its - 1\<close> by simp
                ultimately show False using nsw by simp
              qed
              then show ?thesis using l o False by simp
            qed
          qed
        qed
      qed
      then show ?thesis
        using True by (simp add: loc' il new_px)
    qed
  qed
  have gone: "itemLocations qt' x = None"
    using ne_last [of ix] xi by (simp add: il locs2)
  have nowhere: "\<forall>p i. \<not> located (root qt') p i x"
    using inv' gone unfolding QuadTree_inv_def by (metis option.distinct(1))
  have at_last: "itemLocations qt (last its) = Some (px, length its - 1)"
    using at [of "length its - 1"] ixl last by simp
  have others: "\<forall>y. y \<noteq> x \<longrightarrow> (itemLocations qt' y = None \<longleftrightarrow> itemLocations qt y = None)"
    by (simp add: il locs2 at_last)
  have tail: "ix < length (items n) - 1 \<longrightarrow> itemLocations qt' (last (items n)) = Some (px, ix)"
    by (simp add: il locs2 its_def [symmetric])
  have same: "\<forall>y. y \<noteq> x \<and> y \<noteq> last (items n) \<longrightarrow> itemLocations qt' y = itemLocations qt y"
    by (simp add: il locs2 its_def [symmetric])
  have owner: "node_at (root qt') px =
                 Some (snd (QuadTreeNode_prune
                              (QuadTreeNode (swapRemove (items n) ix) (children n))))"
    using node_at_replace_at [OF n, of n2 "[]"]
    by (simp add: qt'_def n2_def its1_def its_def)
  have pruned: "\<forall>q. q \<noteq> [] \<longrightarrow>
                (node_at (root qt') (px @ q) = None \<longleftrightarrow>
                   (case node_at (root qt) (px @ q) of None \<Rightarrow> True | Some m \<Rightarrow> prunable m))"
  proof (intro allI impI)
    fix q :: "nat list" assume q: "q \<noteq> []"
    have "node_at (root qt') (px @ q) = node_at n2 q"
      using node_at_replace_at [OF n] by (simp add: qt'_def)
    moreover have "node_at (QuadTreeNode its1 (children n)) q = node_at n q"
      using node_at_below [OF q, of its1 "children n" "items n"] by simp
    moreover have "node_at (root qt) (px @ q) = node_at n q"
      by (simp add: node_at_append n)
    ultimately show "node_at (root qt') (px @ q) = None \<longleftrightarrow>
                   (case node_at (root qt) (px @ q) of None \<Rightarrow> True | Some m \<Rightarrow> prunable m)"
      using q by (simp add: n2_def node_at_prune split: option.splits)
  qed
  have rb: "root_bounds qt' = root_bounds qt"
    by (simp add: qt'_def)
  have rt: "root qt' = replace_at px (snd (QuadTreeNode_prune
                  (QuadTreeNode (swapRemove (items n) ix) (children n)))) (root qt)"
    by (simp add: qt'_def n2_def its1_def its_def)
  show thesis
    by (rule that [OF rem n inv' gone nowhere others tail same owner pruned rb rt])
qed

text \<open>
  C8. For a quadtree whose location map is exact, \<open>remove(x)\<close> of an item \<open>x\<close> in the map
  returns true and leaves the map exact: every remaining item \<open>y\<close> is mapped to a
  \<open>(node, index)\<close> with \<open>node.items[index] = y\<close>, and only to that. The tail item swapped
  into the slot of \<open>x\<close> is mapped to that slot; every other remaining item keeps its
  location. \<open>x\<close> is absent from the map and from the items of every node. The owning node
  stays in the tree, pruned: a subtree below it is removed iff it has no items and all
  its children are prunable.
\<close>

theorem QuadTree_remove_keeps_locations:
  assumes inv: "QuadTree_inv qt" and loc: "itemLocations qt x = Some (px, ix)"
  shows "\<exists>qt' n. QuadTree_remove qt x = Some (True, qt')
          \<and> node_at (root qt) px = Some n
          \<and> QuadTree_inv qt'
          \<and> itemLocations qt' x = None
          \<and> (\<forall>p i. \<not> located (root qt') p i x)
          \<and> (\<forall>y. y \<noteq> x \<longrightarrow> (itemLocations qt' y = None \<longleftrightarrow> itemLocations qt y = None))
          \<and> (ix < length (items n) - 1 \<longrightarrow>
                itemLocations qt' (last (items n)) = Some (px, ix))
          \<and> (\<forall>y. y \<noteq> x \<and> y \<noteq> last (items n) \<longrightarrow> itemLocations qt' y = itemLocations qt y)
          \<and> node_at (root qt') px =
                Some (snd (QuadTreeNode_prune
                             (QuadTreeNode (swapRemove (items n) ix) (children n))))
          \<and> (\<forall>q. q \<noteq> [] \<longrightarrow>
                (node_at (root qt') (px @ q) = None \<longleftrightarrow>
                   (case node_at (root qt) (px @ q) of None \<Rightarrow> True | Some m \<Rightarrow> prunable m)))"
proof -
  obtain qt' n where
    "QuadTree_remove qt x = Some (True, qt')"
    "node_at (root qt) px = Some n"
    "QuadTree_inv qt'"
    "itemLocations qt' x = None"
    "\<forall>p i. \<not> located (root qt') p i x"
    "\<forall>y. y \<noteq> x \<longrightarrow> (itemLocations qt' y = None \<longleftrightarrow> itemLocations qt y = None)"
    "ix < length (items n) - 1 \<longrightarrow> itemLocations qt' (last (items n)) = Some (px, ix)"
    "\<forall>y. y \<noteq> x \<and> y \<noteq> last (items n) \<longrightarrow> itemLocations qt' y = itemLocations qt y"
    "node_at (root qt') px =
       Some (snd (QuadTreeNode_prune (QuadTreeNode (swapRemove (items n) ix) (children n))))"
    "\<forall>q. q \<noteq> [] \<longrightarrow>
       (node_at (root qt') (px @ q) = None \<longleftrightarrow>
          (case node_at (root qt) (px @ q) of None \<Rightarrow> True | Some m \<Rightarrow> prunable m))"
    by (rule QuadTree_remove_effect [OF inv loc])
  then show ?thesis
    by (intro exI [of _ qt'] exI [of _ n] conjI)
qed


subsection \<open>Insertion and the class invariant\<close>

lemma four_slots_new: "four_slots QuadTreeNode_new"
  by (simp add: QuadTreeNode_new_def)

lemma located_new: "\<not> located QuadTreeNode_new q j y"
proof (cases q)
  case Nil
  then show ?thesis by (simp add: located_def QuadTreeNode_new_def)
next
  case (Cons k q')
  then show ?thesis
    by (cases "k < 4") (simp_all add: located_def QuadTreeNode_new_def)
qed

lemma firstFittingChild_range: "firstFittingChild b ib = Some i \<Longrightarrow> i < 4"
  unfolding firstFittingChild_def
  by (drule find_Some_iff [THEN iffD1]) auto

lemma QuadTreeNode_insert_located:
  "four_slots n \<Longrightarrow> QuadTreeNode_insert b d n item ib = (n', (p, i)) \<Longrightarrow>
   four_slots n' \<and>
   (\<forall>q j y. located n' q j y \<longleftrightarrow> located n q j y \<or> (q = p \<and> j = i \<and> y = item))"
proof (induction b d n item ib arbitrary: n' p i rule: QuadTreeNode_insert.induct)
  case (1 nodeBounds nodeDepth its cs item itemBounds)
  let ?sel = "if nodeDepth < MAX_DEPTH then firstFittingChild nodeBounds itemBounds else None"
  show ?case
  proof (cases ?sel)
    case None
    then have r: "n' = QuadTreeNode (its @ [item]) cs" "p = []" "i = length its"
      using "1.prems"(2) by (simp_all add: QuadTreeNode_insert.simps [of nodeBounds nodeDepth its cs])
    have "\<And>q j y. located n' q j y \<longleftrightarrow>
            located (QuadTreeNode its cs) q j y \<or> (q = [] \<and> j = length its \<and> y = item)"
    proof -
      fix q j y
      show "located n' q j y \<longleftrightarrow>
            located (QuadTreeNode its cs) q j y \<or> (q = [] \<and> j = length its \<and> y = item)"
      proof (cases q)
        case Nil
        then show ?thesis
          by (auto simp: r located_def nth_append)
      next
        case (Cons k q')
        then show ?thesis
          by (simp add: r located_def)
      qed
    qed
    then show ?thesis
      using "1.prems"(1) by (simp add: r)
  next
    case (Some k)
    then have dl: "nodeDepth < MAX_DEPTH" and ff: "firstFittingChild nodeBounds itemBounds = Some k"
      by (simp_all split: if_splits)
    have k: "k < 4" using firstFittingChild_range [OF ff] .
    have len: "length cs = 4" using "1.prems"(1) by simp
    define child where "child = (case cs ! k of None \<Rightarrow> QuadTreeNode_new | Some c \<Rightarrow> c)"
    obtain child' path index where rec:
      "QuadTreeNode_insert (childBounds nodeBounds ! k) (nodeDepth + 1) child item itemBounds
         = (child', (path, index))"
      by (metis prod.exhaust)
    have r: "n' = QuadTreeNode its (cs[k := Some child'])" "p = k # path" "i = index"
      using "1.prems"(2) Some rec
      by (simp_all add: QuadTreeNode_insert.simps [of nodeBounds nodeDepth its cs] child_def)
    have fc: "four_slots child"
    proof (cases "cs ! k")
      case None
      then show ?thesis by (simp add: child_def four_slots_new)
    next
      case (Some c)
      then have "Some c \<in> set cs" using k len by (metis nth_mem)
      then show ?thesis using "1.prems"(1) Some by (auto simp: child_def)
    qed
    have ih: "four_slots child' \<and>
      (\<forall>q j y. located child' q j y \<longleftrightarrow> located child q j y \<or> (q = path \<and> j = index \<and> y = item))"
      using "1.IH" [OF Some child_def fc rec] .
    have lc: "\<And>q j y. located (QuadTreeNode its cs) (k # q) j y \<longleftrightarrow> located child q j y"
      using k len by (cases "cs ! k") (simp_all add: located_def child_def located_new [unfolded located_def])
    have f': "four_slots n'"
      using "1.prems"(1) ih len k by (auto simp: r dest: set_update_subset_insert [THEN subsetD])
    have "\<And>q j y. located n' q j y \<longleftrightarrow>
            located (QuadTreeNode its cs) q j y \<or> (q = p \<and> j = i \<and> y = item)"
    proof -
      fix q j y
      show "located n' q j y \<longleftrightarrow>
            located (QuadTreeNode its cs) q j y \<or> (q = p \<and> j = i \<and> y = item)"
      proof (cases q)
        case Nil
        then show ?thesis by (simp add: r located_def)
      next
        case (Cons k' q')
        show ?thesis
        proof (cases "k' = k")
          case False
          then show ?thesis
            by (simp add: r Cons located_def)
        next
          case True
          have "located n' (k # q') j y \<longleftrightarrow> located child' q' j y"
            using k len by (simp add: r located_def)
          then show ?thesis
            using ih lc by (simp add: Cons True r)
        qed
      qed
    qed
    then show ?thesis using f' by simp
  qed
qed


lemma QuadTree_new_wf: "QuadTree_wf (QuadTree_new b)"
  by (simp add: QuadTree_wf_def QuadTree_inv_def QuadTree_new_def located_new four_slots_new)

lemma QuadTree_insert_wf:
  assumes "QuadTree_wf qt" and "itemLocations qt item = None"
  shows "QuadTree_wf (snd (QuadTree_insert qt item ib))"
proof (cases "AABB_contains (root_bounds qt) ib")
  case False
  then show ?thesis using assms(1) by (simp add: QuadTree_insert_def)
next
  case True
  obtain n' p i where ins: "QuadTreeNode_insert (root_bounds qt) 0 (root qt) item ib = (n', (p, i))"
    by (metis prod.exhaust)
  have f: "four_slots (root qt)" and inv: "QuadTree_inv qt"
    using assms(1) by (simp_all add: QuadTree_wf_def)
  note l = QuadTreeNode_insert_located [OF f ins]
  have fresh: "\<And>q j. \<not> located (root qt) q j item"
    using inv assms(2) unfolding QuadTree_inv_def by (metis option.distinct(1))
  have "QuadTree_inv (qt\<lparr>root := n', itemLocations := (itemLocations qt)(item \<mapsto> (p, i))\<rparr>)"
    unfolding QuadTree_inv_def
  proof (intro allI)
    fix y q j
    show "itemLocations (qt\<lparr>root := n', itemLocations := (itemLocations qt)(item \<mapsto> (p, i))\<rparr>) y
            = Some (q, j)
          \<longleftrightarrow> located (root (qt\<lparr>root := n', itemLocations := (itemLocations qt)(item \<mapsto> (p, i))\<rparr>)) q j y"
    proof (cases "y = item")
      case True
      then show ?thesis using l fresh by auto
    next
      case False
      then show ?thesis using l inv by (simp add: QuadTree_inv_def)
    qed
  qed
  then show ?thesis
    using True ins l by (simp add: QuadTree_insert_def QuadTree_wf_def)
qed


lemma four_slots_node_at: "four_slots r \<Longrightarrow> node_at r p = Some n \<Longrightarrow> four_slots n"
proof (induction p arbitrary: r)
  case Nil
  then show ?case by simp
next
  case (Cons k p)
  obtain its cs where r: "r = QuadTreeNode its cs" by (cases r)
  from Cons.prems(2) obtain c where c: "k < length cs" "cs ! k = Some c" "node_at c p = Some n"
    by (auto simp: r split: if_splits option.splits)
  then have "Some c \<in> set cs" by (metis nth_mem)
  then have "four_slots c" using Cons.prems(1) by (auto simp: r)
  then show ?case using Cons.IH c(3) by blast
qed

lemma four_slots_prune: "four_slots n \<Longrightarrow> four_slots (snd (QuadTreeNode_prune n))"
proof (induction n)
  case (QuadTreeNode its cs)
  have "\<And>c. Some c \<in> set cs \<Longrightarrow> four_slots (snd (QuadTreeNode_prune c))"
    using QuadTreeNode.IH QuadTreeNode.prems by fastforce
  then show ?case
    using QuadTreeNode.prems by (auto simp: prune_node split: option.splits)
qed

lemma four_slots_replace_at:
  "four_slots r \<Longrightarrow> four_slots new \<Longrightarrow> four_slots (replace_at p new r)"
proof (induction p arbitrary: r)
  case Nil
  then show ?case by simp
next
  case (Cons k p)
  obtain its cs where r: "r = QuadTreeNode its cs" by (cases r)
  show ?case
  proof (cases "k < length cs")
    case False
    then show ?thesis using Cons.prems by (simp add: r)
  next
    case True
    show ?thesis
    proof (cases "cs ! k")
      case None
      then show ?thesis using Cons.prems True by (simp add: r list_update_same_conv [THEN iffD2])
    next
      case (Some c)
      then have "Some c \<in> set cs" using True by (metis nth_mem)
      then have "four_slots c" using Cons.prems(1) by (auto simp: r)
      then have "four_slots (replace_at p new c)" using Cons.IH Cons.prems(2) by blast
      then show ?thesis
        using Cons.prems(1) True Some
        by (auto simp: r dest: set_update_subset_insert [THEN subsetD])
    qed
  qed
qed

lemma QuadTree_remove_wf:
  assumes "QuadTree_wf qt"
  shows "\<exists>r qt'. QuadTree_remove qt x = Some (r, qt') \<and> QuadTree_wf qt' \<and> itemLocations qt' x = None
           \<and> root_bounds qt' = root_bounds qt"
proof (cases "itemLocations qt x")
  case None
  then have "QuadTree_remove qt x = Some (False, qt)"
    by (simp add: QuadTree_remove_def)
  then show ?thesis using assms None by blast
next
  case (Some loc)
  obtain px ix where loc: "itemLocations qt x = Some (px, ix)"
    using Some by (cases loc) simp
  have inv: "QuadTree_inv qt" and f: "four_slots (root qt)"
    using assms by (simp_all add: QuadTree_wf_def)
  obtain qt' n where r: "QuadTree_remove qt x = Some (True, qt')"
    and n: "node_at (root qt) px = Some n"
    and inv': "QuadTree_inv qt'"
    and gone: "itemLocations qt' x = None"
    and "\<forall>p i. \<not> located (root qt') p i x"
    and "\<forall>y. y \<noteq> x \<longrightarrow> (itemLocations qt' y = None \<longleftrightarrow> itemLocations qt y = None)"
    and "ix < length (items n) - 1 \<longrightarrow> itemLocations qt' (last (items n)) = Some (px, ix)"
    and "\<forall>y. y \<noteq> x \<and> y \<noteq> last (items n) \<longrightarrow> itemLocations qt' y = itemLocations qt y"
    and "node_at (root qt') px =
       Some (snd (QuadTreeNode_prune (QuadTreeNode (swapRemove (items n) ix) (children n))))"
    and "\<forall>q. q \<noteq> [] \<longrightarrow>
       (node_at (root qt') (px @ q) = None \<longleftrightarrow>
          (case node_at (root qt) (px @ q) of None \<Rightarrow> True | Some m \<Rightarrow> prunable m))"
    and rb: "root_bounds qt' = root_bounds qt"
    and rt: "root qt' = replace_at px (snd (QuadTreeNode_prune
                  (QuadTreeNode (swapRemove (items n) ix) (children n)))) (root qt)"
    by (rule QuadTree_remove_effect [OF inv loc])
  have fn: "four_slots n" using four_slots_node_at [OF f n] .
  have "four_slots (QuadTreeNode (swapRemove (items n) ix) (children n))"
    using fn by (cases n) simp
  then have "four_slots (snd (QuadTreeNode_prune
               (QuadTreeNode (swapRemove (items n) ix) (children n))))"
    by (rule four_slots_prune)
  then have "four_slots (root qt')"
    unfolding rt using f four_slots_replace_at by blast
  then have "QuadTree_wf qt'" using inv' by (simp add: QuadTree_wf_def)
  then show ?thesis using r gone rb by blast
qed

lemma QuadTree_update_wf:
  assumes "QuadTree_wf qt"
  shows "\<exists>r qt'. QuadTree_update qt x b = Some (r, qt') \<and> QuadTree_wf qt'
           \<and> root_bounds qt' = root_bounds qt"
proof -
  have "\<exists>r qt'. QuadTree_remove qt x = Some (r, qt') \<and> QuadTree_wf qt' \<and> itemLocations qt' x = None
           \<and> root_bounds qt' = root_bounds qt"
    by (rule QuadTree_remove_wf [OF assms])
  then obtain r1 qt1 where r: "QuadTree_remove qt x = Some (r1, qt1)" and w: "QuadTree_wf qt1"
    and g: "itemLocations qt1 x = None" and rb: "root_bounds qt1 = root_bounds qt"
    by (elim exE conjE)
  have w2: "QuadTree_wf (snd (QuadTree_insert qt1 x b))"
    by (rule QuadTree_insert_wf [OF w g])
  have rb2: "root_bounds (snd (QuadTree_insert qt1 x b)) = root_bounds qt1"
    by (simp add: QuadTree_insert_def Let_def split: prod.splits)
  have u: "QuadTree_update qt x b =
             Some (fst (QuadTree_insert qt1 x b), snd (QuadTree_insert qt1 x b))"
    by (simp add: QuadTree_update_def r)
  show ?thesis
    by (intro exI conjI, rule u, rule w2) (simp add: rb2 rb)
qed


subsection \<open>The example tree, evaluated\<close>

lemma upt_4: "[0 ..< 4] = [0, 1, 2, 3]"
  by (simp add: upt_rec)

lemma replicate_4: "replicate 4 x = [x, x, x, x]"
  by (simp add: numeral_eq_Suc)

lemmas quadtree_eval =
  QuadTree_insert_def QuadTreeNode_insert.simps firstFittingChild_def childBounds_def
  AABB_contains_def AABB_fromDimensions_def QuadTree_new_def QuadTreeNode_new_def MAX_DEPTH_def
  example_world_def upt_4 replicate_4 Let_def

lemma example_tree1_value:
  "example_tree1 =
     \<lparr>root_bounds = AABB (Vec2 0 0) (Vec2 16 16),
      root = QuadTreeNode [1] [None, None, None, None],
      itemLocations = (\<lambda>item. None)(1 \<mapsto> ([], 0))\<rparr>"
  by (simp add: example_tree1_def quadtree_eval)

lemma example_tree2_value:
  "example_tree2 =
     \<lparr>root_bounds = AABB (Vec2 0 0) (Vec2 16 16),
      root = QuadTreeNode [1] [None, None, None, Some (QuadTreeNode [2] [None, None, None, None])],
      itemLocations = (\<lambda>item. None)(1 \<mapsto> ([], 0), 2 \<mapsto> ([3], 0))\<rparr>"
  by (simp add: example_tree2_def example_tree1_value quadtree_eval)


lemma example_tree3_value:
  "example_tree3 =
     \<lparr>root_bounds = AABB (Vec2 0 0) (Vec2 16 16),
      root = QuadTreeNode [1]
               [None, None, None, Some (QuadTreeNode [2, 3] [None, None, None, None])],
      itemLocations = (\<lambda>item. None)(1 \<mapsto> ([], 0), 2 \<mapsto> ([3], 0), 3 \<mapsto> ([3], 1))\<rparr>"
  by (simp add: example_tree3_def example_tree2_value quadtree_eval)

lemma example_tree_value:
  "example_tree =
     \<lparr>root_bounds = AABB (Vec2 0 0) (Vec2 16 16),
      root = QuadTreeNode [1]
               [Some (QuadTreeNode []
                  [Some (QuadTreeNode []
                     [Some (QuadTreeNode []
                        [None, None, None, Some (QuadTreeNode [4] [None, None, None, None])]),
                      None, None, None]),
                   None, None, None]),
                None, None, Some (QuadTreeNode [2, 3] [None, None, None, None])],
      itemLocations = (\<lambda>item. None)(1 \<mapsto> ([], 0), 2 \<mapsto> ([3], 0), 3 \<mapsto> ([3], 1),
                                          4 \<mapsto> ([0, 0, 0, 3], 0))\<rparr>"
  by (simp add: example_tree_def example_tree3_value quadtree_eval)


lemma example_tree_wf: "QuadTree_wf example_tree"
proof -
  have 1: "QuadTree_wf example_tree1"
    unfolding example_tree1_def
    by (rule QuadTree_insert_wf [OF QuadTree_new_wf]) (simp add: QuadTree_new_def)
  have 2: "QuadTree_wf example_tree2"
    unfolding example_tree2_def
    by (rule QuadTree_insert_wf [OF 1]) (simp add: example_tree1_value)
  have 3: "QuadTree_wf example_tree3"
    unfolding example_tree3_def
    by (rule QuadTree_insert_wf [OF 2]) (simp add: example_tree2_value)
  show ?thesis
    unfolding example_tree_def
    by (rule QuadTree_insert_wf [OF 3]) (simp add: example_tree3_value)
qed

lemmas remove_eval = QuadTree_remove_def swapRemove_def QuadTreeNode_prune.simps Let_def

lemma example_remove_2:
  "QuadTree_remove example_tree 2 =
     Some (True,
       \<lparr>root_bounds = AABB (Vec2 0 0) (Vec2 16 16),
        root = QuadTreeNode [1]
               [Some (QuadTreeNode []
                  [Some (QuadTreeNode []
                     [Some (QuadTreeNode []
                        [None, None, None, Some (QuadTreeNode [4] [None, None, None, None])]),
                      None, None, None]),
                   None, None, None]),
                None, None, Some (QuadTreeNode [3] [None, None, None, None])],
        itemLocations = (\<lambda>item. None)(1 \<mapsto> ([], 0), 2 := None, 3 \<mapsto> ([3], 0),
                                          4 \<mapsto> ([0, 0, 0, 3], 0))\<rparr>)"
  by (simp add: example_tree_value remove_eval fun_upd_twist)

theorem QuadTree_remove_keeps_locations_witness:
  "QuadTree_inv example_tree
   \<and> itemLocations example_tree 2 = Some ([3], 0)
   \<and> (\<exists>qt'. QuadTree_remove example_tree 2 = Some (True, qt')
          \<and> QuadTree_inv qt'
          \<and> itemLocations qt' 2 = None
          \<and> itemLocations qt' 3 = Some ([3], 0)
          \<and> itemLocations qt' 1 = Some ([], 0)
          \<and> node_at (root qt') [3] = Some (QuadTreeNode [3] [None, None, None, None]))"
proof -
  have inv: "QuadTree_inv example_tree"
    using example_tree_wf by (simp add: QuadTree_wf_def)
  have loc: "itemLocations example_tree 2 = Some ([3], 0)"
    by (simp add: example_tree_value)
  from QuadTree_remove_keeps_locations [OF inv loc]
  obtain qt' where r: "QuadTree_remove example_tree 2 = Some (True, qt')"
    and i: "QuadTree_inv qt'"
    by (elim exE conjE)
  have v: "itemLocations qt' 2 = None" "itemLocations qt' 3 = Some ([3], 0)"
    "itemLocations qt' 1 = Some ([], 0)"
    "node_at (root qt') [3] = Some (QuadTreeNode [3] [None, None, None, None])"
    using r by (auto simp: example_remove_2)
  show ?thesis
    using inv loc r i v by blast
qed

section \<open>Properties of \<^verbatim>\<open>removeBody\<close>\<close>

lemma indexOf_from_absent: "v \<notin> set xs \<Longrightarrow> indexOf_from xs v i = - 1"
  by (induction xs arbitrary: i) auto

lemma indexOf_from_present:
  "v \<in> set xs \<Longrightarrow> 0 \<le> i \<Longrightarrow>
   i \<le> indexOf_from xs v i \<and> indexOf_from xs v i < i + int (length xs)
   \<and> xs ! nat (indexOf_from xs v i - i) = v"
proof (induction xs arbitrary: i)
  case Nil
  then show ?case by simp
next
  case (Cons y ys)
  show ?case
  proof (cases "y = v")
    case True
    then show ?thesis by simp
  next
    case False
    then have "v \<in> set ys" using Cons.prems by simp
    from Cons.IH [OF this, of "i + 1"] Cons.prems(2)
    have ih: "i + 1 \<le> indexOf_from ys v (i + 1)"
      "indexOf_from ys v (i + 1) < i + 1 + int (length ys)"
      "ys ! nat (indexOf_from ys v (i + 1) - (i + 1)) = v"
      by simp_all
    have "nat (indexOf_from ys v (i + 1) - i) = Suc (nat (indexOf_from ys v (i + 1) - (i + 1)))"
      using ih(1) by simp
    then show ?thesis
      using False ih by simp
  qed
qed

lemma Array_indexOf_absent: "v \<notin> set xs \<Longrightarrow> Array_indexOf xs v = - 1"
  by (simp add: Array_indexOf_def indexOf_from_absent)

lemma Array_indexOf_present:
  assumes "v \<in> set xs"
  shows "0 \<le> Array_indexOf xs v" "nat (Array_indexOf xs v) < length xs"
    "xs ! nat (Array_indexOf xs v) = v"
  using indexOf_from_present [OF assms, of 0] by (auto simp: Array_indexOf_def)

lemma mset_swap_pop:
  assumes "i < length xs"
  shows "mset (butlast ((xs[i := last xs])[length xs - 1 := xs ! i])) = mset xs - {#xs ! i#}"
proof -
  let ?n = "length xs - 1"
  let ?ys = "(xs[i := last xs])[?n := xs ! i]"
  have ne: "xs \<noteq> []" using assms by auto
  have n: "?n < length xs" using assms by simp
  have l: "last xs = xs ! ?n" using ne by (simp add: last_conv_nth)
  have "?ys = xs[?n := xs ! i, i := xs ! ?n]"
    by (cases "i = ?n") (simp_all add: l list_update_swap)
  then have m: "mset ?ys = mset xs"
    using mset_swap [OF assms n] by simp
  have "?ys \<noteq> []" using ne by simp
  moreover have "last ?ys = xs ! i"
    using ne n by (simp add: last_conv_nth)
  ultimately have "mset (butlast ?ys) = mset ?ys - {#xs ! i#}"
    by (metis add_mset_remove_trivial append_butlast_last_id mset.simps(2) mset_append
        union_mset_add_mset_right add.right_neutral mset.simps(1))
  then show ?thesis using m by simp
qed

lemma mset_butlast: "xs \<noteq> [] \<Longrightarrow> mset (butlast xs) = mset xs - {#last xs#}"
  by (induction xs) auto


text \<open>
  C10. \<open>removeBody(b)\<close> on an engine whose broad-phase map is exact. When \<open>b\<close> is in the
  body list, one occurrence of \<open>b\<close> leaves the list and the other bodies stay (the last
  one moves into the gap). When \<open>b\<close> is not in the list, the list still loses its last
  entry: on a non-empty list the call is not a no-op. In both cases \<open>b\<close> is afterwards
  absent from the broad-phase, whose other items stay, and the broad-phase map is exact.
\<close>

theorem removeBody_effect:
  assumes "QuadTree_inv qt"
  shows "\<exists>bodies' qt'.
           PhysicsEngine_removeBody (bodies, qt) b = Some (bodies', qt')
           \<and> QuadTree_inv qt'
           \<and> itemLocations qt' b = None
           \<and> (\<forall>p i. \<not> located (root qt') p i b)
           \<and> (\<forall>y. y \<noteq> b \<longrightarrow> (itemLocations qt' y = None \<longleftrightarrow> itemLocations qt y = None))
           \<and> (b \<in> set bodies \<longrightarrow> mset bodies' = mset bodies - {#b#})
           \<and> (b \<notin> set bodies \<longrightarrow> bodies' = butlast bodies)
           \<and> (b \<notin> set bodies \<and> bodies \<noteq> [] \<longrightarrow>
                 length bodies' = length bodies - 1
                 \<and> mset bodies' = mset bodies - {#last bodies#}
                 \<and> bodies' \<noteq> bodies)"
proof -
  define index where "index = Array_indexOf bodies b"
  define popped where
    "popped = butlast (if 0 \<le> index
                       then (bodies[nat index := last bodies])[length bodies - 1 := bodies ! nat index]
                       else bodies)"
  have present: "b \<in> set bodies \<longrightarrow> mset popped = mset bodies - {#b#}"
  proof
    assume b: "b \<in> set bodies"
    note i = Array_indexOf_present [OF b]
    show "mset popped = mset bodies - {#b#}"
      using mset_swap_pop [OF i(2)] i(1,3) by (simp add: popped_def index_def)
  qed
  have absent: "b \<notin> set bodies \<longrightarrow> popped = butlast bodies"
    by (simp add: popped_def index_def Array_indexOf_absent)
  have absent2: "b \<notin> set bodies \<and> bodies \<noteq> [] \<longrightarrow>
                 length popped = length bodies - 1
                 \<and> mset popped = mset bodies - {#last bodies#}
                 \<and> popped \<noteq> bodies"
  proof
    assume a: "b \<notin> set bodies \<and> bodies \<noteq> []"
    then have p: "popped = butlast bodies" using absent by simp
    have "length (butlast bodies) \<noteq> length bodies" using a by (cases bodies) simp_all
    then have "butlast bodies \<noteq> bodies" by metis
    then show "length popped = length bodies - 1
                 \<and> mset popped = mset bodies - {#last bodies#}
                 \<and> popped \<noteq> bodies"
      using a by (simp add: p mset_butlast)
  qed
  show ?thesis
  proof (cases "itemLocations qt b")
    case None
    then have r: "PhysicsEngine_removeBody (bodies, qt) b = Some (popped, qt)"
      by (simp add: PhysicsEngine_removeBody_def QuadTree_remove_def Let_def popped_def index_def)
    have "\<forall>p i. \<not> located (root qt) p i b"
      using assms None unfolding QuadTree_inv_def by (metis option.distinct(1))
    then show ?thesis
      using r assms None present absent absent2 by (intro exI [of _ popped] exI [of _ qt]) simp
  next
    case (Some loc)
    obtain px ix where loc: "itemLocations qt b = Some (px, ix)"
      using Some by (cases loc) simp
    obtain qt' n where r: "QuadTree_remove qt b = Some (True, qt')"
      and "node_at (root qt) px = Some n"
      and inv': "QuadTree_inv qt'"
      and gone: "itemLocations qt' b = None"
      and nowhere: "\<forall>p i. \<not> located (root qt') p i b"
      and others: "\<forall>y. y \<noteq> b \<longrightarrow> (itemLocations qt' y = None \<longleftrightarrow> itemLocations qt y = None)"
      by (rule QuadTree_remove_effect [OF assms loc])
    have "PhysicsEngine_removeBody (bodies, qt) b = Some (popped, qt')"
      by (simp add: PhysicsEngine_removeBody_def r Let_def popped_def index_def)
    then show ?thesis
      using inv' gone nowhere others present absent absent2
      by (intro exI [of _ popped] exI [of _ qt']) simp
  qed
qed


lemma example_removeBody_present:
  "PhysicsEngine_removeBody ([1, 2, 3, 4], example_tree) 2 =
     Some ([1, 4, 3], snd (the (QuadTree_remove example_tree 2)))"
  by (simp add: PhysicsEngine_removeBody_def Array_indexOf_def example_remove_2 Let_def)

lemma example_removeBody_absent:
  "PhysicsEngine_removeBody ([1, 2, 3, 4], example_tree) 7 = Some ([1, 2, 3], example_tree)"
  by (simp add: PhysicsEngine_removeBody_def Array_indexOf_def QuadTree_remove_def
      example_tree_value Let_def)

theorem removeBody_effect_witness:
  "QuadTree_inv example_tree
   \<and> (2::nat) \<in> set [1, 2, 3, 4]
   \<and> (\<exists>qt'. PhysicsEngine_removeBody ([1, 2, 3, 4], example_tree) 2 = Some ([1, 4, 3], qt')
          \<and> itemLocations qt' 2 = None \<and> itemLocations qt' 4 = Some ([0, 0, 0, 3], 0))
   \<and> mset [1, 4, 3] = mset [1, 2, 3, 4] - {#2::nat#}
   \<and> (7::nat) \<notin> set [1, 2, 3, 4]
   \<and> PhysicsEngine_removeBody ([1, 2, 3, 4], example_tree) 7 = Some ([1, 2, 3], example_tree)
   \<and> [1, 2, 3] = butlast [1, 2, 3, 4::nat]
   \<and> itemLocations example_tree 4 = Some ([0, 0, 0, 3], 0)"
proof -
  have inv: "QuadTree_inv example_tree"
    using example_tree_wf by (simp add: QuadTree_wf_def)
  from removeBody_effect [OF inv, of "[1, 2, 3, 4]" 2]
  obtain bodies' qt' where
    r: "PhysicsEngine_removeBody ([1, 2, 3, 4], example_tree) 2 = Some (bodies', qt')"
    and g: "itemLocations qt' 2 = None"
    and m: "2 \<in> set [1, 2, 3, 4::nat] \<longrightarrow> mset bodies' = mset [1, 2, 3, 4] - {#2#}"
    by (elim exE conjE)
  have b: "bodies' = [1, 4, 3]" and q: "qt' = snd (the (QuadTree_remove example_tree 2))"
    using r unfolding example_removeBody_present by simp_all
  have l4: "itemLocations qt' 4 = Some ([0, 0, 0, 3], 0)"
    by (simp add: q example_remove_2)
  from removeBody_effect [OF inv, of "[1, 2, 3, 4]" 7]
  obtain bodies2 qt2 where
    r2: "PhysicsEngine_removeBody ([1, 2, 3, 4], example_tree) 7 = Some (bodies2, qt2)"
    and a2: "7 \<notin> set [1, 2, 3, 4::nat] \<longrightarrow> bodies2 = butlast [1, 2, 3, 4]"
    by (elim exE conjE)
  have m': "mset [1, 4, 3] = mset [1, 2, 3, 4] - {#2::nat#}"
    using m b by simp
  have e: "[1, 2, 3] = butlast [1, 2, 3, 4::nat]"
    using a2 r2 unfolding example_removeBody_absent by simp
  show ?thesis
    using inv r g l4 m' e unfolding b example_removeBody_absent
    by (simp add: example_tree_value)
qed

section \<open>The expanding polytope algorithm\<close>

lemma EPA_loop_step:
  "EPA_loop A B i s =
     (if i < 100 then
        if EPA_tolerance_met A B s then Inr (EPA_answer A B s)
        else EPA_loop A B (i + 1) (EPA_expand A B s)
      else Inl EpaFailedToConverge)"
  by (subst EPA_loop.simps)
     (simp add: EPA_tolerance_met_def EPA_answer_def EPA_expand_def Let_def split: prod.splits)

lemma EPA_polytope_Suc:
  "EPA_polytope A B (Suc k) s = EPA_polytope A B k (EPA_expand A B s)"
  by (simp add: EPA_polytope_def funpow_swap1)

lemma EPA_loop_cases:
  "(\<exists>k. i + k < 100 \<and> EPA_tolerance_met A B (EPA_polytope A B k s)
         \<and> (\<forall>j < k. \<not> EPA_tolerance_met A B (EPA_polytope A B j s))
         \<and> EPA_loop A B i s = Inr (EPA_answer A B (EPA_polytope A B k s)))
   \<or> ((\<forall>k. i + k < 100 \<longrightarrow> \<not> EPA_tolerance_met A B (EPA_polytope A B k s))
       \<and> EPA_loop A B i s = Inl EpaFailedToConverge)"
proof (induction "100 - i" arbitrary: i s)
  case 0
  then have "\<not> i < 100" by simp
  then show ?case by (simp add: EPA_loop_step [of A B i s])
next
  case (Suc m)
  then have i: "i < 100" and m: "m = 100 - (i + 1)" by simp_all
  show ?case
  proof (cases "EPA_tolerance_met A B s")
    case True
    have "i + 0 < 100 \<and> EPA_tolerance_met A B (EPA_polytope A B 0 s)
         \<and> (\<forall>j < 0. \<not> EPA_tolerance_met A B (EPA_polytope A B j s))
         \<and> EPA_loop A B i s = Inr (EPA_answer A B (EPA_polytope A B 0 s))"
      using True i by (simp add: EPA_polytope_def EPA_loop_step [of A B i s])
    then show ?thesis by blast
  next
    case False
    have step: "EPA_loop A B i s = EPA_loop A B (i + 1) (EPA_expand A B s)"
      using False i by (simp add: EPA_loop_step [of A B i s])
    from Suc.hyps(1) [OF m, of "EPA_expand A B s"]
    show ?thesis
    proof
      assume "\<exists>k. i + 1 + k < 100 \<and> EPA_tolerance_met A B (EPA_polytope A B k (EPA_expand A B s))
         \<and> (\<forall>j < k. \<not> EPA_tolerance_met A B (EPA_polytope A B j (EPA_expand A B s)))
         \<and> EPA_loop A B (i + 1) (EPA_expand A B s)
             = Inr (EPA_answer A B (EPA_polytope A B k (EPA_expand A B s)))"
      then obtain k where k: "i + 1 + k < 100"
        "EPA_tolerance_met A B (EPA_polytope A B k (EPA_expand A B s))"
        "\<forall>j < k. \<not> EPA_tolerance_met A B (EPA_polytope A B j (EPA_expand A B s))"
        "EPA_loop A B (i + 1) (EPA_expand A B s)
             = Inr (EPA_answer A B (EPA_polytope A B k (EPA_expand A B s)))"
        by blast
      have "\<forall>j < Suc k. \<not> EPA_tolerance_met A B (EPA_polytope A B j s)"
      proof (intro allI impI)
        fix j assume "j < Suc k"
        then show "\<not> EPA_tolerance_met A B (EPA_polytope A B j s)"
          using False k(3) by (cases j) (simp_all add: EPA_polytope_Suc, simp add: EPA_polytope_def)
      qed
      then have "i + Suc k < 100 \<and> EPA_tolerance_met A B (EPA_polytope A B (Suc k) s)
         \<and> (\<forall>j < Suc k. \<not> EPA_tolerance_met A B (EPA_polytope A B j s))
         \<and> EPA_loop A B i s = Inr (EPA_answer A B (EPA_polytope A B (Suc k) s))"
        using k step by (simp add: EPA_polytope_Suc)
      then show ?thesis by blast
    next
      assume a: "(\<forall>k. i + 1 + k < 100 \<longrightarrow>
                   \<not> EPA_tolerance_met A B (EPA_polytope A B k (EPA_expand A B s)))
       \<and> EPA_loop A B (i + 1) (EPA_expand A B s) = Inl EpaFailedToConverge"
      have "\<forall>k. i + k < 100 \<longrightarrow> \<not> EPA_tolerance_met A B (EPA_polytope A B k s)"
      proof (intro allI impI)
        fix k assume "i + k < 100"
        then show "\<not> EPA_tolerance_met A B (EPA_polytope A B k s)"
        proof (cases k)
          case 0
          then show ?thesis using False by (simp add: EPA_polytope_def)
        next
          case (Suc k')
          then have "i + 1 + k' < 100" using \<open>i + k < 100\<close> by simp
          then show ?thesis using a by (simp add: Suc EPA_polytope_Suc)
        qed
      qed
      then show ?thesis using a step by simp
    qed
  qed
qed

lemma EPA_closestEdge_fold:
  "EPA_closestEdge simplex =
     fold (EPA_searchStep simplex) [0 ..< length simplex] (0, 0, Vec2_zero, MAX_VALUE)"
  unfolding EPA_closestEdge_def
  by (rule arg_cong [of _ _ "\<lambda>f. fold f _ _"])
     (auto simp: EPA_searchStep_def Let_def fun_eq_iff)

lemma EPA_search_prefix:
  "case fold (EPA_searchStep s) [0 ..< k] (0, 0, Vec2_zero, MAX_VALUE) of
     (ia, ib, n, dmin) \<Rightarrow>
       dmin \<le> MAX_VALUE
       \<and> (\<forall>i < k. dmin \<le> EPA_edgeDistance s i)
       \<and> (if \<exists>i < k. EPA_edgeDistance s i < MAX_VALUE
          then ia < k \<and> ib = (ia + 1) mod length s \<and> n = EPA_edgeNormal s ia
               \<and> dmin = EPA_edgeDistance s ia \<and> (\<forall>i < ia. dmin < EPA_edgeDistance s i)
          else ia = 0 \<and> ib = 0 \<and> n = Vec2_zero \<and> dmin = MAX_VALUE)"
proof (induction k)
  case 0
  then show ?case by simp
next
  case (Suc k)
  obtain ia ib n dmin where acc:
    "fold (EPA_searchStep s) [0 ..< k] (0, 0, Vec2_zero, MAX_VALUE) = (ia, ib, n, dmin)"
    by (metis prod.exhaust)
  note ih = Suc.IH [unfolded acc, simplified]
  have le: "dmin \<le> MAX_VALUE" and all: "\<forall>i < k. dmin \<le> EPA_edgeDistance s i"
    using ih by simp_all
  show ?case
  proof (cases "EPA_edgeDistance s k < dmin")
    case True
    have f: "fold (EPA_searchStep s) [0 ..< Suc k] (0, 0, Vec2_zero, MAX_VALUE)
             = (k, (k + 1) mod length s, EPA_edgeNormal s k, EPA_edgeDistance s k)"
      using True by (simp add: acc EPA_searchStep_def)
    have ex: "\<exists>i < Suc k. EPA_edgeDistance s i < MAX_VALUE"
      using True le by (intro exI [of _ k]) simp
    have "\<forall>i < Suc k. EPA_edgeDistance s k \<le> EPA_edgeDistance s i"
      using True all by (auto simp: less_Suc_eq)
    moreover have "\<forall>i < k. EPA_edgeDistance s k < EPA_edgeDistance s i"
      using True all by fastforce
    ultimately show ?thesis
      using True le ex unfolding f by simp
  next
    case False
    have f: "fold (EPA_searchStep s) [0 ..< Suc k] (0, 0, Vec2_zero, MAX_VALUE) = (ia, ib, n, dmin)"
      using False by (simp add: acc EPA_searchStep_def)
    have all': "\<forall>i < Suc k. dmin \<le> EPA_edgeDistance s i"
      using False all by (auto simp: less_Suc_eq)
    show ?thesis
    proof (cases "\<exists>i < k. EPA_edgeDistance s i < MAX_VALUE")
      case True
      then have "\<exists>i < Suc k. EPA_edgeDistance s i < MAX_VALUE"
        using less_Suc_eq by blast
      moreover have "ia < k \<and> ib = (ia + 1) mod length s \<and> n = EPA_edgeNormal s ia
               \<and> dmin = EPA_edgeDistance s ia \<and> (\<forall>i < ia. dmin < EPA_edgeDistance s i)"
        using Suc.IH True unfolding acc by (auto simp del: One_nat_def)
      ultimately show ?thesis
        using le all' unfolding f by auto
    next
      case nex: False
      then have init: "ia = 0 \<and> ib = 0 \<and> n = Vec2_zero \<and> dmin = MAX_VALUE"
        using ih by simp
      then have "\<not> EPA_edgeDistance s k < MAX_VALUE"
        using False by simp
      then have "\<not> (\<exists>i < Suc k. EPA_edgeDistance s i < MAX_VALUE)"
        using nex less_Suc_eq by auto
      then show ?thesis
        using le all' init unfolding f by auto
    qed
  qed
qed

lemma EPA_closestEdge_minimum:
  "case EPA_closestEdge s of
     (ia, ib, n, dmin) \<Rightarrow>
       (\<forall>i < length s. dmin \<le> EPA_edgeDistance s i)
       \<and> ((\<exists>i < length s. EPA_edgeDistance s i < MAX_VALUE) \<longrightarrow>
            ia < length s \<and> ib = (ia + 1) mod length s \<and> n = EPA_edgeNormal s ia
            \<and> dmin = EPA_edgeDistance s ia \<and> (\<forall>i < ia. dmin < EPA_edgeDistance s i))"
  using EPA_search_prefix [where s = s and k = "length s"]
  by (auto simp: EPA_closestEdge_fold split: prod.splits if_splits)

lemma EPA_answer_fields:
  "case EPA_closestEdge P of
     (ia, ib, n, dmin) \<Rightarrow>
       epa_depth (EPA_answer A B P) = Vec2_dot n (result (MinkowskiDiff_new A B n))
       \<and> epa_normal (EPA_answer A B P) = n
       \<and> epa_tangent (EPA_answer A B P) = Vec2_perpendicular n
       \<and> epa_mtv (EPA_answer A B P) = Vec2_mulScalar n (epa_depth (EPA_answer A B P))
       \<and> worldContactB (EPA_answer A B P)
           = Vec2_sub (worldContactA (EPA_answer A B P)) (epa_mtv (EPA_answer A B P))"
  by (simp add: EPA_answer_def EPA_result_def EpaResult_new_def Let_def split: prod.splits)

subsection \<open>Claim C7\<close>

text \<open>
  Claim C7. \<^verbatim>\<open>EPA\<close> has exactly two outcomes. Either there is \<open>k < 100\<close> such that the
  tolerance test fails on the polytopes after \<open>0, \<dots>, k - 1\<close> expansions and the call
  returns, in iteration \<open>k + 1\<close>, a result \<open>r\<close> whose depth \<open>d\<close> is the projection of the
  new support point on the normal \<open>n\<close> found by the search for the closest edge of the
  polytope after \<open>k\<close> expansions, with \<open>\<bar>d - minDistance\<bar> < 1/1000\<close>, normal \<open>n\<close> and
  \<open>mtv = n \<cdot> d\<close>; here \<open>minDistance\<close> is a lower bound of the distances of all edges of
  that polytope and, as soon as one edge has a distance below \<^verbatim>\<open>Number.MAX_VALUE\<close>,
  \<open>minDistance\<close> and \<open>n\<close> are the distance and the normal of an edge of the polytope.
  Or the tolerance test fails on each of the polytopes after \<open>0, \<dots>, 99\<close> expansions,
  and the call raises \<^verbatim>\<open>"EPA failed to converge"\<close> and returns no result.
\<close>

theorem EPA_returns_within_tolerance_or_raises:
  "(\<exists>k < 100. \<exists>r. EPA A B s = Inr r
       \<and> (\<forall>j < k. \<not> EPA_tolerance_met A B (EPA_polytope A B j s))
       \<and> (case EPA_closestEdge (EPA_polytope A B k s) of
            (ia, ib, n, dmin) \<Rightarrow>
              \<bar>epa_depth r - dmin\<bar> < 1 / 1000
              \<and> epa_depth r = Vec2_dot n (result (MinkowskiDiff_new A B n))
              \<and> epa_normal r = n
              \<and> epa_mtv r = Vec2_mulScalar n (epa_depth r)
              \<and> (\<forall>i < length (EPA_polytope A B k s).
                    dmin \<le> EPA_edgeDistance (EPA_polytope A B k s) i)
              \<and> ((\<exists>i < length (EPA_polytope A B k s).
                     EPA_edgeDistance (EPA_polytope A B k s) i < MAX_VALUE) \<longrightarrow>
                   ia < length (EPA_polytope A B k s)
                   \<and> n = EPA_edgeNormal (EPA_polytope A B k s) ia
                   \<and> dmin = EPA_edgeDistance (EPA_polytope A B k s) ia)))
   \<or> (EPA A B s = Inl EpaFailedToConverge
       \<and> (\<forall>k < 100. \<not> EPA_tolerance_met A B (EPA_polytope A B k s)))"
proof -
  from EPA_loop_cases [of 0 A B s]
  show ?thesis
  proof
    assume "\<exists>k. 0 + k < 100 \<and> EPA_tolerance_met A B (EPA_polytope A B k s)
         \<and> (\<forall>j < k. \<not> EPA_tolerance_met A B (EPA_polytope A B j s))
         \<and> EPA_loop A B 0 s = Inr (EPA_answer A B (EPA_polytope A B k s))"
    then obtain k where k: "k < 100" "EPA_tolerance_met A B (EPA_polytope A B k s)"
      "\<forall>j < k. \<not> EPA_tolerance_met A B (EPA_polytope A B j s)"
      "EPA A B s = Inr (EPA_answer A B (EPA_polytope A B k s))"
      unfolding EPA_def by (elim exE conjE) simp
    define P where "P = EPA_polytope A B k s"
    obtain ia ib n dmin where ce: "EPA_closestEdge P = (ia, ib, n, dmin)"
      by (metis prod.exhaust)
    have tol: "\<bar>epa_depth (EPA_answer A B P) - dmin\<bar> < 1 / 1000"
      using k(2) EPA_answer_fields [where P = P and A = A and B = B] unfolding P_def [symmetric]
      by (simp add: EPA_tolerance_met_def ce Let_def)
    have fields: "epa_depth (EPA_answer A B P) = Vec2_dot n (result (MinkowskiDiff_new A B n))
       \<and> epa_normal (EPA_answer A B P) = n
       \<and> epa_mtv (EPA_answer A B P) = Vec2_mulScalar n (epa_depth (EPA_answer A B P))"
      using EPA_answer_fields [where P = P and A = A and B = B] by (simp add: ce)
    have minimum: "(\<forall>i < length P. dmin \<le> EPA_edgeDistance P i)
       \<and> ((\<exists>i < length P. EPA_edgeDistance P i < MAX_VALUE) \<longrightarrow>
            ia < length P \<and> n = EPA_edgeNormal P ia \<and> dmin = EPA_edgeDistance P ia)"
      using EPA_closestEdge_minimum [of P] by (simp add: ce)
    have "EPA A B s = Inr (EPA_answer A B P)
       \<and> (\<forall>j < k. \<not> EPA_tolerance_met A B (EPA_polytope A B j s))
       \<and> (case EPA_closestEdge P of
            (ia, ib, n, dmin) \<Rightarrow>
              \<bar>epa_depth (EPA_answer A B P) - dmin\<bar> < 1 / 1000
              \<and> epa_depth (EPA_answer A B P) = Vec2_dot n (result (MinkowskiDiff_new A B n))
              \<and> epa_normal (EPA_answer A B P) = n
              \<and> epa_mtv (EPA_answer A B P) = Vec2_mulScalar n (epa_depth (EPA_answer A B P))
              \<and> (\<forall>i < length P. dmin \<le> EPA_edgeDistance P i)
              \<and> ((\<exists>i < length P. EPA_edgeDistance P i < MAX_VALUE) \<longrightarrow>
                   ia < length P \<and> n = EPA_edgeNormal P ia \<and> dmin = EPA_edgeDistance P ia))"
      unfolding ce prod.case using k(3,4) tol fields minimum unfolding P_def [symmetric]
      by (intro conjI) (elim conjE, assumption)+
    then show ?thesis
      unfolding P_def
      by (intro disjI1 exI [of _ k] conjI exI [of _ "EPA_answer A B (EPA_polytope A B k s)"] k(1))
         (elim conjE, assumption)+
  next
    assume "(\<forall>k. 0 + k < 100 \<longrightarrow> \<not> EPA_tolerance_met A B (EPA_polytope A B k s))
       \<and> EPA_loop A B 0 s = Inl EpaFailedToConverge"
    then show ?thesis
      unfolding EPA_def by (intro disjI2) simp
  qed
qed

subsection \<open>The example, evaluated\<close>

lemma sqrt_64: "sqrt 64 = 8"
  using real_sqrt_abs [of 8] by simp

lemma sqrt_1225: "sqrt 1225 = 35"
  using real_sqrt_abs [of 35] by simp

lemma sqrt_81: "sqrt 81 = 9"
  using real_sqrt_abs [of 9] by simp

lemma example_edge_0:
  "EPA_edgeNormal example_simplex 0 = Vec2 0 (- 1)"
  "EPA_edgeDistance example_simplex 0 = 1 / 2"
  by (simp_all add: EPA_edgeDistance_def EPA_edgeNormal_def example_simplex_def vec_defs Let_def
      Vec2_tripleCross_def Vec3_cross_def Vec3_intoVec2_def Vec2_isZero_def Vec2_normalise_def Vec2_magnitude_def
      sqrt_64)

lemma example_edge_1:
  "EPA_edgeNormal example_simplex 1 = Vec2 (3 / 5) (4 / 5)"
  "EPA_edgeDistance example_simplex 1 = 7 / 5"
  by (simp_all add: EPA_edgeDistance_def EPA_edgeNormal_def example_simplex_def vec_defs Let_def
      Vec2_tripleCross_def Vec3_cross_def Vec3_intoVec2_def Vec2_isZero_def Vec2_normalise_def Vec2_magnitude_def
      sqrt_1225)

lemma example_edge_2:
  "EPA_edgeNormal example_simplex 2 = Vec2 (- 1) 0"
  "EPA_edgeDistance example_simplex 2 = 1"
  by (simp_all add: EPA_edgeDistance_def EPA_edgeNormal_def example_simplex_def vec_defs Let_def
      Vec2_tripleCross_def Vec3_cross_def Vec3_intoVec2_def Vec2_isZero_def Vec2_normalise_def Vec2_magnitude_def
      sqrt_81)

lemma upt_3: "[0 ..< 3] = [0, 1, 2]"
  by (simp add: upt_rec)

lemma MAX_VALUE_large: "2 < MAX_VALUE"
proof -
  have "(2::real) \<le> 2 ^ 53 - 1" by simp
  moreover have "(1::real) \<le> 2 ^ 971" by (rule one_le_power) simp
  ultimately have "(2::real) * 1 \<le> (2 ^ 53 - 1) * 2 ^ 971"
    by (intro mult_mono) simp_all
  moreover have "MAX_VALUE \<noteq> 2"
    unfolding MAX_VALUE_def by simp
  ultimately show ?thesis unfolding MAX_VALUE_def by simp
qed

lemma example_closestEdge:
  "EPA_closestEdge example_simplex = (0, 1, Vec2 0 (- 1), 1 / 2)"
proof -
  have len: "length example_simplex = 3"
    by (simp add: example_simplex_def)
  have "1 / 2 < MAX_VALUE"
    using MAX_VALUE_large by simp
  then show ?thesis
    unfolding EPA_closestEdge_fold len upt_3
    using example_edge_0 example_edge_1 example_edge_2
    by (simp add: EPA_searchStep_def len del: One_nat_def)
qed

lemma example_support:
  "MinkowskiDiff_new example_triangle example_point (Vec2 0 (- 1)) =
     \<lparr>supportA = Vec2 0 0, supportB = Vec2 1 (1 / 2), result = Vec2 (- 1) (- 1 / 2)\<rparr>"
proof -
  have "- MAX_VALUE < 0"
    using MAX_VALUE_large by simp
  then show ?thesis
    by (simp add: MinkowskiDiff_new_def example_triangle_def example_point_def
        Polygon_getFurthestPoint_def Circle_getFurthestPoint_def vec_defs Let_def)
qed

lemma example_tolerance_met:
  "EPA_tolerance_met example_triangle example_point example_simplex"
  by (simp add: EPA_tolerance_met_def example_closestEdge example_support vec_defs)

lemma example_EPA:
  "EPA example_triangle example_point example_simplex =
     Inr \<lparr>epa_normal = Vec2 0 (- 1), epa_tangent = Vec2_perpendicular (Vec2 0 (- 1)),
          epa_mtv = Vec2 0 (- 1 / 2), epa_depth = 1 / 2,
          worldContactA = Vec2 1 0, worldContactB = Vec2 1 (1 / 2)\<rparr>"
proof -
  have a: "EPA_answer example_triangle example_point example_simplex
           = EPA_result example_simplex 0 1 (Vec2 0 (- 1)) (1 / 2)"
    by (simp add: EPA_answer_def example_closestEdge example_support vec_defs)
  have "EPA example_triangle example_point example_simplex
        = Inr (EPA_result example_simplex 0 1 (Vec2 0 (- 1)) (1 / 2))"
    unfolding EPA_def EPA_loop_step [of _ _ 0]
    by (simp add: example_tolerance_met a)
  then show ?thesis
    by (simp add: EPA_result_def EpaResult_new_def example_simplex_def Vec2_magnitudeSquared_def
        Vec2_add_def Vec2_sub_def Vec2_mulScalar_def Vec2_neg_def Vec2_dot_def Let_def)
qed

theorem EPA_returns_within_tolerance_or_raises_witness:
  "(\<exists>r. EPA example_triangle example_point example_simplex = Inr r
        \<and> \<bar>epa_depth r - 1 / 2\<bar> < 1 / 1000
        \<and> epa_normal r = Vec2 0 (- 1)
        \<and> epa_mtv r = Vec2_mulScalar (Vec2 0 (- 1)) (epa_depth r))
   \<and> EPA_closestEdge example_simplex = (0, 1, Vec2 0 (- 1), 1 / 2)
   \<and> EPA_edgeDistance example_simplex 0 = 1 / 2
   \<and> EPA_edgeDistance example_simplex 1 = 7 / 5
   \<and> EPA_edgeDistance example_simplex 2 = 1
   \<and> EPA example_triangle example_point example_simplex =
       Inr \<lparr>epa_normal = Vec2 0 (- 1), epa_tangent = Vec2_perpendicular (Vec2 0 (- 1)),
            epa_mtv = Vec2 0 (- 1 / 2), epa_depth = 1 / 2,
            worldContactA = Vec2 1 0, worldContactB = Vec2 1 (1 / 2)\<rparr>"
proof -
  have p0: "EPA_polytope example_triangle example_point 0 example_simplex = example_simplex"
    by (simp add: EPA_polytope_def)
  from EPA_returns_within_tolerance_or_raises
         [of example_triangle example_point example_simplex]
  have "\<exists>r. EPA example_triangle example_point example_simplex = Inr r
        \<and> \<bar>epa_depth r - 1 / 2\<bar> < 1 / 1000
        \<and> epa_normal r = Vec2 0 (- 1)
        \<and> epa_mtv r = Vec2_mulScalar (Vec2 0 (- 1)) (epa_depth r)"
  proof
    assume "\<exists>k < 100. \<exists>r. EPA example_triangle example_point example_simplex = Inr r
       \<and> (\<forall>j < k. \<not> EPA_tolerance_met example_triangle example_point
                        (EPA_polytope example_triangle example_point j example_simplex))
       \<and> (case EPA_closestEdge (EPA_polytope example_triangle example_point k example_simplex) of
            (ia, ib, n, dmin) \<Rightarrow>
              \<bar>epa_depth r - dmin\<bar> < 1 / 1000
              \<and> epa_depth r = Vec2_dot n (result (MinkowskiDiff_new example_triangle example_point n))
              \<and> epa_normal r = n
              \<and> epa_mtv r = Vec2_mulScalar n (epa_depth r)
              \<and> (\<forall>i < length (EPA_polytope example_triangle example_point k example_simplex).
                    dmin \<le> EPA_edgeDistance (EPA_polytope example_triangle example_point k example_simplex) i)
              \<and> ((\<exists>i < length (EPA_polytope example_triangle example_point k example_simplex).
                     EPA_edgeDistance (EPA_polytope example_triangle example_point k example_simplex) i < MAX_VALUE) \<longrightarrow>
                   ia < length (EPA_polytope example_triangle example_point k example_simplex)
                   \<and> n = EPA_edgeNormal (EPA_polytope example_triangle example_point k example_simplex) ia
                   \<and> dmin = EPA_edgeDistance (EPA_polytope example_triangle example_point k example_simplex) ia))"
    then obtain k r where r: "EPA example_triangle example_point example_simplex = Inr r"
      and first: "\<forall>j < k. \<not> EPA_tolerance_met example_triangle example_point
                        (EPA_polytope example_triangle example_point j example_simplex)"
      and c: "case EPA_closestEdge (EPA_polytope example_triangle example_point k example_simplex) of
            (ia, ib, n, dmin) \<Rightarrow>
              \<bar>epa_depth r - dmin\<bar> < 1 / 1000
              \<and> epa_depth r = Vec2_dot n (result (MinkowskiDiff_new example_triangle example_point n))
              \<and> epa_normal r = n
              \<and> epa_mtv r = Vec2_mulScalar n (epa_depth r)
              \<and> (\<forall>i < length (EPA_polytope example_triangle example_point k example_simplex).
                    dmin \<le> EPA_edgeDistance (EPA_polytope example_triangle example_point k example_simplex) i)
              \<and> ((\<exists>i < length (EPA_polytope example_triangle example_point k example_simplex).
                     EPA_edgeDistance (EPA_polytope example_triangle example_point k example_simplex) i < MAX_VALUE) \<longrightarrow>
                   ia < length (EPA_polytope example_triangle example_point k example_simplex)
                   \<and> n = EPA_edgeNormal (EPA_polytope example_triangle example_point k example_simplex) ia
                   \<and> dmin = EPA_edgeDistance (EPA_polytope example_triangle example_point k example_simplex) ia)"
      by (elim exE conjE)
    have k0: "k = 0"
    proof (rule ccontr)
      assume "k \<noteq> 0"
      then have "\<not> EPA_tolerance_met example_triangle example_point
                        (EPA_polytope example_triangle example_point 0 example_simplex)"
        using first by simp
      then show False
        using example_tolerance_met by (simp add: p0)
    qed
    have "\<bar>epa_depth r - 1 / 2\<bar> < 1 / 1000 \<and> epa_normal r = Vec2 0 (- 1)
        \<and> epa_mtv r = Vec2_mulScalar (Vec2 0 (- 1)) (epa_depth r)"
      using c unfolding k0 p0 example_closestEdge prod.case
      by (elim conjE) (intro conjI, assumption+)
    then show ?thesis
      using r by (intro exI [of _ r]) simp
  next
    assume "EPA example_triangle example_point example_simplex = Inl EpaFailedToConverge
       \<and> (\<forall>k < 100. \<not> EPA_tolerance_met example_triangle example_point
                        (EPA_polytope example_triangle example_point k example_simplex))"
    then have "\<not> EPA_tolerance_met example_triangle example_point
                        (EPA_polytope example_triangle example_point 0 example_simplex)"
      by simp
    then show ?thesis
      using example_tolerance_met by (simp add: p0)
  qed
  then show ?thesis
    unfolding example_closestEdge example_edge_0 example_edge_1 example_edge_2
    using example_EPA by (intro conjI) simp_all
qed

section \<open>Islands\<close>

lemma Set_add_set: "set (Set_add s x) = insert x (set s)"
  by (auto simp: Set_add_def)

lemma fold_Set_add_set: "set (fold (\<lambda>x s. Set_add s x) xs s) = set s \<union> set xs"
  by (induction xs arbitrary: s) (auto simp: Set_add_set)

lemma Island_merge_fold:
  "fold (\<lambda>body w'.
           (Island_add i body w')
             \<lparr>bodyObjects :=
                (bodyObjects w')(body := (bodyObjects w' body)\<lparr>island := Some i\<rparr>)\<rparr>) xs w
   = w\<lparr>islandObjects := (islandObjects w)(i := fold (\<lambda>x s. Set_add s x) xs (islandObjects w i)),
       bodyObjects := (\<lambda>r. if r \<in> set xs then (bodyObjects w r)\<lparr>island := Some i\<rparr>
                           else bodyObjects w r)\<rparr>"
proof (induction xs arbitrary: w)
  case Nil
  then show ?case by simp
next
  case (Cons x xs)
  show ?case
    unfolding fold_simps Cons.IH
    by (rule PhysicsWorld.equality) (auto simp: Island_add_def fun_eq_iff)
qed

lemma Island_merge_eq:
  "Island_merge i j w =
     w\<lparr>islandObjects := ((islandObjects w)
                           (i := fold (\<lambda>x s. Set_add s x) (islandObjects w j) (islandObjects w i)))
                         (j := []),
       bodyObjects := (\<lambda>r. if r \<in> set (islandObjects w j)
                           then (bodyObjects w r)\<lparr>island := Some i\<rparr>
                           else bodyObjects w r)\<rparr>"
  unfolding Island_merge_def Island_merge_fold
  by (rule PhysicsWorld.equality) (simp_all add: Island_clear_def)

lemma RigidBody_addToIsland_eq:
  "RigidBody_addToIsland r i w =
     (if fixed (bodyObjects w r) then w
      else w\<lparr>islandObjects := (islandObjects w)(i := Set_add (islandObjects w i) r),
             bodyObjects := (bodyObjects w)(r := (bodyObjects w r)\<lparr>island := Some i\<rparr>)\<rparr>)"
  unfolding RigidBody_addToIsland_def Island_add_def
  by (auto intro!: PhysicsWorld.equality)


lemma Island_merge_view:
  "island (bodyObjects (Island_merge i j w) r)
     = (if r \<in> set (islandObjects w j) then Some i else island (bodyObjects w r))"
  "set (islandObjects (Island_merge i j w) k)
     = (if k = j then {} else if k = i then set (islandObjects w i) \<union> set (islandObjects w j)
        else set (islandObjects w k))"
  "fixed (bodyObjects (Island_merge i j w) r) = fixed (bodyObjects w r)"
  "this_islands (Island_merge i j w) = this_islands w"
  "islandsCreated (Island_merge i j w) = islandsCreated w"
  "this_quadtree (Island_merge i j w) = this_quadtree w"
  "this_bodies (Island_merge i j w) = this_bodies w"
  "confirmedPairs (Island_merge i j w) = confirmedPairs w"
  by (simp_all add: Island_merge_eq fold_Set_add_set)

lemma RigidBody_addToIsland_view:
  "island (bodyObjects (RigidBody_addToIsland x i w) r)
     = (if r = x \<and> \<not> fixed (bodyObjects w x) then Some i else island (bodyObjects w r))"
  "set (islandObjects (RigidBody_addToIsland x i w) k)
     = (if k = i \<and> \<not> fixed (bodyObjects w x) then insert x (set (islandObjects w i))
        else set (islandObjects w k))"
  "fixed (bodyObjects (RigidBody_addToIsland x i w) r) = fixed (bodyObjects w r)"
  "this_islands (RigidBody_addToIsland x i w) = this_islands w"
  "islandsCreated (RigidBody_addToIsland x i w) = islandsCreated w"
  "this_quadtree (RigidBody_addToIsland x i w) = this_quadtree w"
  "this_bodies (RigidBody_addToIsland x i w) = this_bodies w"
  "confirmedPairs (RigidBody_addToIsland x i w) = confirmedPairs w"
  by (simp_all add: RigidBody_addToIsland_eq Set_add_set)

lemma Island_new_view:
  "fst (Island_new w) = islandsCreated w"
  "bodyObjects (snd (Island_new w)) = bodyObjects w"
  "set (islandObjects (snd (Island_new w)) k)
     = (if k = islandsCreated w then {} else set (islandObjects w k))"
  "this_islands (snd (Island_new w)) = this_islands w"
  "islandsCreated (snd (Island_new w)) = Suc (islandsCreated w)"
  "this_quadtree (snd (Island_new w)) = this_quadtree w"
  "this_bodies (snd (Island_new w)) = this_bodies w"
  "confirmedPairs (snd (Island_new w)) = confirmedPairs w"
  by (simp_all add: Island_new_def)

lemma islands_inv_pointer:
  "islands_inv bs w \<Longrightarrow> r \<in> bs \<Longrightarrow> island (bodyObjects w r) = Some k \<Longrightarrow>
     k \<in> set (this_islands w) \<and> r \<in> set (islandObjects w k)"
  unfolding islands_inv_def by blast

lemma islands_inv_member:
  "islands_inv bs w \<Longrightarrow> k \<in> set (this_islands w) \<Longrightarrow> r \<in> set (islandObjects w k) \<Longrightarrow>
     r \<in> bs \<and> island (bodyObjects w r) = Some k"
  unfolding islands_inv_def by blast

lemma islands_inv_created:
  "islands_inv bs w \<Longrightarrow> k \<in> set (this_islands w) \<Longrightarrow> k < islandsCreated w"
  unfolding islands_inv_def by blast

lemma Island_merge_inv:
  assumes inv: "islands_inv bs w"
    and a: "a \<in> bs" "island (bodyObjects w a) = Some i"
    and b: "b \<in> bs" "island (bodyObjects w b) = Some j"
    and ne: "i \<noteq> j"
  shows "islands_inv bs (Island_merge i j w)"
proof -
  have i: "i \<in> set (this_islands w)" and j: "j \<in> set (this_islands w)"
    using islands_inv_pointer [OF inv] a b by blast+
  note p1 = islands_inv_pointer [OF inv] and p2 = islands_inv_member [OF inv]
    and p3 = islands_inv_created [OF inv]
  show ?thesis
    unfolding islands_inv_def Island_merge_view
  proof (intro conjI allI impI)
    fix r k
    assume r: "r \<in> bs"
      and k: "(if r \<in> set (islandObjects w j) then Some i else island (bodyObjects w r)) = Some k"
    show "k \<in> set (this_islands w)"
      using k i p1 [OF r] by (simp split: if_splits)
    show "r \<in> (if k = j then {} else if k = i then set (islandObjects w i) \<union> set (islandObjects w j)
        else set (islandObjects w k))"
      using k ne p1 [OF r] p2 [OF j] by (auto split: if_splits)
  next
    fix k r
    assume k: "k \<in> set (this_islands w)"
      and r: "r \<in> (if k = j then {} else if k = i then set (islandObjects w i) \<union> set (islandObjects w j)
        else set (islandObjects w k))"
    have kj: "k \<noteq> j" using r by (auto split: if_splits)
    have r': "r \<in> set (islandObjects w k) \<or> (k = i \<and> r \<in> set (islandObjects w j))"
      using r kj by (auto split: if_splits)
    then show "r \<in> bs"
      using p2 k j by blast
    from r' show "(if r \<in> set (islandObjects w j) then Some i else island (bodyObjects w r)) = Some k"
    proof
      assume m: "r \<in> set (islandObjects w k)"
      then have "island (bodyObjects w r) = Some k" using p2 k by blast
      moreover have "r \<notin> set (islandObjects w j)"
      proof
        assume "r \<in> set (islandObjects w j)"
        then have "island (bodyObjects w r) = Some j" using p2 j by blast
        then show False using \<open>island (bodyObjects w r) = Some k\<close> kj by simp
      qed
      ultimately show ?thesis by simp
    next
      assume "k = i \<and> r \<in> set (islandObjects w j)"
      then show ?thesis by simp
    qed
  next
    fix k
    assume "k \<in> set (this_islands w)"
    then show "k < islandsCreated w"
      using p3 by simp
  qed
qed

lemma Island_merge_grow:
  assumes inv: "islands_inv bs w"
    and b: "b \<in> bs" "island (bodyObjects w b) = Some j"
  shows "islands_grow bs w (Island_merge i j w)"
proof -
  have j: "j \<in> set (this_islands w)"
    using islands_inv_pointer [OF inv] b by blast
  note p1 = islands_inv_pointer [OF inv] and p2 = islands_inv_member [OF inv, OF j]
  show ?thesis
    unfolding islands_grow_def Island_merge_view
  proof (intro conjI allI impI)
    fix r1 r2
    assume r: "r1 \<in> bs" "r2 \<in> bs" "island (bodyObjects w r1) \<noteq> None"
      "island (bodyObjects w r1) = island (bodyObjects w r2)"
    then obtain k where k: "island (bodyObjects w r1) = Some k" "island (bodyObjects w r2) = Some k"
      by auto
    have "r1 \<in> set (islandObjects w j) \<longleftrightarrow> k = j"
      using p1 [OF r(1) k(1)] p2 [of r1] k(1) by auto
    moreover have "r2 \<in> set (islandObjects w j) \<longleftrightarrow> k = j"
      using p1 [OF r(2) k(2)] p2 [of r2] k(2) by auto
    ultimately show "(if r1 \<in> set (islandObjects w j) then Some i else island (bodyObjects w r1))
        = (if r2 \<in> set (islandObjects w j) then Some i else island (bodyObjects w r2))"
      using k by simp
  qed simp_all
qed

lemma Island_merge_same:
  assumes inv: "islands_inv bs w"
    and a: "a \<in> bs" "island (bodyObjects w a) = Some i"
    and b: "b \<in> bs" "island (bodyObjects w b) = Some j"
  shows "same_island (Island_merge i j w) a b"
proof -
  have j: "j \<in> set (this_islands w)"
    using islands_inv_pointer [OF inv] b by blast
  have "b \<in> set (islandObjects w j)"
    using islands_inv_pointer [OF inv] b by blast
  moreover have "a \<in> set (islandObjects w j) \<longrightarrow> i = j"
    using islands_inv_member [OF inv j, of a] a by auto
  ultimately show ?thesis
    unfolding same_island_def Island_merge_view using a by auto
qed


lemma RigidBody_addToIsland_inv:
  assumes inv: "islands_inv bs w"
    and x: "x \<in> bs" "island (bodyObjects w x) = None"
    and i: "i \<in> set (this_islands w)"
  shows "islands_inv bs (RigidBody_addToIsland x i w)"
proof -
  note p1 = islands_inv_pointer [OF inv] and p2 = islands_inv_member [OF inv]
    and p3 = islands_inv_created [OF inv]
  show ?thesis
    unfolding islands_inv_def RigidBody_addToIsland_view
  proof (intro conjI allI impI)
    fix r k
    assume r: "r \<in> bs"
      and k: "(if r = x \<and> \<not> fixed (bodyObjects w x) then Some i else island (bodyObjects w r))
              = Some k"
    show "k \<in> set (this_islands w)"
      using k i p1 [OF r] by (simp split: if_splits)
    show "r \<in> (if k = i \<and> \<not> fixed (bodyObjects w x) then insert x (set (islandObjects w i))
        else set (islandObjects w k))"
      using k p1 [OF r] by (auto split: if_splits)
  next
    fix k r
    assume k: "k \<in> set (this_islands w)"
      and r: "r \<in> (if k = i \<and> \<not> fixed (bodyObjects w x) then insert x (set (islandObjects w i))
        else set (islandObjects w k))"
    then have r': "r \<in> set (islandObjects w k) \<or> (r = x \<and> k = i \<and> \<not> fixed (bodyObjects w x))"
      by (auto split: if_splits)
    then show "r \<in> bs"
      using p2 [OF k] x by blast
    from r' show "(if r = x \<and> \<not> fixed (bodyObjects w x) then Some i else island (bodyObjects w r))
              = Some k"
    proof
      assume "r \<in> set (islandObjects w k)"
      then have "island (bodyObjects w r) = Some k" using p2 [OF k] by blast
      then show ?thesis using x by auto
    next
      assume "r = x \<and> k = i \<and> \<not> fixed (bodyObjects w x)"
      then show ?thesis by simp
    qed
  next
    fix k
    assume "k \<in> set (this_islands w)"
    then show "k < islandsCreated w" using p3 by simp
  qed
qed

lemma RigidBody_addToIsland_grow:
  assumes x: "island (bodyObjects w x) = None"
  shows "islands_grow bs w (RigidBody_addToIsland x i w)"
  unfolding islands_grow_def RigidBody_addToIsland_view
  using x by auto

lemma checkCollisions_newIsland_view:
  "island (bodyObjects (checkCollisions_newIsland a b w) r)
     = (if (r = a \<and> \<not> fixed (bodyObjects w a)) \<or> (r = b \<and> \<not> fixed (bodyObjects w b))
        then Some (islandsCreated w) else island (bodyObjects w r))"
  "set (islandObjects (checkCollisions_newIsland a b w) k)
     = (if k = islandsCreated w
        then {r. (r = a \<and> \<not> fixed (bodyObjects w a)) \<or> (r = b \<and> \<not> fixed (bodyObjects w b))}
        else set (islandObjects w k))"
  "fixed (bodyObjects (checkCollisions_newIsland a b w) r) = fixed (bodyObjects w r)"
  "this_islands (checkCollisions_newIsland a b w) = this_islands w @ [islandsCreated w]"
  "islandsCreated (checkCollisions_newIsland a b w) = Suc (islandsCreated w)"
  "this_quadtree (checkCollisions_newIsland a b w) = this_quadtree w"
  "this_bodies (checkCollisions_newIsland a b w) = this_bodies w"
  "confirmedPairs (checkCollisions_newIsland a b w) = confirmedPairs w"
  unfolding checkCollisions_newIsland_def
  by (auto simp: RigidBody_addToIsland_view Island_new_view split_beta Let_def)


lemma checkCollisions_newIsland_inv:
  assumes inv: "islands_inv bs w"
    and a: "a \<in> bs" "island (bodyObjects w a) = None"
    and b: "b \<in> bs" "island (bodyObjects w b) = None"
  shows "islands_inv bs (checkCollisions_newIsland a b w)"
proof -
  note p1 = islands_inv_pointer [OF inv] and p2 = islands_inv_member [OF inv]
    and p3 = islands_inv_created [OF inv]
  have fresh: "islandsCreated w \<notin> set (this_islands w)"
    using p3 by blast
  show ?thesis
    unfolding islands_inv_def checkCollisions_newIsland_view
  proof (intro conjI allI impI)
    fix r k
    assume r: "r \<in> bs"
      and k: "(if (r = a \<and> \<not> fixed (bodyObjects w a)) \<or> (r = b \<and> \<not> fixed (bodyObjects w b))
              then Some (islandsCreated w) else island (bodyObjects w r)) = Some k"
    show "k \<in> set (this_islands w @ [islandsCreated w])"
      using k p1 [OF r] by (auto split: if_splits)
    show "r \<in> (if k = islandsCreated w
        then {r. (r = a \<and> \<not> fixed (bodyObjects w a)) \<or> (r = b \<and> \<not> fixed (bodyObjects w b))}
        else set (islandObjects w k))"
      using k p1 [OF r] fresh by (auto split: if_splits)
  next
    fix k r
    assume k: "k \<in> set (this_islands w @ [islandsCreated w])"
      and r: "r \<in> (if k = islandsCreated w
        then {r. (r = a \<and> \<not> fixed (bodyObjects w a)) \<or> (r = b \<and> \<not> fixed (bodyObjects w b))}
        else set (islandObjects w k))"
    show "r \<in> bs"
      using k r p2 a b by (auto split: if_splits)
    show "(if (r = a \<and> \<not> fixed (bodyObjects w a)) \<or> (r = b \<and> \<not> fixed (bodyObjects w b))
              then Some (islandsCreated w) else island (bodyObjects w r)) = Some k"
    proof (cases "k = islandsCreated w")
      case True
      then show ?thesis using r by auto
    next
      case False
      then have k': "k \<in> set (this_islands w)" and r': "r \<in> set (islandObjects w k)"
        using k r by auto
      then have "island (bodyObjects w r) = Some k" using p2 by blast
      then show ?thesis using a b by auto
    qed
  next
    fix k
    assume "k \<in> set (this_islands w @ [islandsCreated w])"
    then show "k < Suc (islandsCreated w)"
      using p3 by (auto simp: less_Suc_eq)
  qed
qed

lemma checkCollisions_newIsland_grow:
  assumes a: "island (bodyObjects w a) = None" and b: "island (bodyObjects w b) = None"
  shows "islands_grow bs w (checkCollisions_newIsland a b w)"
  unfolding islands_grow_def checkCollisions_newIsland_view
  using a b by auto

lemma checkCollisions_newIsland_same:
  "same_island (checkCollisions_newIsland a b w) a b"
  unfolding same_island_def checkCollisions_newIsland_view by simp

lemma islands_grow_refl: "islands_grow bs w w"
  unfolding islands_grow_def by simp

lemma checkCollisions_islands_cases:
  "checkCollisions_islands a b w =
     (case island (bodyObjects w a) of
        Some islandA \<Rightarrow>
          (case island (bodyObjects w b) of
             Some islandB \<Rightarrow> if islandA \<noteq> islandB then Island_merge islandA islandB w else w
           | None \<Rightarrow> RigidBody_addToIsland b islandA w)
      | None \<Rightarrow>
          (case island (bodyObjects w b) of
             Some islandB \<Rightarrow> RigidBody_addToIsland a islandB w
           | None \<Rightarrow> checkCollisions_newIsland a b w))"
  unfolding checkCollisions_islands_def
  by (simp split: option.splits)

lemma checkCollisions_islands_inv:
  assumes inv: "islands_inv bs w" and a: "a \<in> bs" and b: "b \<in> bs"
  shows "islands_inv bs (checkCollisions_islands a b w)
         \<and> islands_grow bs w (checkCollisions_islands a b w)
         \<and> same_island (checkCollisions_islands a b w) a b"
proof (cases "island (bodyObjects w a)")
  case None
  note na = this
  show ?thesis
  proof (cases "island (bodyObjects w b)")
    case None
    then show ?thesis
      unfolding checkCollisions_islands_cases
      using na checkCollisions_newIsland_inv [OF inv a na b None]
        checkCollisions_newIsland_grow [OF na None] checkCollisions_newIsland_same
      by simp
  next
    case (Some j)
    have j: "j \<in> set (this_islands w)"
      using islands_inv_pointer [OF inv b Some] by simp
    have "same_island (RigidBody_addToIsland a j w) a b"
      unfolding same_island_def RigidBody_addToIsland_view using Some na by auto
    then show ?thesis
      unfolding checkCollisions_islands_cases
      using na Some RigidBody_addToIsland_inv [OF inv a na j] RigidBody_addToIsland_grow [OF na]
      by simp
  qed
next
  case (Some i)
  note sa = this
  have i: "i \<in> set (this_islands w)"
    using islands_inv_pointer [OF inv a Some] by simp
  show ?thesis
  proof (cases "island (bodyObjects w b)")
    case None
    have "same_island (RigidBody_addToIsland b i w) a b"
      unfolding same_island_def RigidBody_addToIsland_view using sa None by auto
    then show ?thesis
      unfolding checkCollisions_islands_cases
      using sa None RigidBody_addToIsland_inv [OF inv b None i] RigidBody_addToIsland_grow [OF None]
      by simp
  next
    case (Some j)
    show ?thesis
    proof (cases "i = j")
      case True
      have "same_island w a b"
        unfolding same_island_def using sa Some True by simp
      then show ?thesis
        unfolding checkCollisions_islands_cases
        using sa Some True inv islands_grow_refl by simp
    next
      case False
      then show ?thesis
        unfolding checkCollisions_islands_cases
        using sa Some Island_merge_inv [OF inv a sa b Some False]
          Island_merge_grow [OF inv b Some] Island_merge_same [OF inv a sa b Some]
        by simp
    qed
  qed
qed


lemma fold_children_set:
  assumes "\<And>c r. Some c \<in> set cs \<Longrightarrow> set (g c r) = set r \<union> S c"
  shows "set (fold (\<lambda>child r. case child of None \<Rightarrow> r | Some c \<Rightarrow> g c r) cs r)
         = set r \<union> (\<Union>c \<in> {c. Some c \<in> set cs}. S c)"
  using assms
proof (induction cs arbitrary: r)
  case Nil
  then show ?case by simp
next
  case (Cons child cs)
  have ih: "\<And>r. set (fold (\<lambda>child r. case child of None \<Rightarrow> r | Some c \<Rightarrow> g c r) cs r)
         = set r \<union> (\<Union>c \<in> {c. Some c \<in> set cs}. S c)"
    using Cons by simp
  show ?case
  proof (cases child)
    case None
    then show ?thesis by (simp add: ih)
  next
    case (Some c)
    have "set (g c r) = set r \<union> S c"
      using Cons.prems [of c r] Some by simp
    then show ?thesis
      using Some by (auto simp: ih)
  qed
qed

lemma QuadTreeNode_getAll_acc:
  "set (QuadTreeNode_getAll n out) = set out \<union> set (QuadTreeNode_getAll n [])"
proof (induction n out rule: QuadTreeNode_getAll.induct)
  case (1 its cs out)
  have ih: "\<And>c r. Some c \<in> set cs \<Longrightarrow>
              set (QuadTreeNode_getAll c r) = set r \<union> set (QuadTreeNode_getAll c [])"
    using 1 by blast
  have f: "\<And>r. set (fold (\<lambda>child r. case child of None \<Rightarrow> r
                                          | Some c \<Rightarrow> QuadTreeNode_getAll c r) cs r)
              = set r \<union> (\<Union>c \<in> {c. Some c \<in> set cs}. set (QuadTreeNode_getAll c []))"
    by (rule fold_children_set) (rule ih)
  show ?case
    unfolding QuadTreeNode_getAll.simps f by auto
qed

lemma QuadTreeNode_getAll_set:
  "set (QuadTreeNode_getAll (QuadTreeNode its cs) [])
     = set its \<union> (\<Union>c \<in> {c. Some c \<in> set cs}. set (QuadTreeNode_getAll c []))"
proof -
  have ih: "\<And>c r. Some c \<in> set cs \<Longrightarrow>
              set (QuadTreeNode_getAll c r) = set r \<union> set (QuadTreeNode_getAll c [])"
    by (rule QuadTreeNode_getAll_acc)
  have f: "\<And>r. set (fold (\<lambda>child r. case child of None \<Rightarrow> r
                                          | Some c \<Rightarrow> QuadTreeNode_getAll c r) cs r)
              = set r \<union> (\<Union>c \<in> {c. Some c \<in> set cs}. set (QuadTreeNode_getAll c []))"
    by (rule fold_children_set) (rule ih)
  show ?thesis
    unfolding QuadTreeNode_getAll.simps f by simp
qed

lemma fold_subset:
  assumes "\<And>x r. x \<in> set xs \<Longrightarrow> set (f x r) \<subseteq> set r \<union> S"
  shows "set (fold f xs r) \<subseteq> set r \<union> S"
  using assms
proof (induction xs arbitrary: r)
  case Nil
  then show ?case by simp
next
  case (Cons x xs)
  have "set (fold f xs (f x r)) \<subseteq> set (f x r) \<union> S"
    using Cons by simp
  moreover have "set (f x r) \<subseteq> set r \<union> S"
    using Cons.prems by simp
  ultimately show ?case by auto
qed

lemma QuadTreeNode_get_subset:
  "set (QuadTreeNode_get itemBounds nodeBounds n queryBounds out)
     \<subseteq> set out \<union> set (QuadTreeNode_getAll n [])"
proof (induction itemBounds nodeBounds n queryBounds out rule: QuadTreeNode_get.induct)
  case (1 itemBounds nodeBounds its cs queryBounds out)
  let ?S = "set (QuadTreeNode_getAll (QuadTreeNode its cs) [])"
  have child: "\<And>i c. i < length cs \<Longrightarrow> cs ! i = Some c \<Longrightarrow> set (QuadTreeNode_getAll c []) \<subseteq> ?S"
  proof -
    fix i c
    assume "i < length cs" "cs ! i = Some c"
    then have "Some c \<in> set cs" by (metis nth_mem)
    then show "set (QuadTreeNode_getAll c []) \<subseteq> ?S"
      unfolding QuadTreeNode_getAll_set by blast
  qed
  have step: "\<And>i r. i \<in> set [0 ..< length cs] \<Longrightarrow>
      set (case cs ! i of
             None \<Rightarrow> r
           | Some c \<Rightarrow>
               if AABB_contains queryBounds (childBounds nodeBounds ! i)
               then QuadTreeNode_getAll c r
               else if AABB_intersects queryBounds (childBounds nodeBounds ! i)
               then QuadTreeNode_get itemBounds (childBounds nodeBounds ! i) c queryBounds r
               else r) \<subseteq> set r \<union> ?S"
  proof -
    fix i r
    assume i: "i \<in> set [0 ..< length cs]"
    show "set (case cs ! i of
             None \<Rightarrow> r
           | Some c \<Rightarrow>
               if AABB_contains queryBounds (childBounds nodeBounds ! i)
               then QuadTreeNode_getAll c r
               else if AABB_intersects queryBounds (childBounds nodeBounds ! i)
               then QuadTreeNode_get itemBounds (childBounds nodeBounds ! i) c queryBounds r
               else r) \<subseteq> set r \<union> ?S"
    proof (cases "cs ! i")
      case None
      then show ?thesis by simp
    next
      case (Some c)
      have c: "set (QuadTreeNode_getAll c []) \<subseteq> ?S"
        using child [of i c] i Some by simp
      have all: "set (QuadTreeNode_getAll c r) \<subseteq> set r \<union> ?S"
        using QuadTreeNode_getAll_acc [of c r] c by auto
      have rec: "\<not> AABB_contains queryBounds (childBounds nodeBounds ! i) \<Longrightarrow>
                 AABB_intersects queryBounds (childBounds nodeBounds ! i) \<Longrightarrow>
                 set (QuadTreeNode_get itemBounds (childBounds nodeBounds ! i) c queryBounds r)
                   \<subseteq> set r \<union> ?S"
        using "1.IH" [OF i Some, of r] c by auto
      show ?thesis
        using Some all rec by simp
    qed
  qed
  have "set (QuadTreeNode_get itemBounds nodeBounds (QuadTreeNode its cs) queryBounds out)
        \<subseteq> set (out @ filter (\<lambda>item. AABB_intersects (itemBounds item) queryBounds) its) \<union> ?S"
    unfolding QuadTreeNode_get.simps [of itemBounds nodeBounds its cs queryBounds out]
    by (rule fold_subset) (rule step)
  moreover have "set its \<subseteq> ?S"
    unfolding QuadTreeNode_getAll_set by simp
  ultimately show ?case by auto
qed

lemma QuadTree_get_subset:
  "set (QuadTree_get itemBounds qt queryBounds) \<subseteq> set (QuadTreeNode_getAll (root qt) [])"
  unfolding QuadTree_get_def using QuadTreeNode_get_subset [of itemBounds _ _ queryBounds "[]"]
  by simp

lemma same_island_grow:
  assumes "islands_grow bs w w'" "a \<in> bs" "b \<in> bs" "same_island w a b"
  shows "same_island w' a b"
proof -
  have fx: "\<And>r. fixed (bodyObjects w' r) = fixed (bodyObjects w r)"
    and some: "\<And>r. r \<in> bs \<Longrightarrow> island (bodyObjects w r) \<noteq> None \<Longrightarrow>
                 island (bodyObjects w' r) \<noteq> None"
    and eq: "\<And>r1 r2. r1 \<in> bs \<Longrightarrow> r2 \<in> bs \<Longrightarrow> island (bodyObjects w r1) \<noteq> None \<Longrightarrow>
          island (bodyObjects w r1) = island (bodyObjects w r2) \<Longrightarrow>
          island (bodyObjects w' r1) = island (bodyObjects w' r2)"
    using assms(1) unfolding islands_grow_def by blast+
  show ?thesis
    unfolding same_island_def
  proof (intro conjI impI)
    assume "\<not> fixed (bodyObjects w' a)"
    then show "island (bodyObjects w' a) \<noteq> None"
      using assms(2,4) some [of a] unfolding same_island_def fx by blast
  next
    assume "\<not> fixed (bodyObjects w' b)"
    then show "island (bodyObjects w' b) \<noteq> None"
      using assms(3,4) some [of b] unfolding same_island_def fx by blast
  next
    assume "\<not> fixed (bodyObjects w' a)" "\<not> fixed (bodyObjects w' b)"
    then have "island (bodyObjects w a) \<noteq> None"
      "island (bodyObjects w a) = island (bodyObjects w b)"
      using assms(4) unfolding same_island_def fx by blast+
    then show "island (bodyObjects w' a) = island (bodyObjects w' b)"
      using eq [OF assms(2,3)] by blast
  qed
qed

lemma islands_inv_cong:
  assumes "\<And>r. island (bodyObjects w' r) = island (bodyObjects w r)"
    and "islandObjects w' = islandObjects w" "this_islands w' = this_islands w"
    and "islandsCreated w' = islandsCreated w"
  shows "islands_inv bs w' = islands_inv bs w"
  unfolding islands_inv_def assms ..

lemma same_island_cong:
  assumes "\<And>r. island (bodyObjects w' r) = island (bodyObjects w r)"
    and "\<And>r. fixed (bodyObjects w' r) = fixed (bodyObjects w r)"
  shows "same_island w' a b = same_island w a b"
  unfolding same_island_def assms ..

lemma islands_grow_cong:
  assumes "\<And>r. island (bodyObjects w1 r) = island (bodyObjects w r)"
    and "\<And>r. fixed (bodyObjects w1 r) = fixed (bodyObjects w r)"
    and "this_quadtree w1 = this_quadtree w" "this_bodies w1 = this_bodies w"
    and "confirmedPairs w1 = confirmedPairs w"
  shows "islands_grow bs w1 w' = islands_grow bs w w'"
  unfolding islands_grow_def assms ..

lemma checkCollisions_confirmed_inv:
  assumes inv: "pass_inv bs w" and a: "a \<in> bs" and b: "b \<in> bs"
  shows "pass_inv bs (checkCollisions_confirmed a b collision w)
         \<and> this_quadtree (checkCollisions_confirmed a b collision w) = this_quadtree w
         \<and> this_bodies (checkCollisions_confirmed a b collision w) = this_bodies w"
proof -
  define w2 where "w2 = w\<lparr>bodyObjects :=
      ((bodyObjects w)(a := (bodyObjects w a)\<lparr>sleeping := False\<rparr>))
        (b := (((bodyObjects w)(a := (bodyObjects w a)\<lparr>sleeping := False\<rparr>)) b)\<lparr>sleeping := False\<rparr>)\<rparr>"
  define w3 where "w3 = checkCollisions_islands a b w2"
  obtain X Y where result: "checkCollisions_confirmed a b collision w
      = w3\<lparr>this_collisions := X, resolvedCollisionIds := Y,
           confirmedPairs := confirmedPairs w3 @ [(a, b)]\<rparr>"
    unfolding checkCollisions_confirmed_def w3_def w2_def
    by (simp add: Let_def split_beta)
  have i2: "\<And>r. island (bodyObjects w2 r) = island (bodyObjects w r)"
    and f2: "\<And>r. fixed (bodyObjects w2 r) = fixed (bodyObjects w r)"
    and o2: "islandObjects w2 = islandObjects w" "this_islands w2 = this_islands w"
      "islandsCreated w2 = islandsCreated w" "this_quadtree w2 = this_quadtree w"
      "this_bodies w2 = this_bodies w" "confirmedPairs w2 = confirmedPairs w"
    unfolding w2_def by simp_all
  have inv2: "islands_inv bs w2"
    using inv islands_inv_cong [of w2 w bs, OF i2 o2(1,2,3)] unfolding pass_inv_def by simp
  have inv3: "islands_inv bs w3" and grow3: "islands_grow bs w2 w3" and same3: "same_island w3 a b"
    using checkCollisions_islands_inv [OF inv2 a b] unfolding w3_def by simp_all
  have grow: "islands_grow bs w w3"
    using grow3 islands_grow_cong [of w2 w bs w3, OF i2 f2 o2(4,5,6)] by simp
  have pairs3: "confirmedPairs w3 = confirmedPairs w" "this_quadtree w3 = this_quadtree w"
    "this_bodies w3 = this_bodies w"
    using grow unfolding islands_grow_def by simp_all
  let ?w' = "w3\<lparr>this_collisions := X, resolvedCollisionIds := Y,
           confirmedPairs := confirmedPairs w3 @ [(a, b)]\<rparr>"
  have inv': "islands_inv bs ?w'"
    using inv3 islands_inv_cong [of ?w' w3 bs] by simp
  have pairs: "\<And>x y. (x, y) \<in> set (confirmedPairs ?w') \<Longrightarrow>
                  x \<in> bs \<and> y \<in> bs \<and> same_island ?w' x y"
  proof -
    fix x y
    assume "(x, y) \<in> set (confirmedPairs ?w')"
    then have "(x, y) \<in> set (confirmedPairs w) \<or> (x, y) = (a, b)"
      using pairs3 by auto
    then have "x \<in> bs \<and> y \<in> bs \<and> same_island w3 x y"
    proof
      assume m: "(x, y) \<in> set (confirmedPairs w)"
      then have "x \<in> bs" "y \<in> bs" "same_island w x y"
        using inv unfolding pass_inv_def by blast+
      then show ?thesis
        using same_island_grow [OF grow] by blast
    next
      assume "(x, y) = (a, b)"
      then show ?thesis using a b same3 by simp
    qed
    then show "x \<in> bs \<and> y \<in> bs \<and> same_island ?w' x y"
      using same_island_cong [of ?w' w3 x y] by simp
  qed
  show ?thesis
    unfolding result pass_inv_def
    using inv' pairs pairs3 by simp
qed


lemma checkCollisions_inner_inv:
  assumes "checkCollisions_inner checkCollision a candidates w = Some (Inr w')"
    and "pass_inv bs w" and "a \<in> bs" and "set candidates \<subseteq> bs"
  shows "pass_inv bs w' \<and> this_quadtree w' = this_quadtree w \<and> this_bodies w' = this_bodies w"
  using assms
proof (induction candidates arbitrary: w)
  case Nil
  then show ?case by simp
next
  case (Cons b rest)
  have b: "b \<in> bs" and rest: "set rest \<subseteq> bs"
    using Cons.prems(4) by simp_all
  show ?case
  proof (cases "((fixed (bodyObjects w a) \<or> sleeping (bodyObjects w a))
          \<and> (fixed (bodyObjects w b) \<or> sleeping (bodyObjects w b)))
         \<or> body_id (bodyObjects w b) \<le> body_id (bodyObjects w a)")
    case True
    then have "checkCollisions_inner checkCollision a rest w = Some (Inr w')"
      using Cons.prems(1) by simp
    then show ?thesis
      using Cons.IH [OF _ Cons.prems(2,3) rest] by simp
  next
    case False
    show ?thesis
    proof (cases "checkCollision (bodyObjects w) a b")
      case None
      then show ?thesis using Cons.prems(1) False by simp
    next
      case (Some outcome)
      show ?thesis
      proof (cases outcome)
        case (Inl e)
        then show ?thesis using Cons.prems(1) False Some by simp
      next
        case (Inr found)
        show ?thesis
        proof (cases found)
          case None
          then have "checkCollisions_inner checkCollision a rest w = Some (Inr w')"
            using Cons.prems(1) False Some Inr by simp
          then show ?thesis
            using Cons.IH [OF _ Cons.prems(2,3) rest] by simp
        next
          case (Some collision)
          let ?w1 = "checkCollisions_confirmed a b collision w"
          have run: "checkCollisions_inner checkCollision a rest ?w1 = Some (Inr w')"
            using Cons.prems(1) False \<open>checkCollision (bodyObjects w) a b = Some outcome\<close> Inr Some
            by simp
          have step: "pass_inv bs ?w1" "this_quadtree ?w1 = this_quadtree w"
            "this_bodies ?w1 = this_bodies w"
            using checkCollisions_confirmed_inv [OF Cons.prems(2,3) b] by simp_all
          show ?thesis
            using Cons.IH [OF run step(1) Cons.prems(3) rest] step(2,3) by simp
        qed
      qed
    qed
  qed
qed

lemma checkCollisions_outer_inv:
  assumes "checkCollisions_outer checkCollision todo w = Some (Inr w')"
    and "pass_inv bs w" and "set todo \<subseteq> bs"
    and "set (QuadTreeNode_getAll (root (this_quadtree w)) []) \<subseteq> bs"
  shows "pass_inv bs w' \<and> this_quadtree w' = this_quadtree w \<and> this_bodies w' = this_bodies w"
  using assms
proof (induction todo arbitrary: w)
  case Nil
  then show ?case by simp
next
  case (Cons a rest)
  let ?candidates = "QuadTree_get (\<lambda>r. bounds (bodyObjects w r)) (this_quadtree w)
                       (bounds (bodyObjects w a))"
  have a: "a \<in> bs" and rest: "set rest \<subseteq> bs"
    using Cons.prems(3) by simp_all
  have cands: "set ?candidates \<subseteq> bs"
    using QuadTree_get_subset [of "\<lambda>r. bounds (bodyObjects w r)" "this_quadtree w"
        "bounds (bodyObjects w a)"] Cons.prems(4) by (rule subset_trans)
  show ?case
  proof (cases "checkCollisions_inner checkCollision a ?candidates w")
    case None
    then show ?thesis using Cons.prems(1) by simp
  next
    case (Some outcome)
    show ?thesis
    proof (cases outcome)
      case (Inl e)
      then show ?thesis using Cons.prems(1) Some by simp
    next
      case (Inr w1)
      have run: "checkCollisions_outer checkCollision rest w1 = Some (Inr w')"
        using Cons.prems(1) Some Inr by simp
      have step: "pass_inv bs w1" "this_quadtree w1 = this_quadtree w"
        "this_bodies w1 = this_bodies w"
        using checkCollisions_inner_inv [OF _ Cons.prems(2) a cands] Some Inr by simp_all
      have qt: "set (QuadTreeNode_getAll (root (this_quadtree w1)) []) \<subseteq> bs"
        using Cons.prems(4) step(2) by simp
      show ?thesis
        using Cons.IH [OF run step(1) rest qt] step(2,3) by simp
    qed
  qed
qed

lemma step_clearIslands_fold:
  "fold (\<lambda>body w'.
           w'\<lparr>bodyObjects := (bodyObjects w')(body := (bodyObjects w' body)\<lparr>island := None\<rparr>)\<rparr>)
        xs w
   = w\<lparr>bodyObjects := (\<lambda>r. if r \<in> set xs then (bodyObjects w r)\<lparr>island := None\<rparr>
                           else bodyObjects w r)\<rparr>"
proof (induction xs arbitrary: w)
  case Nil
  then show ?case by simp
next
  case (Cons x xs)
  show ?case
    unfolding fold_simps Cons.IH
    by (rule PhysicsWorld.equality) (auto simp: fun_eq_iff)
qed

lemma step_clearIslands_view:
  "island (bodyObjects (step_clearIslands w) r)
     = (if r \<in> set (this_bodies w) then None else island (bodyObjects w r))"
  "fixed (bodyObjects (step_clearIslands w) r) = fixed (bodyObjects w r)"
  "this_islands (step_clearIslands w) = []"
  "this_quadtree (step_clearIslands w) = this_quadtree w"
  "this_bodies (step_clearIslands w) = this_bodies w"
  unfolding step_clearIslands_def step_clearIslands_fold by simp_all

lemma step_clearIslands_inv:
  "islands_inv (set (this_bodies w)) (step_clearIslands w)"
  unfolding islands_inv_def step_clearIslands_view by simp

lemma PhysicsEngine_checkCollisions_inv:
  assumes run: "PhysicsEngine_checkCollisions checkCollision w = Some (Inr w')"
    and inv: "islands_inv (set (this_bodies w)) w"
    and qt: "set (QuadTreeNode_getAll (root (this_quadtree w)) []) \<subseteq> set (this_bodies w)"
  shows "pass_inv (set (this_bodies w)) w'"
proof -
  let ?w0 = "w\<lparr>resolvedCollisionIds := Map_keys (this_collisions w), confirmedPairs := []\<rparr>"
  obtain w1 where w1: "checkCollisions_outer checkCollision (this_bodies w) ?w0 = Some (Inr w1)"
    and w': "w' = w1\<lparr>this_collisions := fold Map_delete (resolvedCollisionIds w1) (this_collisions w1)\<rparr>"
    using run unfolding PhysicsEngine_checkCollisions_def
    by (auto split: option.splits sum.splits)
  have "islands_inv (set (this_bodies w)) ?w0"
    using inv islands_inv_cong [of ?w0 w] by simp
  then have inv0: "pass_inv (set (this_bodies w)) ?w0"
    unfolding pass_inv_def by simp
  have "pass_inv (set (this_bodies w)) w1"
    using checkCollisions_outer_inv [OF w1 inv0] qt by simp
  moreover have "islands_inv (set (this_bodies w)) w' = islands_inv (set (this_bodies w)) w1"
    unfolding w' by (rule islands_inv_cong) simp_all
  moreover have "\<And>a b. same_island w' a b = same_island w1 a b"
    unfolding w' by (rule same_island_cong) simp_all
  moreover have "confirmedPairs w' = confirmedPairs w1"
    unfolding w' by simp
  ultimately show ?thesis
    unfolding pass_inv_def by simp
qed

lemma confirmed_pair_same_island:
  assumes "pass_inv bs w" "confirmed_pair w a b"
  shows "a \<in> bs \<and> b \<in> bs \<and> same_island w a b"
proof -
  have "(a, b) \<in> set (confirmedPairs w) \<or> (b, a) \<in> set (confirmedPairs w)"
    using assms(2) unfolding confirmed_pair_def .
  then show ?thesis
  proof
    assume "(a, b) \<in> set (confirmedPairs w)"
    then show ?thesis using assms(1) unfolding pass_inv_def by blast
  next
    assume "(b, a) \<in> set (confirmedPairs w)"
    then have "b \<in> bs \<and> a \<in> bs \<and> same_island w b a"
      using assms(1) unfolding pass_inv_def by blast
    then show ?thesis unfolding same_island_def by auto
  qed
qed

subsection \<open>Claim C6\<close>

text \<open>
  Claim C6, with the premise it needs. Let every body held by the quadtree be in
  \<^verbatim>\<open>this.bodies\<close> (\<^verbatim>\<open>addBody\<close>, and \<^verbatim>\<open>removeBody\<close> of a body of the engine, keep it so), so that the
  step has cleared the island pointer of every body the broad-phase can return. Let the
  step clear the islands and the collision pass run to its end. If the pass has
  confirmed a collision for the pair of \<open>a\<close> and \<open>b\<close> and for the pair of \<open>b\<close> and \<open>c\<close>
  (each in either order), and none of \<open>a\<close>, \<open>b\<close>, \<open>c\<close> is fixed, then there is one island
  in \<^verbatim>\<open>this.islands\<close> that the island pointers of \<open>a\<close>, \<open>b\<close> and \<open>c\<close> all reference and
  that contains all three. This holds for every narrow phase \<open>checkCollision\<close>.
\<close>

theorem island_transitivity:
  assumes broad: "set (QuadTreeNode_getAll (root (this_quadtree w)) []) \<subseteq> set (this_bodies w)"
    and pass: "PhysicsEngine_checkCollisions checkCollision (step_clearIslands w) = Some (Inr w')"
    and ab: "confirmed_pair w' a b" and bc: "confirmed_pair w' b c"
    and free: "\<not> fixed (bodyObjects w' a)" "\<not> fixed (bodyObjects w' b)"
      "\<not> fixed (bodyObjects w' c)"
  shows "\<exists>i. i \<in> set (this_islands w')
            \<and> island (bodyObjects w' a) = Some i
            \<and> island (bodyObjects w' b) = Some i
            \<and> island (bodyObjects w' c) = Some i
            \<and> {a, b, c} \<subseteq> set (islandObjects w' i)"
proof -
  let ?bs = "set (this_bodies w)"
  have "pass_inv (set (this_bodies (step_clearIslands w))) w'"
    using PhysicsEngine_checkCollisions_inv [OF pass]
      step_clearIslands_inv [of w] broad
    by (simp add: step_clearIslands_view)
  then have inv: "pass_inv ?bs w'"
    by (simp add: step_clearIslands_view)
  have 1: "a \<in> ?bs" "b \<in> ?bs" "same_island w' a b"
    using confirmed_pair_same_island [OF inv ab] by simp_all
  have 2: "c \<in> ?bs" "same_island w' b c"
    using confirmed_pair_same_island [OF inv bc] by simp_all
  obtain i where i: "island (bodyObjects w' b) = Some i"
    using 1(3) free(2) unfolding same_island_def by auto
  have a: "island (bodyObjects w' a) = Some i"
    using 1(3) free(1,2) i unfolding same_island_def by simp
  have c: "island (bodyObjects w' c) = Some i"
    using 2(2) free(2,3) i unfolding same_island_def by simp
  have li: "islands_inv ?bs w'"
    using inv unfolding pass_inv_def by simp
  show ?thesis
    using islands_inv_pointer [OF li 1(1) a] islands_inv_pointer [OF li 1(2) i]
      islands_inv_pointer [OF li 2(1) c] a i c
    by (intro exI [of _ i]) simp
qed

subsection \<open>What the collision pass leaves alone\<close>

lemma Island_merge_bodies:
  "\<exists>i'. bodyObjects (Island_merge i j w) r = (bodyObjects w r)\<lparr>island := i'\<rparr>"
proof (cases "r \<in> set (islandObjects w j)")
  case True
  then show ?thesis by (intro exI [of _ "Some i"]) (simp add: Island_merge_eq)
next
  case False
  then show ?thesis
    by (intro exI [of _ "island (bodyObjects w r)"]) (simp add: Island_merge_eq)
qed

lemma RigidBody_addToIsland_bodies:
  "\<exists>i'. bodyObjects (RigidBody_addToIsland x i w) r = (bodyObjects w r)\<lparr>island := i'\<rparr>"
proof (cases "r = x \<and> \<not> fixed (bodyObjects w x)")
  case True
  then show ?thesis by (intro exI [of _ "Some i"]) (simp add: RigidBody_addToIsland_eq)
next
  case False
  then show ?thesis
    by (intro exI [of _ "island (bodyObjects w r)"]) (auto simp: RigidBody_addToIsland_eq)
qed

lemma checkCollisions_newIsland_bodies:
  "\<exists>i'. bodyObjects (checkCollisions_newIsland a b w) r = (bodyObjects w r)\<lparr>island := i'\<rparr>"
proof -
  let ?w1 = "snd (Island_new w)"
  let ?w2 = "RigidBody_addToIsland a (islandsCreated w) ?w1"
  let ?w3 = "RigidBody_addToIsland b (islandsCreated w) ?w2"
  obtain i2 where 2: "bodyObjects ?w2 r = (bodyObjects ?w1 r)\<lparr>island := i2\<rparr>"
    using RigidBody_addToIsland_bodies by blast
  obtain i3 where 3: "bodyObjects ?w3 r = (bodyObjects ?w2 r)\<lparr>island := i3\<rparr>"
    using RigidBody_addToIsland_bodies by blast
  have "bodyObjects (checkCollisions_newIsland a b w) r = bodyObjects ?w3 r"
    unfolding checkCollisions_newIsland_def by (simp add: split_beta Let_def Island_new_view)
  then show ?thesis
    unfolding 3 2 by (intro exI [of _ i3]) (simp add: Island_new_view)
qed

lemma checkCollisions_islands_bodies:
  "\<exists>i'. bodyObjects (checkCollisions_islands a b w) r = (bodyObjects w r)\<lparr>island := i'\<rparr>"
proof -
  have same: "\<exists>i'. bodyObjects w r = (bodyObjects w r)\<lparr>island := i'\<rparr>"
    by (intro exI [of _ "island (bodyObjects w r)"]) simp
  show ?thesis
    unfolding checkCollisions_islands_cases
    using same Island_merge_bodies RigidBody_addToIsland_bodies checkCollisions_newIsland_bodies
    by (simp split: option.splits)
qed

lemma checkCollisions_confirmed_bodies:
  "\<exists>i'. bodyObjects (checkCollisions_confirmed a b collision w) r
        = (bodyObjects w r)\<lparr>sleeping := (if r = a \<or> r = b then False
                                            else sleeping (bodyObjects w r)),
                              island := i'\<rparr>"
proof -
  define w2 where "w2 = w\<lparr>bodyObjects :=
      ((bodyObjects w)(a := (bodyObjects w a)\<lparr>sleeping := False\<rparr>))
        (b := (((bodyObjects w)(a := (bodyObjects w a)\<lparr>sleeping := False\<rparr>)) b)\<lparr>sleeping := False\<rparr>)\<rparr>"
  have result: "bodyObjects (checkCollisions_confirmed a b collision w)
                = bodyObjects (checkCollisions_islands a b w2)"
    unfolding checkCollisions_confirmed_def w2_def
    by (simp add: Let_def split_beta)
  obtain i' where i': "bodyObjects (checkCollisions_islands a b w2) r
                       = (bodyObjects w2 r)\<lparr>island := i'\<rparr>"
    using checkCollisions_islands_bodies by blast
  have "bodyObjects w2 r = (bodyObjects w r)\<lparr>sleeping := (if r = a \<or> r = b then False
                                            else sleeping (bodyObjects w r))\<rparr>"
    unfolding w2_def by simp
  then show ?thesis
    unfolding result i' by (intro exI [of _ i']) simp
qed

lemma checkCollisions_confirmed_view:
  "fixed (bodyObjects (checkCollisions_confirmed a b collision w) r) = fixed (bodyObjects w r)"
  "inverseMass (bodyObjects (checkCollisions_confirmed a b collision w) r)
     = inverseMass (bodyObjects w r)"
  "inverseAngularMass (bodyObjects (checkCollisions_confirmed a b collision w) r)
     = inverseAngularMass (bodyObjects w r)"
  "body_id (bodyObjects (checkCollisions_confirmed a b collision w) r) = body_id (bodyObjects w r)"
  "bounds (bodyObjects (checkCollisions_confirmed a b collision w) r) = bounds (bodyObjects w r)"
  "position (bodyObjects (checkCollisions_confirmed a b collision w) r)
     = position (bodyObjects w r)"
  "rotation (bodyObjects (checkCollisions_confirmed a b collision w) r)
     = rotation (bodyObjects w r)"
  "sleeping (bodyObjects (checkCollisions_confirmed a b collision w) r)
     = (if r = a \<or> r = b then False else sleeping (bodyObjects w r))"
  using checkCollisions_confirmed_bodies [of a b collision w r]
  by (auto simp del: split_paired_Ex)

lemma checkCollisions_confirmed_frame:
  "this_quadtree (checkCollisions_confirmed a b collision w) = this_quadtree w"
  "this_bodies (checkCollisions_confirmed a b collision w) = this_bodies w"
  "this_config (checkCollisions_confirmed a b collision w) = this_config w"
  "this_worldBounds (checkCollisions_confirmed a b collision w) = this_worldBounds w"
  "confirmedPairs (checkCollisions_confirmed a b collision w) = confirmedPairs w @ [(a, b)]"
proof -
  define w2 where "w2 = w\<lparr>bodyObjects :=
      ((bodyObjects w)(a := (bodyObjects w a)\<lparr>sleeping := False\<rparr>))
        (b := (((bodyObjects w)(a := (bodyObjects w a)\<lparr>sleeping := False\<rparr>)) b)\<lparr>sleeping := False\<rparr>)\<rparr>"
  define w3 where "w3 = checkCollisions_islands a b w2"
  obtain X Y where result: "checkCollisions_confirmed a b collision w
      = w3\<lparr>this_collisions := X, resolvedCollisionIds := Y,
           confirmedPairs := confirmedPairs w3 @ [(a, b)]\<rparr>"
    unfolding checkCollisions_confirmed_def w3_def w2_def
    by (simp add: Let_def split_beta)
  have "this_quadtree w3 = this_quadtree w2" "this_bodies w3 = this_bodies w2"
    "confirmedPairs w3 = confirmedPairs w2"
    "this_config w3 = this_config w2" "this_worldBounds w3 = this_worldBounds w2"
    unfolding w3_def checkCollisions_islands_cases
    by (simp_all add: Island_merge_eq RigidBody_addToIsland_eq checkCollisions_newIsland_def
        Island_new_def split_beta Let_def split: option.splits)
  then show "this_quadtree (checkCollisions_confirmed a b collision w) = this_quadtree w"
    "this_bodies (checkCollisions_confirmed a b collision w) = this_bodies w"
    "this_config (checkCollisions_confirmed a b collision w) = this_config w"
    "this_worldBounds (checkCollisions_confirmed a b collision w) = this_worldBounds w"
    "confirmedPairs (checkCollisions_confirmed a b collision w) = confirmedPairs w @ [(a, b)]"
    unfolding result w2_def by simp_all
qed

subsection \<open>The example, evaluated\<close>

lemma example_disc_fields:
  "body_id (example_discs r) = r" "fixed (example_discs r) = False"
  "sleeping (example_discs r) = False" "island (example_discs r) = Some 0"
  "position (example_discs r) = Vec2 (13/2 + 3/2 * real r) 6"
  "bounds (example_discs r) = AABB (Vec2 (11/2 + 3/2 * real r) 5) (Vec2 (15/2 + 3/2 * real r) 7)"
  by (simp_all add: example_discs_def example_disc_def RigidBody_new_def Let_def
      AABB_fromShape_def Circle_setCentre_def Circle_getMinX_def Circle_getMinY_def
      Circle_getMaxX_def Circle_getMaxY_def)

lemma example_quadtree_value:
  "example_quadtree =
     \<lparr>root_bounds = AABB (Vec2 0 0) (Vec2 16 16),
      root = QuadTreeNode [1]
               [Some (QuadTreeNode []
                  [None, None, None, Some (QuadTreeNode [0] [None, None, None, None])]),
                Some (QuadTreeNode []
                  [None, None, Some (QuadTreeNode [2] [None, None, None, None]), None]),
                None, None],
      itemLocations = (\<lambda>item. None)(0 \<mapsto> ([0, 3], 0), 1 \<mapsto> ([], 0), 2 \<mapsto> ([1, 2], 0))\<rparr>"
  by (simp add: example_quadtree_def PhysicsEngine_addBody_def example_disc_fields quadtree_eval)


lemmas get_eval =
  QuadTree_get_def QuadTreeNode_get.simps QuadTreeNode_getAll.simps childBounds_def
  AABB_contains_def AABB_intersects_def AABB_fromDimensions_def upt_4 Let_def

lemma example_getAll:
  "QuadTreeNode_getAll (root example_quadtree) [] = [1, 0, 2]"
  by (simp add: example_quadtree_value QuadTreeNode_getAll.simps)

lemma example_get:
  "QuadTree_get (\<lambda>r. bounds (example_discs r)) example_quadtree (bounds (example_discs 0)) = [1, 0]"
  "QuadTree_get (\<lambda>r. bounds (example_discs r)) example_quadtree (bounds (example_discs 1)) = [1, 0, 2]"
  "QuadTree_get (\<lambda>r. bounds (example_discs r)) example_quadtree (bounds (example_discs 2)) = [1, 2]"
  by (simp_all add: example_quadtree_value example_disc_fields get_eval)


lemma step_clearIslands_bodies:
  "body_id (bodyObjects (step_clearIslands w) r) = body_id (bodyObjects w r)"
  "sleeping (bodyObjects (step_clearIslands w) r) = sleeping (bodyObjects w r)"
  "bounds (bodyObjects (step_clearIslands w) r) = bounds (bodyObjects w r)"
  "position (bodyObjects (step_clearIslands w) r) = position (bodyObjects w r)"
  "rotation (bodyObjects (step_clearIslands w) r) = rotation (bodyObjects w r)"
  "inverseMass (bodyObjects (step_clearIslands w) r) = inverseMass (bodyObjects w r)"
  "inverseAngularMass (bodyObjects (step_clearIslands w) r) = inverseAngularMass (bodyObjects w r)"
  unfolding step_clearIslands_def step_clearIslands_fold by simp_all

lemma example_outer:
  "\<exists>w'. checkCollisions_outer example_checkCollision [0, 1, 2]
           ((step_clearIslands example_engine)
              \<lparr>resolvedCollisionIds := Map_keys (this_collisions (step_clearIslands example_engine)),
               confirmedPairs := []\<rparr>) = Some (Inr w')
        \<and> confirmedPairs w' = [(0, 1), (1, 2)]
        \<and> (\<forall>r. \<not> fixed (bodyObjects w' r))"
proof -
  let ?w0 = "(step_clearIslands example_engine)
              \<lparr>resolvedCollisionIds := Map_keys (this_collisions (step_clearIslands example_engine)),
               confirmedPairs := []\<rparr>"
  let ?w1 = "checkCollisions_confirmed 0 1 (example_discCollision (bodyObjects ?w0) 0 1) ?w0"
  let ?w2 = "checkCollisions_confirmed 1 2 (example_discCollision (bodyObjects ?w1) 1 2) ?w1"
  have e: "bodyObjects example_engine = example_discs" "this_quadtree example_engine = example_quadtree"
    by (simp_all add: example_engine_def)
  note views = step_clearIslands_view step_clearIslands_bodies e example_disc_fields
    checkCollisions_confirmed_view checkCollisions_confirmed_frame
  note cc = example_checkCollision_def Vec2_magnitudeSquared_def Vec2_sub_def
  have q0: "this_quadtree ?w0 = example_quadtree"
    and b0: "\<And>r. bounds (bodyObjects ?w0 r) = bounds (example_discs r)"
    by (simp_all add: views)
  have q1: "this_quadtree ?w1 = example_quadtree"
    and b1: "\<And>r. bounds (bodyObjects ?w1 r) = bounds (example_discs r)"
    by (simp_all add: views)
  have q2: "this_quadtree ?w2 = example_quadtree"
    and b2: "\<And>r. bounds (bodyObjects ?w2 r) = bounds (example_discs r)"
    by (simp_all add: views)
  have i0: "checkCollisions_inner example_checkCollision 0 [1, 0] ?w0 = Some (Inr ?w1)"
    by (simp add: views cc)
  have i1: "checkCollisions_inner example_checkCollision 1 [1, 0, 2] ?w1 = Some (Inr ?w2)"
    by (simp add: views cc)
  have i2: "checkCollisions_inner example_checkCollision 2 [1, 2] ?w2 = Some (Inr ?w2)"
    by (simp add: views cc)
  have "checkCollisions_outer example_checkCollision [0, 1, 2] ?w0 = Some (Inr ?w2)"
    unfolding checkCollisions_outer.simps q0 b0 example_get i0 option.case sum.case
      q1 b1 i1 q2 b2 i2 ..
  moreover have "confirmedPairs ?w2 = [(0, 1), (1, 2)]"
    by (simp add: checkCollisions_confirmed_frame)
  moreover have "\<forall>r. \<not> fixed (bodyObjects ?w2 r)"
    by (simp add: checkCollisions_confirmed_view step_clearIslands_view e example_disc_fields)
  ultimately show ?thesis by blast
qed


theorem island_transitivity_witness:
  "QuadTreeNode_getAll (root (this_quadtree example_engine)) [] = [1, 0, 2]
   \<and> this_bodies example_engine = [0, 1, 2]
   \<and> (\<exists>w'. PhysicsEngine_checkCollisions example_checkCollision (step_clearIslands example_engine)
               = Some (Inr w')
            \<and> confirmedPairs w' = [(0, 1), (1, 2)]
            \<and> (\<exists>i. i \<in> set (this_islands w')
                   \<and> island (bodyObjects w' 0) = Some i
                   \<and> island (bodyObjects w' 1) = Some i
                   \<and> island (bodyObjects w' 2) = Some i
                   \<and> {0, 1, 2} \<subseteq> set (islandObjects w' i)))"
proof -
  have all: "QuadTreeNode_getAll (root (this_quadtree example_engine)) [] = [1, 0, 2]"
    and bodies: "this_bodies example_engine = [0, 1, 2]"
    by (simp_all add: example_engine_def example_getAll)
  have broad: "set (QuadTreeNode_getAll (root (this_quadtree example_engine)) [])
               \<subseteq> set (this_bodies example_engine)"
    unfolding all bodies by simp
  obtain w1 where w1: "checkCollisions_outer example_checkCollision [0, 1, 2]
           ((step_clearIslands example_engine)
              \<lparr>resolvedCollisionIds := Map_keys (this_collisions (step_clearIslands example_engine)),
               confirmedPairs := []\<rparr>) = Some (Inr w1)"
    and p1: "confirmedPairs w1 = [(0, 1), (1, 2)]"
    and f1: "\<forall>r. \<not> fixed (bodyObjects w1 r)"
    using example_outer by blast
  define w' where
    "w' = w1\<lparr>this_collisions := fold Map_delete (resolvedCollisionIds w1) (this_collisions w1)\<rparr>"
  have pass: "PhysicsEngine_checkCollisions example_checkCollision (step_clearIslands example_engine)
              = Some (Inr w')"
    unfolding PhysicsEngine_checkCollisions_def w'_def
    using w1 by (simp add: step_clearIslands_view bodies)
  have pairs: "confirmedPairs w' = [(0, 1), (1, 2)]"
    unfolding w'_def using p1 by simp
  have free: "\<not> fixed (bodyObjects w' 0)" "\<not> fixed (bodyObjects w' 1)" "\<not> fixed (bodyObjects w' 2)"
    unfolding w'_def using f1 by simp_all
  have ab: "confirmed_pair w' 0 1" and bc: "confirmed_pair w' 1 2"
    unfolding confirmed_pair_def pairs by simp_all
  from island_transitivity [OF broad pass ab bc free]
  show ?thesis
    using all bodies pass pairs by blast
qed

subsection \<open>The claim without the premise on the broad-phase\<close>

lemma example_stale_disc_fields:
  "body_id (example_stale_discs r) = r" "fixed (example_stale_discs r) = False"
  "sleeping (example_stale_discs r) = False"
  "island (example_stale_discs r) = (if r = 1 \<or> r = 5 then Some 0 else None)"
  "position (example_stale_discs r) = Vec2 (if r < 6 then [2, 7/2, 5, 10, 23/2, 11] ! r else 14) 6"
  "bounds (example_stale_discs r)
     = AABB (Vec2 ((if r < 6 then [2, 7/2, 5, 10, 23/2, 11] ! r else 14) - 1) 5)
            (Vec2 ((if r < 6 then [2, 7/2, 5, 10, 23/2, 11] ! r else 14) + 1) 7)"
  by (simp_all add: example_stale_discs_def example_disc_def RigidBody_new_def Let_def
      AABB_fromShape_def Circle_setCentre_def Circle_getMinX_def Circle_getMinY_def
      Circle_getMaxX_def Circle_getMaxY_def)

lemma example_stale_members_value:
  "example_stale_members =
     ([0, 1, 2, 3, 4, 5],
      \<lparr>root_bounds = AABB (Vec2 0 0) (Vec2 16 16),
       root = QuadTreeNode []
                [Some (QuadTreeNode [1]
                   [None, None, Some (QuadTreeNode [0] [None, None, None, None]),
                    Some (QuadTreeNode [2] [None, None, None, None])]),
                 Some (QuadTreeNode [4]
                   [None, None, Some (QuadTreeNode [3, 5] [None, None, None, None]), None]),
                 None, None],
       itemLocations = (\<lambda>item. None)(0 \<mapsto> ([0, 2], 0), 1 \<mapsto> ([0], 0), 2 \<mapsto> ([0, 3], 0),
                         3 \<mapsto> ([1, 2], 0), 4 \<mapsto> ([1], 0), 5 \<mapsto> ([1, 2], 1))\<rparr>)"
  by (simp add: example_stale_members_def PhysicsEngine_addBody_def example_stale_disc_fields
      quadtree_eval)

lemma example_stale_removed:
  "PhysicsEngine_removeBody example_stale_members 7 =
     Some ([0, 1, 2, 3, 4], snd example_stale_members)"
  by (simp add: example_stale_members_value PhysicsEngine_removeBody_def QuadTree_remove_def
      Array_indexOf_def)


lemma checkCollisions_islands_state:
  "island (bodyObjects (checkCollisions_islands a b w) r) =
     (case island (bodyObjects w a) of
        Some i \<Rightarrow>
          (case island (bodyObjects w b) of
             Some j \<Rightarrow> if i \<noteq> j \<and> r \<in> set (islandObjects w j) then Some i
                       else island (bodyObjects w r)
           | None \<Rightarrow> if r = b \<and> \<not> fixed (bodyObjects w b) then Some i
                     else island (bodyObjects w r))
      | None \<Rightarrow>
          (case island (bodyObjects w b) of
             Some j \<Rightarrow> if r = a \<and> \<not> fixed (bodyObjects w a) then Some j
                       else island (bodyObjects w r)
           | None \<Rightarrow> if (r = a \<and> \<not> fixed (bodyObjects w a)) \<or> (r = b \<and> \<not> fixed (bodyObjects w b))
                     then Some (islandsCreated w) else island (bodyObjects w r)))"
  "islandObjects (checkCollisions_islands a b w) =
     (case island (bodyObjects w a) of
        Some i \<Rightarrow>
          (case island (bodyObjects w b) of
             Some j \<Rightarrow> if i \<noteq> j
                       then ((islandObjects w)
                               (i := fold (\<lambda>x s. Set_add s x) (islandObjects w j) (islandObjects w i)))
                            (j := [])
                       else islandObjects w
           | None \<Rightarrow> if \<not> fixed (bodyObjects w b)
                     then (islandObjects w)(i := Set_add (islandObjects w i) b)
                     else islandObjects w)
      | None \<Rightarrow>
          (case island (bodyObjects w b) of
             Some j \<Rightarrow> if \<not> fixed (bodyObjects w a)
                       then (islandObjects w)(j := Set_add (islandObjects w j) a)
                       else islandObjects w
           | None \<Rightarrow> (islandObjects w)
                       (islandsCreated w :=
                          (if \<not> fixed (bodyObjects w b)
                           then Set_add (if \<not> fixed (bodyObjects w a) then [a] else []) b
                           else (if \<not> fixed (bodyObjects w a) then [a] else [])))))"
  "this_islands (checkCollisions_islands a b w) =
     (if island (bodyObjects w a) = None \<and> island (bodyObjects w b) = None
      then this_islands w @ [islandsCreated w] else this_islands w)"
  "islandsCreated (checkCollisions_islands a b w) =
     (if island (bodyObjects w a) = None \<and> island (bodyObjects w b) = None
      then Suc (islandsCreated w) else islandsCreated w)"
  unfolding checkCollisions_islands_cases
  by (auto simp: Island_merge_eq RigidBody_addToIsland_eq checkCollisions_newIsland_def
      Island_new_def Set_add_def split_beta Let_def fun_eq_iff split: option.splits)


lemma checkCollisions_confirmed_islands:
  "island (bodyObjects (checkCollisions_confirmed a b collision w) r)
     = island (bodyObjects (checkCollisions_islands a b w) r)"
  "islandObjects (checkCollisions_confirmed a b collision w)
     = islandObjects (checkCollisions_islands a b w)"
  "this_islands (checkCollisions_confirmed a b collision w)
     = this_islands (checkCollisions_islands a b w)"
  "islandsCreated (checkCollisions_confirmed a b collision w)
     = islandsCreated (checkCollisions_islands a b w)"
proof -
  define w2 where "w2 = w\<lparr>bodyObjects :=
      ((bodyObjects w)(a := (bodyObjects w a)\<lparr>sleeping := False\<rparr>))
        (b := (((bodyObjects w)(a := (bodyObjects w a)\<lparr>sleeping := False\<rparr>)) b)\<lparr>sleeping := False\<rparr>)\<rparr>"
  define w3 where "w3 = checkCollisions_islands a b w2"
  obtain X Y where result: "checkCollisions_confirmed a b collision w
      = w3\<lparr>this_collisions := X, resolvedCollisionIds := Y,
           confirmedPairs := confirmedPairs w3 @ [(a, b)]\<rparr>"
    unfolding checkCollisions_confirmed_def w3_def w2_def
    by (simp add: Let_def split_beta)
  have i2: "\<And>r. island (bodyObjects w2 r) = island (bodyObjects w r)"
    and f2: "\<And>r. fixed (bodyObjects w2 r) = fixed (bodyObjects w r)"
    and o2: "islandObjects w2 = islandObjects w" "this_islands w2 = this_islands w"
      "islandsCreated w2 = islandsCreated w"
    unfolding w2_def by simp_all
  have 1: "island (bodyObjects w3 r) = island (bodyObjects (checkCollisions_islands a b w) r)"
    unfolding w3_def checkCollisions_islands_state(1) i2 f2 o2 ..
  have 2: "islandObjects w3 = islandObjects (checkCollisions_islands a b w)"
    unfolding w3_def checkCollisions_islands_state(2) i2 f2 o2 ..
  have 3: "this_islands w3 = this_islands (checkCollisions_islands a b w)"
    unfolding w3_def checkCollisions_islands_state(3) i2 f2 o2 ..
  have 4: "islandsCreated w3 = islandsCreated (checkCollisions_islands a b w)"
    unfolding w3_def checkCollisions_islands_state(4) i2 f2 o2 ..
  show "island (bodyObjects (checkCollisions_confirmed a b collision w) r)
     = island (bodyObjects (checkCollisions_islands a b w) r)"
    "islandObjects (checkCollisions_confirmed a b collision w)
     = islandObjects (checkCollisions_islands a b w)"
    "this_islands (checkCollisions_confirmed a b collision w)
     = this_islands (checkCollisions_islands a b w)"
    "islandsCreated (checkCollisions_confirmed a b collision w)
     = islandsCreated (checkCollisions_islands a b w)"
    unfolding result using 1 2 3 4 by simp_all
qed

lemma example_stale_fields:
  "this_bodies example_stale = [0, 1, 2, 3, 4]"
  "this_quadtree example_stale = snd example_stale_members"
  "bodyObjects example_stale = example_stale_discs"
  "this_islands example_stale = [0]"
  "islandObjects example_stale = (\<lambda>i. [])(0 := [1, 5])"
  "islandsCreated example_stale = 1"
  "this_collisions example_stale = []"
  by (simp_all add: example_stale_def example_stale_removed)

lemma example_stale_getAll:
  "QuadTreeNode_getAll (root (this_quadtree example_stale)) [] = [1, 0, 2, 4, 3, 5]"
  by (simp add: example_stale_fields example_stale_members_value QuadTreeNode_getAll.simps)

lemma example_stale_get:
  "QuadTree_get (\<lambda>r. bounds (example_stale_discs r)) (snd example_stale_members)
     (bounds (example_stale_discs 0)) = [1, 0]"
  "QuadTree_get (\<lambda>r. bounds (example_stale_discs r)) (snd example_stale_members)
     (bounds (example_stale_discs 1)) = [1, 0, 2]"
  "QuadTree_get (\<lambda>r. bounds (example_stale_discs r)) (snd example_stale_members)
     (bounds (example_stale_discs 2)) = [1, 2]"
  "QuadTree_get (\<lambda>r. bounds (example_stale_discs r)) (snd example_stale_members)
     (bounds (example_stale_discs 3)) = [4, 3, 5]"
  "QuadTree_get (\<lambda>r. bounds (example_stale_discs r)) (snd example_stale_members)
     (bounds (example_stale_discs 4)) = [4, 3, 5]"
  by (simp_all add: example_stale_members_value example_stale_disc_fields get_eval)


lemma steers_like_confirmed:
  "steers_like st qt w \<Longrightarrow> steers_like st qt (checkCollisions_confirmed a b collision w)"
  by (simp add: steers_like_def checkCollisions_confirmed_view checkCollisions_confirmed_frame)

lemma steers_like_outer:
  assumes "steers_like st qt w"
    and "QuadTree_get (\<lambda>r. bounds (st r)) qt (bounds (st a)) = candidates"
    and "checkCollisions_inner checkCollision a candidates w = Some (Inr w')"
  shows "checkCollisions_outer checkCollision (a # rest) w
         = checkCollisions_outer checkCollision rest w'"
proof -
  have "(\<lambda>r. bounds (bodyObjects w r)) = (\<lambda>r. bounds (st r))"
    "this_quadtree w = qt" "bounds (bodyObjects w a) = bounds (st a)"
    using assms(1) by (simp_all add: steers_like_def)
  then show ?thesis
    using assms(2,3) by simp
qed

lemma steers_like_skip:
  assumes "steers_like st qt w" "body_id (st b) \<le> body_id (st a)"
  shows "checkCollisions_inner checkCollision a (b # rest) w
         = checkCollisions_inner checkCollision a rest w"
  using assms by (simp add: steers_like_def)

lemma steers_like_miss:
  assumes "steers_like st qt w"
    and "\<not> Vec2_magnitudeSquared (Vec2_sub (position (st b)) (position (st a))) < 4"
  shows "checkCollisions_inner example_checkCollision a (b # rest) w
         = checkCollisions_inner example_checkCollision a rest w"
  using assms by (simp add: steers_like_def example_checkCollision_def)

lemma steers_like_hit:
  assumes "steers_like st qt w" "body_id (st a) < body_id (st b)"
    and "\<not> (fixed (st a) \<and> fixed (st b))"
    and "Vec2_magnitudeSquared (Vec2_sub (position (st b)) (position (st a))) < 4"
  shows "checkCollisions_inner example_checkCollision a (b # rest) w
         = checkCollisions_inner example_checkCollision a rest
             (checkCollisions_confirmed a b (example_discCollision (bodyObjects w) a b) w)"
  using assms by (auto simp: steers_like_def example_checkCollision_def)


lemma example_stale_run:
  "PhysicsEngine_checkCollisions example_checkCollision (step_clearIslands example_stale)
     = Some (Inr example_stale_pass)
   \<and> confirmedPairs example_stale_pass = [(0, 1), (1, 2), (3, 4), (3, 5), (4, 5)]
   \<and> (\<forall>r. fixed (bodyObjects example_stale_pass r) = False)
   \<and> (\<forall>r. island (bodyObjects example_stale_pass r)
            = (if r = 0 \<or> r = 2 then Some 1
               else if r = 1 \<or> r = 3 \<or> r = 4 \<or> r = 5 then Some 2 else None))
   \<and> islandObjects example_stale_pass = (\<lambda>i. [])(1 := [0, 1, 2], 2 := [3, 4, 1, 5])
   \<and> this_islands example_stale_pass = [1, 2]"
proof -
  let ?st = example_stale_discs and ?qt = "snd example_stale_members"
  define w0 where "w0 = (step_clearIslands example_stale)
      \<lparr>resolvedCollisionIds := Map_keys (this_collisions (step_clearIslands example_stale)),
       confirmedPairs := []\<rparr>"
  define w1 where "w1 = checkCollisions_confirmed 0 1 (example_discCollision (bodyObjects w0) 0 1) w0"
  define w2 where "w2 = checkCollisions_confirmed 1 2 (example_discCollision (bodyObjects w1) 1 2) w1"
  define w3 where "w3 = checkCollisions_confirmed 3 4 (example_discCollision (bodyObjects w2) 3 4) w2"
  define w4 where "w4 = checkCollisions_confirmed 3 5 (example_discCollision (bodyObjects w3) 3 5) w3"
  define w5 where "w5 = checkCollisions_confirmed 4 5 (example_discCollision (bodyObjects w4) 4 5) w4"
  note f = example_stale_disc_fields
  have s0: "steers_like ?st ?qt w0"
    unfolding w0_def steers_like_def
    by (simp add: step_clearIslands_view step_clearIslands_bodies example_stale_fields f)
  have s1: "steers_like ?st ?qt w1" unfolding w1_def by (rule steers_like_confirmed [OF s0])
  have s2: "steers_like ?st ?qt w2" unfolding w2_def by (rule steers_like_confirmed [OF s1])
  have s3: "steers_like ?st ?qt w3" unfolding w3_def by (rule steers_like_confirmed [OF s2])
  have s4: "steers_like ?st ?qt w4" unfolding w4_def by (rule steers_like_confirmed [OF s3])
  have s5: "steers_like ?st ?qt w5" unfolding w5_def by (rule steers_like_confirmed [OF s4])
  note d = Vec2_magnitudeSquared_def Vec2_sub_def
  note c01 = steers_like_confirmed [OF s0]
  note c23 = steers_like_confirmed [OF s2]
  have i0: "checkCollisions_inner example_checkCollision 0 [1, 0] w0 = Some (Inr w1)"
    unfolding w1_def
    by (simp add: steers_like_hit [OF s0] steers_like_skip [OF c01] f d
        del: checkCollisions_inner.simps(2))
  have i1: "checkCollisions_inner example_checkCollision 1 [1, 0, 2] w1 = Some (Inr w2)"
    unfolding w2_def
    by (simp add: steers_like_hit [OF s1] steers_like_skip [OF s1] f d
        del: checkCollisions_inner.simps(2))
  have i2: "checkCollisions_inner example_checkCollision 2 [1, 2] w2 = Some (Inr w2)"
    by (simp add: steers_like_skip [OF s2] f d del: checkCollisions_inner.simps(2))
  have i3: "checkCollisions_inner example_checkCollision 3 [4, 3, 5] w2 = Some (Inr w4)"
    unfolding w4_def w3_def
    by (simp add: steers_like_hit [OF s2] steers_like_skip [OF c23] steers_like_hit [OF c23] f d
        del: checkCollisions_inner.simps(2))
  have i4: "checkCollisions_inner example_checkCollision 4 [4, 3, 5] w4 = Some (Inr w5)"
    unfolding w5_def
    by (simp add: steers_like_hit [OF s4] steers_like_skip [OF s4] f d
        del: checkCollisions_inner.simps(2))
  have outer: "checkCollisions_outer example_checkCollision [0, 1, 2, 3, 4] w0 = Some (Inr w5)"
    unfolding steers_like_outer [OF s0 example_stale_get(1) i0]
      steers_like_outer [OF s1 example_stale_get(2) i1]
      steers_like_outer [OF s2 example_stale_get(3) i2]
      steers_like_outer [OF s2 example_stale_get(4) i3]
      steers_like_outer [OF s4 example_stale_get(5) i4]
    by simp
  have pass: "PhysicsEngine_checkCollisions example_checkCollision (step_clearIslands example_stale)
     = Some (Inr (w5\<lparr>this_collisions :=
                       fold Map_delete (resolvedCollisionIds w5) (this_collisions w5)\<rparr>))"
    unfolding PhysicsEngine_checkCollisions_def
    using outer unfolding w0_def by (simp add: step_clearIslands_view example_stale_fields)
  have final: "example_stale_pass = w5\<lparr>this_collisions :=
                       fold Map_delete (resolvedCollisionIds w5) (this_collisions w5)\<rparr>"
    unfolding example_stale_pass_def pass by simp
  have fx: "\<And>w r. steers_like ?st ?qt w \<Longrightarrow> fixed (bodyObjects w r) = False"
    by (simp add: steers_like_def f)
  note ci = checkCollisions_confirmed_islands [unfolded checkCollisions_islands_state]
  have p0: "\<And>r. island (bodyObjects w0 r) = (if r = 5 then Some 0 else None)"
    and o0: "islandObjects w0 = (\<lambda>i. [])(0 := [1, 5])"
    and l0: "this_islands w0 = []" and c0: "islandsCreated w0 = 1"
    unfolding w0_def
    by (auto simp: step_clearIslands_view example_stale_fields f step_clearIslands_def
        step_clearIslands_fold)
  have p1: "\<And>r. island (bodyObjects w1 r)
                 = (if r = 0 \<or> r = 1 then Some 1 else if r = 5 then Some 0 else None)"
    and o1: "islandObjects w1 = (\<lambda>i. [])(0 := [1, 5], 1 := [0, 1])"
    and l1: "this_islands w1 = [1]" and c1: "islandsCreated w1 = 2"
    unfolding w1_def ci
    by (auto simp: p0 o0 l0 c0 fx [OF s0] Set_add_def)
  have p2: "\<And>r. island (bodyObjects w2 r)
                 = (if r = 0 \<or> r = 1 \<or> r = 2 then Some 1 else if r = 5 then Some 0 else None)"
    and o2: "islandObjects w2 = (\<lambda>i. [])(0 := [1, 5], 1 := [0, 1, 2])"
    and l2: "this_islands w2 = [1]" and c2: "islandsCreated w2 = 2"
    unfolding w2_def ci
    by (auto simp: p1 o1 l1 c1 fx [OF s1] Set_add_def)
  have p3: "\<And>r. island (bodyObjects w3 r)
                 = (if r = 0 \<or> r = 1 \<or> r = 2 then Some 1
                    else if r = 3 \<or> r = 4 then Some 2 else if r = 5 then Some 0 else None)"
    and o3: "islandObjects w3 = (\<lambda>i. [])(0 := [1, 5], 1 := [0, 1, 2], 2 := [3, 4])"
    and l3: "this_islands w3 = [1, 2]" and c3: "islandsCreated w3 = 3"
    unfolding w3_def ci
    by (auto simp: p2 o2 l2 c2 fx [OF s2] Set_add_def)
  have p4: "\<And>r. island (bodyObjects w4 r)
                 = (if r = 0 \<or> r = 2 then Some 1
                    else if r = 1 \<or> r = 3 \<or> r = 4 \<or> r = 5 then Some 2 else None)"
    and o4: "islandObjects w4 = (\<lambda>i. [])(0 := [], 1 := [0, 1, 2], 2 := [3, 4, 1, 5])"
    and l4: "this_islands w4 = [1, 2]" and c4: "islandsCreated w4 = 3"
    unfolding w4_def ci
    by (auto simp: p3 o3 l3 c3 fx [OF s3] Set_add_def)
  have p5: "\<And>r. island (bodyObjects w5 r)
                 = (if r = 0 \<or> r = 2 then Some 1
                    else if r = 1 \<or> r = 3 \<or> r = 4 \<or> r = 5 then Some 2 else None)"
    and o5: "islandObjects w5 = (\<lambda>i. [])(0 := [], 1 := [0, 1, 2], 2 := [3, 4, 1, 5])"
    and l5: "this_islands w5 = [1, 2]"
    unfolding w5_def ci
    by (auto simp: p4 o4 l4 c4 fx [OF s4])
  have o5': "islandObjects w5 = (\<lambda>i. [])(1 := [0, 1, 2], 2 := [3, 4, 1, 5])"
    unfolding o5 by (auto simp: fun_eq_iff)
  have pairs: "confirmedPairs w5 = [(0, 1), (1, 2), (3, 4), (3, 5), (4, 5)]"
    unfolding w5_def w4_def w3_def w2_def w1_def w0_def
    by (simp add: checkCollisions_confirmed_frame)
  show ?thesis
    unfolding pass final
    using pairs p5 o5' l5 fx [OF s5] by simp
qed

text \<open>
  C6 as stated fails. The engine \<open>example_stale\<close> is what \<^verbatim>\<open>removeBody\<close> of an absent
  body leaves: disc 5 is in the quadtree and not in \<^verbatim>\<open>this.bodies\<close>, so the step does not
  clear its island pointer, and the island it points to still lists disc 1. The pass
  confirms the pairs (0, 1) and (1, 2) and puts discs 0, 1, 2 into island 1; it then
  confirms (3, 4) and (3, 5), and the merge of the island of disc 5 into the island of
  disc 3 moves disc 1 with it. No disc is fixed, and the pass ends with discs 0 and 2 in
  island 1 and disc 1 in island 2.
\<close>

theorem island_transitivity_counterexample:
  "PhysicsEngine_removeBody example_stale_members 7
     = Some (this_bodies example_stale, this_quadtree example_stale)
   \<and> this_bodies example_stale = [0, 1, 2, 3, 4]
   \<and> QuadTreeNode_getAll (root (this_quadtree example_stale)) [] = [1, 0, 2, 4, 3, 5]
   \<and> PhysicsEngine_checkCollisions example_checkCollision (step_clearIslands example_stale)
       = Some (Inr example_stale_pass)
   \<and> confirmedPairs example_stale_pass = [(0, 1), (1, 2), (3, 4), (3, 5), (4, 5)]
   \<and> fixed (bodyObjects example_stale_pass 0) = False
   \<and> fixed (bodyObjects example_stale_pass 1) = False
   \<and> fixed (bodyObjects example_stale_pass 2) = False
   \<and> island (bodyObjects example_stale_pass 0) = Some 1
   \<and> island (bodyObjects example_stale_pass 1) = Some 2
   \<and> island (bodyObjects example_stale_pass 2) = Some 1"
proof -
  have removed: "PhysicsEngine_removeBody example_stale_members 7
     = Some (this_bodies example_stale, this_quadtree example_stale)"
    by (simp add: example_stale_removed example_stale_fields)
  have run: "PhysicsEngine_checkCollisions example_checkCollision (step_clearIslands example_stale)
       = Some (Inr example_stale_pass)"
    "confirmedPairs example_stale_pass = [(0, 1), (1, 2), (3, 4), (3, 5), (4, 5)]"
    "fixed (bodyObjects example_stale_pass 0) = False"
    "fixed (bodyObjects example_stale_pass 1) = False"
    "fixed (bodyObjects example_stale_pass 2) = False"
    "island (bodyObjects example_stale_pass 0) = Some 1"
    "island (bodyObjects example_stale_pass 1) = Some 2"
    "island (bodyObjects example_stale_pass 2) = Some 1"
    using example_stale_run by simp_all
  show ?thesis
    using removed example_stale_fields(1) example_stale_getAll run by (intro conjI)
qed

section \<open>Fixed bodies\<close>

subsection \<open>No operation writes the inverse masses\<close>

lemma masses_kept_iff:
  "masses_kept st st' \<longleftrightarrow>
     (\<forall>r. fixed (st' r) = fixed (st r)
          \<and> inverseMass (st' r) = inverseMass (st r)
          \<and> inverseAngularMass (st' r) = inverseAngularMass (st r))"
  by (simp add: masses_kept_def masses_of_def)

lemma masses_kept_refl: "masses_kept st st"
  by (simp add: masses_kept_iff)

lemma masses_kept_trans: "masses_kept st st1 \<Longrightarrow> masses_kept st1 st2 \<Longrightarrow> masses_kept st st2"
  by (simp add: masses_kept_iff)

lemma masses_kept_update:
  assumes "fixed b = fixed (st r)" "inverseMass b = inverseMass (st r)"
    "inverseAngularMass b = inverseAngularMass (st r)"
  shows "masses_kept st (st(r := b))"
  using assms by (simp add: masses_kept_iff)

lemma RigidBody_methods_masses:
  "fixed (RigidBody_translate b d) = fixed b"
  "inverseMass (RigidBody_translate b d) = inverseMass b"
  "inverseAngularMass (RigidBody_translate b d) = inverseAngularMass b"
  "fixed (RigidBody_rotate b a) = fixed b"
  "inverseMass (RigidBody_rotate b a) = inverseMass b"
  "inverseAngularMass (RigidBody_rotate b a) = inverseAngularMass b"
  "fixed (RigidBody_applyForce b f p) = fixed b"
  "inverseMass (RigidBody_applyForce b f p) = inverseMass b"
  "inverseAngularMass (RigidBody_applyForce b f p) = inverseAngularMass b"
  "fixed (RigidBody_applyImpulse b f p) = fixed b"
  "inverseMass (RigidBody_applyImpulse b f p) = inverseMass b"
  "inverseAngularMass (RigidBody_applyImpulse b f p) = inverseAngularMass b"
  "fixed (RigidBody_integrate b dt) = fixed b"
  "inverseMass (RigidBody_integrate b dt) = inverseMass b"
  "inverseAngularMass (RigidBody_integrate b dt) = inverseAngularMass b"
  by (simp_all add: RigidBody_translate_def RigidBody_rotate_def RigidBody_applyForce_def
      RigidBody_applyImpulse_def RigidBody_integrate_def Let_def)

lemma RigidBody_new_fixed:
  "fixed (RigidBody_new k shape pos m am rest fric True)"
  "inverseMass (RigidBody_new k shape pos m am rest fric True) = 0"
  "inverseAngularMass (RigidBody_new k shape pos m am rest fric True) = 0"
  by (simp_all add: RigidBody_new_def Let_def)

lemma RigidBody_integrate_fixed: "fixed b \<Longrightarrow> RigidBody_integrate b dt = b"
  by (simp add: RigidBody_integrate_def)

lemma step_integrateBody_masses:
  assumes "step_integrateBody dt r w = Some w'"
  shows "masses_kept (bodyObjects w) (bodyObjects w')"
    and "fixed (bodyObjects w x) \<Longrightarrow> bodyObjects w' x = bodyObjects w x"
    and "this_worldBounds w' = this_worldBounds w" "this_config w' = this_config w"
proof -
  show "masses_kept (bodyObjects w) (bodyObjects w')"
    using assms unfolding step_integrateBody_def Let_def
    by (auto simp: masses_kept_iff RigidBody_methods_masses split: if_splits option.splits)
  show "fixed (bodyObjects w x) \<Longrightarrow> bodyObjects w' x = bodyObjects w x"
    using assms unfolding step_integrateBody_def Let_def
    by (auto split: if_splits option.splits)
  show "this_worldBounds w' = this_worldBounds w" "this_config w' = this_config w"
    using assms unfolding step_integrateBody_def Let_def
    by (auto split: if_splits option.splits)
qed

lemma step_integrate_masses:
  assumes "step_integrate dt bodies w = Some w'"
  shows "masses_kept (bodyObjects w) (bodyObjects w')
         \<and> (fixed (bodyObjects w x) \<longrightarrow> bodyObjects w' x = bodyObjects w x)"
  using assms
proof (induction bodies arbitrary: w)
  case Nil
  then show ?case by (simp add: masses_kept_refl)
next
  case (Cons r rest)
  obtain w1 where 1: "step_integrateBody dt r w = Some w1"
    and 2: "step_integrate dt rest w1 = Some w'"
    using Cons.prems by (auto split: option.splits)
  note a = step_integrateBody_masses [OF 1]
  note b = Cons.IH [OF 2]
  have "masses_kept (bodyObjects w) (bodyObjects w')"
    using a(1) b masses_kept_trans by blast
  moreover have "fixed (bodyObjects w x) \<longrightarrow> bodyObjects w' x = bodyObjects w x"
  proof
    assume fx: "fixed (bodyObjects w x)"
    then have "bodyObjects w1 x = bodyObjects w x" by (rule a(2))
    then show "bodyObjects w' x = bodyObjects w x"
      using b fx by simp
  qed
  ultimately show ?case by simp
qed


lemma masses_kept_two:
  assumes "fixed b1 = fixed (st a)" "inverseMass b1 = inverseMass (st a)"
    "inverseAngularMass b1 = inverseAngularMass (st a)"
    "fixed b2 = fixed ((st(a := b1)) b)" "inverseMass b2 = inverseMass ((st(a := b1)) b)"
    "inverseAngularMass b2 = inverseAngularMass ((st(a := b1)) b)"
  shows "masses_kept st ((st(a := b1))(b := b2))"
  using assms by (simp add: masses_kept_iff)

lemma applyAccumulatedImpulses_loop_masses:
  "masses_kept st (applyAccumulatedImpulses_loop c cs st)"
proof (induction cs arbitrary: st)
  case Nil
  then show ?case by (simp add: masses_kept_refl)
next
  case (Cons contact rest)
  show ?case
    unfolding applyAccumulatedImpulses_loop.simps Let_def
    by (rule masses_kept_trans [OF _ Cons.IH])
       (rule masses_kept_two; simp add: RigidBody_methods_masses)
qed

lemma Collision_applyAccumulatedImpulses_masses:
  "masses_kept st (Collision_applyAccumulatedImpulses c st)"
  unfolding Collision_applyAccumulatedImpulses_def by (rule applyAccumulatedImpulses_loop_masses)

lemma Collision_solvePositionLinearOnly_masses:
  "masses_kept st (Collision_solvePositionLinearOnly c st)"
  unfolding Collision_solvePositionLinearOnly_def Let_def
  by (rule masses_kept_two; simp add: RigidBody_methods_masses)

lemma solveVelocity_normal_masses:
  "masses_kept st (snd (solveVelocity_normal c cs st))"
proof (induction cs arbitrary: st)
  case Nil
  then show ?case by (simp add: masses_kept_refl)
next
  case (Cons contact rest)
  show ?case
    unfolding solveVelocity_normal.simps Let_def split_beta snd_conv
    by (rule masses_kept_trans [OF _ Cons.IH])
       (rule masses_kept_two; simp add: RigidBody_methods_masses)
qed

lemma solveVelocity_tangent_masses:
  "masses_kept st (snd (solveVelocity_tangent c cs st))"
proof (induction cs arbitrary: st)
  case Nil
  then show ?case by (simp add: masses_kept_refl)
next
  case (Cons contact rest)
  show ?case
    unfolding solveVelocity_tangent.simps Let_def split_beta snd_conv
    by (rule masses_kept_trans [OF _ Cons.IH])
       (rule masses_kept_two; simp add: RigidBody_methods_masses)
qed

lemma Collision_solveVelocity_masses:
  "masses_kept st (snd (Collision_solveVelocity c st))"
  unfolding Collision_solveVelocity_def Let_def split_beta snd_conv
  by (rule masses_kept_trans [OF solveVelocity_normal_masses solveVelocity_tangent_masses])

lemma solveVelocity_all_masses:
  "masses_kept st (snd (solveVelocity_all cs st))"
proof (induction cs arbitrary: st)
  case Nil
  then show ?case by (simp add: masses_kept_refl)
next
  case (Cons c cs)
  show ?case
    unfolding solveVelocity_all.simps Let_def split_beta snd_conv
    by (rule masses_kept_trans [OF Collision_solveVelocity_masses Cons.IH])
qed

lemma velocityIterations_loop_masses:
  "masses_kept st (snd (velocityIterations_loop i n cs st))"
proof (induction i n cs st rule: velocityIterations_loop.induct)
  case (1 i n cs st)
  show ?case
  proof (cases "real_of_int i < n")
    case True
    have "masses_kept (snd (solveVelocity_all cs st))
            (snd (velocityIterations_loop (i + 1) n (fst (solveVelocity_all cs st))
                    (snd (solveVelocity_all cs st))))"
      by (rule "1.IH" [OF True]) (simp_all add: prod_eq_iff)
    then show ?thesis
      using True solveVelocity_all_masses [of st cs]
      by (subst velocityIterations_loop.simps)
         (auto simp: split_beta intro: masses_kept_trans)
  next
    case False
    then show ?thesis
      by (subst velocityIterations_loop.simps) (simp add: masses_kept_refl)
  qed
qed

lemma resolveCollisions_prepare_masses:
  "masses_kept st (snd (resolveCollisions_prepare cs st))"
proof (induction cs arbitrary: st)
  case Nil
  then show ?case by (simp add: masses_kept_refl)
next
  case (Cons c cs)
  show ?case
    unfolding resolveCollisions_prepare.simps Let_def split_beta snd_conv
    by (rule masses_kept_trans [OF masses_kept_trans
          [OF Collision_solvePositionLinearOnly_masses Collision_applyAccumulatedImpulses_masses]
          Cons.IH])
qed

lemma PhysicsEngine_resolveCollisions_masses:
  "masses_kept st (snd (PhysicsEngine_resolveCollisions config cs st))"
  unfolding PhysicsEngine_resolveCollisions_def Let_def split_beta
  by (rule masses_kept_trans [OF resolveCollisions_prepare_masses velocityIterations_loop_masses])


lemma step_clearIslands_masses:
  "masses_kept (bodyObjects w) (bodyObjects (step_clearIslands w))"
  unfolding masses_kept_iff
  by (simp add: step_clearIslands_view(2) step_clearIslands_bodies(6,7))

lemma checkCollisions_confirmed_masses:
  "masses_kept (bodyObjects w) (bodyObjects (checkCollisions_confirmed a b collision w))"
  unfolding masses_kept_iff
  by (simp add: checkCollisions_confirmed_view(1,2,3))

lemma checkCollisions_inner_masses:
  assumes "checkCollisions_inner checkCollision a candidates w = Some (Inr w')"
  shows "masses_kept (bodyObjects w) (bodyObjects w')"
  using assms
proof (induction candidates arbitrary: w)
  case Nil
  then show ?case by (simp add: masses_kept_refl)
next
  case (Cons b rest)
  show ?case
  proof (cases "((fixed (bodyObjects w a) \<or> sleeping (bodyObjects w a))
          \<and> (fixed (bodyObjects w b) \<or> sleeping (bodyObjects w b)))
         \<or> body_id (bodyObjects w b) \<le> body_id (bodyObjects w a)")
    case True
    then have "checkCollisions_inner checkCollision a rest w = Some (Inr w')"
      using Cons.prems by simp
    then show ?thesis by (rule Cons.IH)
  next
    case False
    show ?thesis
    proof (cases "checkCollision (bodyObjects w) a b")
      case None
      then show ?thesis using Cons.prems False by simp
    next
      case (Some outcome)
      show ?thesis
      proof (cases outcome)
        case (Inl e)
        then show ?thesis using Cons.prems False Some by simp
      next
        case (Inr found)
        show ?thesis
        proof (cases found)
          case None
          then have "checkCollisions_inner checkCollision a rest w = Some (Inr w')"
            using Cons.prems False Some Inr by simp
          then show ?thesis by (rule Cons.IH)
        next
          case (Some collision)
          have "checkCollisions_inner checkCollision a rest
                  (checkCollisions_confirmed a b collision w) = Some (Inr w')"
            using Cons.prems False \<open>checkCollision (bodyObjects w) a b = Some outcome\<close> Inr Some
            by simp
          then have "masses_kept (bodyObjects (checkCollisions_confirmed a b collision w))
                       (bodyObjects w')"
            by (rule Cons.IH)
          then show ?thesis
            by (rule masses_kept_trans [OF checkCollisions_confirmed_masses])
        qed
      qed
    qed
  qed
qed

lemma checkCollisions_outer_masses:
  assumes "checkCollisions_outer checkCollision todo w = Some (Inr w')"
  shows "masses_kept (bodyObjects w) (bodyObjects w')"
  using assms
proof (induction todo arbitrary: w)
  case Nil
  then show ?case by (simp add: masses_kept_refl)
next
  case (Cons a rest)
  obtain w1 where 1: "checkCollisions_inner checkCollision a
             (QuadTree_get (\<lambda>r. bounds (bodyObjects w r)) (this_quadtree w)
                (bounds (bodyObjects w a))) w = Some (Inr w1)"
    and 2: "checkCollisions_outer checkCollision rest w1 = Some (Inr w')"
    using Cons.prems by (auto split: option.splits sum.splits)
  show ?case
    by (rule masses_kept_trans [OF checkCollisions_inner_masses [OF 1] Cons.IH [OF 2]])
qed

lemma PhysicsEngine_checkCollisions_masses:
  assumes "PhysicsEngine_checkCollisions checkCollision w = Some (Inr w')"
  shows "masses_kept (bodyObjects w) (bodyObjects w')"
proof -
  obtain w1 where 1: "checkCollisions_outer checkCollision (this_bodies w)
             (w\<lparr>resolvedCollisionIds := Map_keys (this_collisions w), confirmedPairs := []\<rparr>)
           = Some (Inr w1)"
    and 2: "w' = w1\<lparr>this_collisions :=
                      fold Map_delete (resolvedCollisionIds w1) (this_collisions w1)\<rparr>"
    using assms unfolding PhysicsEngine_checkCollisions_def
    by (auto split: option.splits sum.splits)
  show ?thesis
    using checkCollisions_outer_masses [OF 1] by (simp add: 2)
qed

lemma step_sleepBody_masses:
  "masses_kept (fst acc) (fst (step_sleepBody config deltaSeconds r acc))"
  unfolding step_sleepBody_def Let_def
  by (auto intro!: masses_kept_update)

lemma sleep_fold_masses:
  "masses_kept (fst acc) (fst (fold (step_sleepBody config deltaSeconds) rs acc))"
proof (induction rs arbitrary: acc)
  case Nil
  then show ?case by (simp add: masses_kept_refl)
next
  case (Cons r rs)
  show ?case
    unfolding fold_simps
    by (rule masses_kept_trans [OF step_sleepBody_masses Cons.IH])
qed

lemma sleeping_fold_masses:
  "masses_kept st (fold (\<lambda>r st. st(r := (st r)\<lparr>sleeping := True\<rparr>)) rs st)"
proof (induction rs arbitrary: st)
  case Nil
  then show ?case by (simp add: masses_kept_refl)
next
  case (Cons r rs)
  show ?case
    unfolding fold_simps
    by (rule masses_kept_trans [OF _ Cons.IH]) (rule masses_kept_update; simp)
qed

lemma step_sleepIsland_masses:
  "masses_kept (bodyObjects w) (bodyObjects (step_sleepIsland deltaSeconds i w))"
proof -
  have a: "masses_kept (bodyObjects w)
             (fst (fold (step_sleepBody (this_config w) deltaSeconds) (islandObjects w i)
                     (bodyObjects w, MAX_VALUE)))"
    using sleep_fold_masses [of "(bodyObjects w, MAX_VALUE)"] by simp
  show ?thesis
    unfolding step_sleepIsland_def Let_def
    using a masses_kept_trans [OF a sleeping_fold_masses] by simp
qed

lemma step_sleepIslands_masses:
  "masses_kept (bodyObjects w) (bodyObjects (fold (step_sleepIsland deltaSeconds) is w))"
proof (induction "is" arbitrary: w)
  case Nil
  then show ?case by (simp add: masses_kept_refl)
next
  case (Cons i "is")
  show ?case
    unfolding fold_simps
    by (rule masses_kept_trans [OF step_sleepIsland_masses Cons.IH])
qed

lemma PhysicsEngine_step_masses:
  assumes "PhysicsEngine_step checkCollision deltaSeconds w = Some (Inr w')"
  shows "masses_kept (bodyObjects w) (bodyObjects w')"
proof -
  obtain w1 w2 where 1: "step_integrate deltaSeconds (this_bodies w) w = Some w1"
    and 2: "PhysicsEngine_checkCollisions checkCollision (step_clearIslands w1) = Some (Inr w2)"
    and 3: "w' = fold (step_sleepIsland deltaSeconds)
                   (this_islands w2)
                   (w2\<lparr>this_collisions := zip (Map_keys (this_collisions w2))
                          (fst (PhysicsEngine_resolveCollisions (this_config w2)
                                 (Map_values (this_collisions w2)) (bodyObjects w2))),
                       bodyObjects := snd (PhysicsEngine_resolveCollisions (this_config w2)
                                 (Map_values (this_collisions w2)) (bodyObjects w2))\<rparr>)"
    using assms unfolding PhysicsEngine_step_def Let_def split_beta
    by (auto split: option.splits sum.splits)
  have a: "masses_kept (bodyObjects w) (bodyObjects w1)"
    using step_integrate_masses [OF 1] by simp
  have b: "masses_kept (bodyObjects w1) (bodyObjects w2)"
    by (rule masses_kept_trans [OF step_clearIslands_masses
          PhysicsEngine_checkCollisions_masses [OF 2]])
  have c: "masses_kept (bodyObjects w2)
             (snd (PhysicsEngine_resolveCollisions (this_config w2)
                     (Map_values (this_collisions w2)) (bodyObjects w2)))"
    by (rule PhysicsEngine_resolveCollisions_masses)
  have d: "masses_kept (snd (PhysicsEngine_resolveCollisions (this_config w2)
                     (Map_values (this_collisions w2)) (bodyObjects w2))) (bodyObjects w')"
    unfolding 3 using step_sleepIslands_masses
      [of "w2\<lparr>this_collisions := zip (Map_keys (this_collisions w2))
                          (fst (PhysicsEngine_resolveCollisions (this_config w2)
                                 (Map_values (this_collisions w2)) (bodyObjects w2))),
                       bodyObjects := snd (PhysicsEngine_resolveCollisions (this_config w2)
                                 (Map_values (this_collisions w2)) (bodyObjects w2))\<rparr>"]
    by simp
  show ?thesis
    by (rule masses_kept_trans [OF a masses_kept_trans [OF b masses_kept_trans [OF c d]]])
qed


lemma run_steps_masses:
  assumes run: "run_steps step dt i n w = Some out"
    and step: "\<And>dt w w'. step dt w = Some (Inr w') \<Longrightarrow> masses_kept (bodyObjects w) (bodyObjects w')"
    and out: "out = Inr w'"
  shows "masses_kept (bodyObjects w) (bodyObjects w')"
proof -
  have "(\<forall>dt w w'. step dt w = Some (Inr w') \<longrightarrow> masses_kept (bodyObjects w) (bodyObjects w'))
        \<longrightarrow> (\<forall>w'. out = Inr w' \<longrightarrow> masses_kept (bodyObjects w) (bodyObjects w'))"
  proof (rule run_steps.raw_induct
      [where P = "\<lambda>step dt i n w out.
         (\<forall>dt w w'. step dt w = Some (Inr w') \<longrightarrow> masses_kept (bodyObjects w) (bodyObjects w'))
         \<longrightarrow> (\<forall>w'. out = Inr w' \<longrightarrow> masses_kept (bodyObjects w) (bodyObjects w'))",
       OF _ run], intro impI allI, goal_cases)
    case (1 rs stp dt i deltaSteps w res w')
    note ih = "1"(1) and body = "1"(2) and st = "1"(3) and o = "1"(4)
    show ?case
    proof (cases "i < deltaSteps")
      case False
      then have "w' = w" using body o by simp
      then show ?thesis by (simp add: masses_kept_refl)
    next
      case True
      obtain w1 where s1: "stp dt w = Some (Inr w1)"
        and r1: "rs stp dt \<lfloor>fl64 (real_of_int i + 1)\<rfloor> deltaSteps w1 = Some (Inr w')"
        using body True o by (auto split: option.splits sum.splits)
      have a: "masses_kept (bodyObjects w) (bodyObjects w1)"
        using st s1 by blast
      have b: "masses_kept (bodyObjects w1) (bodyObjects w')"
        using ih [OF r1] st by blast
      show ?thesis by (rule masses_kept_trans [OF a b])
    qed
  qed
  then show ?thesis using step out by blast
qed

lemma PhysicsEngine_update_masses:
  assumes "PhysicsEngine_update (PhysicsEngine_step checkCollision) deltaSeconds e
             = Some (Inr (n, e'))"
  shows "masses_kept (bodyObjects (world e)) (bodyObjects (world e'))"
proof -
  have "run_steps (PhysicsEngine_step checkCollision) (fixedTimeStep e) 0 n (world e)
          = Some (Inr (world e'))"
    using PhysicsEngine_update_returns [OF assms] by blast
  then show ?thesis
    by (rule run_steps_masses) (rule PhysicsEngine_step_masses, assumption, rule refl)
qed

subsection \<open>The step returns\<close>

lemma step_integrateBody_returns:
  assumes "QuadTree_wf (this_quadtree w)"
  shows "\<exists>w'. step_integrateBody dt r w = Some w' \<and> QuadTree_wf (this_quadtree w')"
proof -
  define b3 where "b3 = RigidBody_translate
      (RigidBody_integrate ((bodyObjects w r)\<lparr>linearVelocity :=
                       Vec2 (vec_x (linearVelocity (bodyObjects w r)))
                            (vec_y (linearVelocity (bodyObjects w r))
                               + gravity (this_config w) * dt)\<rparr>) dt)
      (step_wrap (bounds (RigidBody_integrate ((bodyObjects w r)\<lparr>linearVelocity :=
                       Vec2 (vec_x (linearVelocity (bodyObjects w r)))
                            (vec_y (linearVelocity (bodyObjects w r))
                               + gravity (this_config w) * dt)\<rparr>) dt)) (this_worldBounds w))"
  obtain ins qt' where u: "QuadTree_update (this_quadtree w) r (bounds b3) = Some (ins, qt')"
    and wf: "QuadTree_wf qt'"
    using QuadTree_update_wf [OF assms, of r "bounds b3"] by blast
  show ?thesis
    unfolding step_integrateBody_def Let_def b3_def [symmetric]
    using assms u wf by simp
qed

lemma step_integrate_returns:
  assumes "QuadTree_wf (this_quadtree w)"
  shows "\<exists>w'. step_integrate dt bodies w = Some w' \<and> QuadTree_wf (this_quadtree w')"
  using assms
proof (induction bodies arbitrary: w)
  case Nil
  then show ?case by simp
next
  case (Cons r rest)
  obtain w1 where 1: "step_integrateBody dt r w = Some w1" and 2: "QuadTree_wf (this_quadtree w1)"
    using step_integrateBody_returns [OF Cons.prems] by blast
  show ?case
    using Cons.IH [OF 2] by (simp add: 1)
qed

lemma checkCollisions_inner_returns:
  assumes "\<forall>st a b. \<exists>found. checkCollision st a b = Some (Inr found)"
  shows "\<exists>w'. checkCollisions_inner checkCollision a candidates w = Some (Inr w')"
proof (induction candidates arbitrary: w)
  case Nil
  then show ?case by simp
next
  case (Cons b rest)
  obtain found where f: "checkCollision (bodyObjects w) a b = Some (Inr found)"
    using assms by blast
  show ?case
    using Cons.IH [of w] Cons.IH [of "checkCollisions_confirmed a b (the found) w"]
    by (cases found) (simp_all add: f)
qed

lemma checkCollisions_outer_returns:
  assumes "\<forall>st a b. \<exists>found. checkCollision st a b = Some (Inr found)"
  shows "\<exists>w'. checkCollisions_outer checkCollision todo w = Some (Inr w')"
proof (induction todo arbitrary: w)
  case Nil
  then show ?case by simp
next
  case (Cons a rest)
  obtain w1 where 1: "checkCollisions_inner checkCollision a
             (QuadTree_get (\<lambda>r. bounds (bodyObjects w r)) (this_quadtree w)
                (bounds (bodyObjects w a))) w = Some (Inr w1)"
    using checkCollisions_inner_returns [OF assms] by blast
  show ?case
    using Cons.IH [of w1] by (simp add: 1)
qed

lemma PhysicsEngine_step_returns:
  assumes "QuadTree_wf (this_quadtree w)"
    and "\<forall>st a b. \<exists>found. checkCollision st a b = Some (Inr found)"
  shows "\<exists>w'. PhysicsEngine_step checkCollision dt w = Some (Inr w')"
proof -
  obtain w1 where 1: "step_integrate dt (this_bodies w) w = Some w1"
    using step_integrate_returns [OF assms(1)] by blast
  obtain w2 where 2: "checkCollisions_outer checkCollision (this_bodies (step_clearIslands w1))
             ((step_clearIslands w1)\<lparr>resolvedCollisionIds :=
                  Map_keys (this_collisions (step_clearIslands w1)), confirmedPairs := []\<rparr>)
           = Some (Inr w2)"
    using checkCollisions_outer_returns [OF assms(2)] by blast
  show ?thesis
    unfolding PhysicsEngine_step_def PhysicsEngine_checkCollisions_def
    by (simp add: 1 2 Let_def split_beta)
qed


subsection \<open>The yard, evaluated\<close>

lemma QuadTree_insert_other:
  "y \<noteq> x \<Longrightarrow> itemLocations (snd (QuadTree_insert qt x b)) y = itemLocations qt y"
  by (simp add: QuadTree_insert_def Let_def split_beta)

lemma example_yard_wf: "QuadTree_wf (this_quadtree example_yard)"
proof -
  have 1: "QuadTree_wf (snd (QuadTree_insert (QuadTree_new example_world) (0::nat)
                               (bounds (example_yard_store 0))))"
    by (rule QuadTree_insert_wf [OF QuadTree_new_wf]) (simp add: QuadTree_new_def)
  have 2: "QuadTree_wf (snd (QuadTree_insert
             (snd (QuadTree_insert (QuadTree_new example_world) (0::nat)
                     (bounds (example_yard_store 0))))
             1 (bounds (example_yard_store 1))))"
    by (rule QuadTree_insert_wf [OF 1]) (simp add: QuadTree_insert_other QuadTree_new_def)
  show ?thesis
    using 2 by (simp add: example_yard_def PhysicsEngine_addBody_def)
qed

lemma example_checkCollision_returns:
  "\<forall>st a b. \<exists>found. example_checkCollision st a b = Some (Inr found)"
  by (simp add: example_checkCollision_def)

lemma example_yard_fields:
  "this_bodies example_yard = [0, 1]"
  "fixed (bodyObjects example_yard 0)"
  "inverseMass (bodyObjects example_yard 0) = 0"
  "inverseAngularMass (bodyObjects example_yard 0) = 0"
  "position (bodyObjects example_yard 0) = Vec2 4 10"
  "rotation (bodyObjects example_yard 0) = 0"
  "\<not> fixed (bodyObjects example_yard 1)"
  "inverseMass (bodyObjects example_yard 1) = 1 / 2"
  by (simp_all add: example_yard_def example_yard_store_def RigidBody_new_def Let_def)

lemma example_yard_ball_awake: "\<not> sleeping (bodyObjects example_yard 1)"
  by (simp add: example_yard_def example_yard_store_def RigidBody_new_def Let_def)

lemma example_yard_engine_count:
  "\<lfloor>fl64 (of_int \<lfloor>fl64 (timeElapsed example_yard_engine / fixedTimeStep example_yard_engine)\<rfloor>
            - of_int (stepsElapsed example_yard_engine))\<rfloor> = 1"
  by (simp add: example_yard_engine_def fl64_one)

lemma example_yard_engine_update:
  "\<exists>e'. PhysicsEngine_update (PhysicsEngine_step example_checkCollision) (1 / 500)
           example_yard_engine = Some (Inr (1, e'))"
proof -
  obtain w' where s: "PhysicsEngine_step example_checkCollision
                        (fixedTimeStep example_yard_engine) (world example_yard_engine)
                      = Some (Inr w')"
    using PhysicsEngine_step_returns [OF _ example_checkCollision_returns,
        of "world example_yard_engine" "fixedTimeStep example_yard_engine"] example_yard_wf
    by (auto simp: example_yard_engine_def)
  have r: "run_steps (PhysicsEngine_step example_checkCollision)
             (fixedTimeStep example_yard_engine) 0 1 (world example_yard_engine) = Some (Inr w')"
    by (simp add: run_steps.simps [of _ _ 0] run_steps.simps [of _ _ 1] s fl64_one)
  show ?thesis
    unfolding PhysicsEngine_update_def Let_def example_yard_engine_count
    by (simp add: r)
qed


lemma step_integrateBody_body:
  assumes "step_integrateBody dt r w = Some w'"
    and "\<not> fixed (bodyObjects w r)" and "\<not> sleeping (bodyObjects w r)"
  shows "bodyObjects w' r =
     RigidBody_translate
      (RigidBody_integrate ((bodyObjects w r)\<lparr>linearVelocity :=
                       Vec2 (vec_x (linearVelocity (bodyObjects w r)))
                            (vec_y (linearVelocity (bodyObjects w r))
                               + gravity (this_config w) * dt)\<rparr>) dt)
      (step_wrap (bounds (RigidBody_integrate ((bodyObjects w r)\<lparr>linearVelocity :=
                       Vec2 (vec_x (linearVelocity (bodyObjects w r)))
                            (vec_y (linearVelocity (bodyObjects w r))
                               + gravity (this_config w) * dt)\<rparr>) dt)) (this_worldBounds w))"
  using assms unfolding step_integrateBody_def Let_def
  by (auto split: if_splits option.splits)

lemma example_yard_ball:
  "position (RigidBody_translate
      (RigidBody_integrate ((example_yard_store 1)\<lparr>linearVelocity :=
                       Vec2 (vec_x (linearVelocity (example_yard_store 1)))
                            (vec_y (linearVelocity (example_yard_store 1))
                               + 981 * (1 / 500))\<rparr>) (1 / 500))
      (step_wrap (bounds (RigidBody_integrate ((example_yard_store 1)\<lparr>linearVelocity :=
                       Vec2 (vec_x (linearVelocity (example_yard_store 1)))
                            (vec_y (linearVelocity (example_yard_store 1))
                               + 981 * (1 / 500))\<rparr>) (1 / 500))) example_world))
   = Vec2 (2003 / 500) (1002981 / 250000)"
  by (simp add: example_yard_store_def RigidBody_new_def Let_def RigidBody_integrate_def
      RigidBody_translate_def RigidBody_rotate_def step_wrap_def example_world_def
      AABB_fromDimensions_def AABB_fromShape_def Circle_setCentre_def Circle_getMinX_def
      Circle_getMinY_def Circle_getMaxX_def Circle_getMaxY_def Circle_rotate_def
      Circle_translate_def Vec2_rotate_def Vec2_add_def Vec2_sub_def Vec2_mulScalar_def
      Vec2_zero_def AABB_translate_def)


lemma masses_of_methods:
  "masses_of (RigidBody_translate b d) = masses_of b"
  "masses_of (RigidBody_rotate b a) = masses_of b"
  "masses_of (RigidBody_applyForce b f p) = masses_of b"
  "masses_of (RigidBody_applyImpulse b f p) = masses_of b"
  "masses_of (RigidBody_integrate b dt) = masses_of b"
  by (simp_all add: masses_of_def RigidBody_methods_masses)

text \<open>
  Claim C5. A body constructed fixed has \<^verbatim>\<open>inverseMass\<close> and \<^verbatim>\<open>inverseAngularMass\<close> 0.
  No method of a body and no operation of the engine writes \<^verbatim>\<open>fixed\<close>,
  \<^verbatim>\<open>inverseMass\<close> or \<^verbatim>\<open>inverseAngularMass\<close>: \<^verbatim>\<open>translate\<close>, \<^verbatim>\<open>rotate\<close>,
  \<^verbatim>\<open>applyForce\<close>, \<^verbatim>\<open>applyImpulse\<close> and \<^verbatim>\<open>integrate\<close> return a body with the three
  fields as they were, and the solver methods of a collision, \<^verbatim>\<open>resolveCollisions\<close>, a
  \<^verbatim>\<open>step\<close> that returns and an \<^verbatim>\<open>update\<close> that returns leave the three fields of every
  body as they were; so a fixed body keeps its two zeros. \<^verbatim>\<open>RigidBody.integrate\<close>
  returns a fixed body as it is, and the integration loop of \<^verbatim>\<open>step\<close> leaves every
  fixed body as it is: its position and its rotation, as every other field, are
  unchanged.
\<close>

theorem fixed_body_keeps_masses_and_place:
  "masses_of (RigidBody_new k shape pos m am rest fric True) = (True, 0, 0)
   \<and> masses_of (RigidBody_translate b d) = masses_of b
   \<and> masses_of (RigidBody_rotate b a) = masses_of b
   \<and> masses_of (RigidBody_applyForce b f p) = masses_of b
   \<and> masses_of (RigidBody_applyImpulse b f p) = masses_of b
   \<and> masses_of (RigidBody_integrate b dt) = masses_of b
   \<and> masses_kept st (Collision_solvePositionLinearOnly c st)
   \<and> masses_kept st (Collision_applyAccumulatedImpulses c st)
   \<and> masses_kept st (snd (Collision_solveVelocity c st))
   \<and> masses_kept st (snd (PhysicsEngine_resolveCollisions config cs st))
   \<and> (PhysicsEngine_step checkCollision dt w = Some (Inr w')
        \<longrightarrow> masses_kept (bodyObjects w) (bodyObjects w'))
   \<and> (PhysicsEngine_update (PhysicsEngine_step checkCollision) deltaSeconds e = Some (Inr (n, e'))
        \<longrightarrow> masses_kept (bodyObjects (world e)) (bodyObjects (world e')))
   \<and> (fixed b \<longrightarrow> RigidBody_integrate b dt = b)
   \<and> (step_integrate dt bodies w = Some w1 \<and> fixed (bodyObjects w r)
        \<longrightarrow> bodyObjects w1 r = bodyObjects w r
            \<and> position (bodyObjects w1 r) = position (bodyObjects w r)
            \<and> rotation (bodyObjects w1 r) = rotation (bodyObjects w r))"
proof -
  have new: "masses_of (RigidBody_new k shape pos m am rest fric True) = (True, 0, 0)"
    by (simp add: masses_of_def RigidBody_new_fixed)
  have step: "PhysicsEngine_step checkCollision dt w = Some (Inr w')
        \<longrightarrow> masses_kept (bodyObjects w) (bodyObjects w')"
    using PhysicsEngine_step_masses by blast
  have update: "PhysicsEngine_update (PhysicsEngine_step checkCollision) deltaSeconds e
          = Some (Inr (n, e'))
        \<longrightarrow> masses_kept (bodyObjects (world e)) (bodyObjects (world e'))"
    using PhysicsEngine_update_masses by blast
  have integrate: "fixed b \<longrightarrow> RigidBody_integrate b dt = b"
    by (simp add: RigidBody_integrate_fixed)
  have pass: "step_integrate dt bodies w = Some w1 \<and> fixed (bodyObjects w r)
        \<longrightarrow> bodyObjects w1 r = bodyObjects w r
            \<and> position (bodyObjects w1 r) = position (bodyObjects w r)
            \<and> rotation (bodyObjects w1 r) = rotation (bodyObjects w r)"
    using step_integrate_masses [of dt bodies w w1 r] by simp
  show ?thesis
    by (intro conjI new masses_of_methods Collision_solvePositionLinearOnly_masses
        Collision_applyAccumulatedImpulses_masses Collision_solveVelocity_masses
        PhysicsEngine_resolveCollisions_masses step update integrate pass)
qed

theorem fixed_body_keeps_masses_and_place_witness:
  "(\<exists>w'. PhysicsEngine_step example_checkCollision (1 / 500) example_yard = Some (Inr w')
          \<and> masses_kept (bodyObjects example_yard) (bodyObjects w')
          \<and> masses_of (bodyObjects w' 0) = (True, 0, 0))
   \<and> (\<exists>e'. PhysicsEngine_update (PhysicsEngine_step example_checkCollision) (1 / 500)
               example_yard_engine = Some (Inr (1, e'))
          \<and> masses_kept (bodyObjects (world example_yard_engine)) (bodyObjects (world e'))
          \<and> masses_of (bodyObjects (world e') 0) = (True, 0, 0))
   \<and> fixed (example_yard_store 0)
   \<and> RigidBody_integrate (example_yard_store 0) (1 / 500) = example_yard_store 0
   \<and> (\<exists>w1. step_integrate (1 / 500) [0, 1] example_yard = Some w1
          \<and> fixed (bodyObjects example_yard 0)
          \<and> bodyObjects w1 0 = bodyObjects example_yard 0
          \<and> position (bodyObjects w1 0) = Vec2 4 10
          \<and> rotation (bodyObjects w1 0) = 0
          \<and> position (bodyObjects example_yard 1) = Vec2 4 4
          \<and> position (bodyObjects w1 1) = Vec2 (2003 / 500) (1002981 / 250000))"
proof -
  have m0: "masses_of (bodyObjects example_yard 0) = (True, 0, 0)"
    by (simp add: masses_of_def example_yard_fields)
  obtain w' where s: "PhysicsEngine_step example_checkCollision (1 / 500) example_yard
                        = Some (Inr w')"
    using PhysicsEngine_step_returns [OF example_yard_wf example_checkCollision_returns] by blast
  obtain e' where u: "PhysicsEngine_update (PhysicsEngine_step example_checkCollision) (1 / 500)
               example_yard_engine = Some (Inr (1, e'))"
    using example_yard_engine_update by blast
  obtain w0 where p: "step_integrate (1 / 500) [0, 1] example_yard = Some w0"
    using step_integrate_returns [OF example_yard_wf] by blast
  have f0: "fixed (example_yard_store 0)"
    using example_yard_fields(2) by (simp add: example_yard_def)
  note t = fixed_body_keeps_masses_and_place
    [where k = 0 and shape = "CircleShape (Circle (Vec2 0 0) 1)" and pos = "Vec2 4 10"
       and m = 1 and am = 1 and rest = "1 / 2" and fric = "1 / 2"
       and b = "example_yard_store 0" and d = "Vec2 0 0" and a = 0 and f = "Vec2 0 0"
       and p = "Vec2 0 0" and dt = "1 / 500" and st = example_yard_store
       and c = example_collision and config = PhysicsEngineConfigDefault and cs = "[]"
       and checkCollision = example_checkCollision and w = example_yard and w' = w'
       and deltaSeconds = "1 / 500" and e = example_yard_engine and n = 1 and e' = e'
       and bodies = "[0, 1]" and ?w1.0 = w0 and r = 0]
  have sk: "masses_kept (bodyObjects example_yard) (bodyObjects w')"
    using t s by blast
  have s0: "masses_of (bodyObjects w' 0) = (True, 0, 0)"
    using sk m0 by (simp add: masses_kept_def)
  have uk: "masses_kept (bodyObjects (world example_yard_engine)) (bodyObjects (world e'))"
    using t u by blast
  have u0: "masses_of (bodyObjects (world e') 0) = (True, 0, 0)"
    using uk m0 by (simp add: masses_kept_def example_yard_engine_def)
  have i0: "RigidBody_integrate (example_yard_store 0) (1 / 500) = example_yard_store 0"
    using t f0 by blast
  have p0: "bodyObjects w0 0 = bodyObjects example_yard 0"
    using t p example_yard_fields(2) by blast
  have a: "step_integrateBody (1 / 500) 0 example_yard = Some example_yard"
    by (simp add: step_integrateBody_def example_yard_fields)
  have b: "step_integrateBody (1 / 500) 1 example_yard = Some w0"
    using p by (auto simp: a split: option.splits)
  have p1: "position (bodyObjects w0 1) = Vec2 (2003 / 500) (1002981 / 250000)"
    unfolding step_integrateBody_body [OF b example_yard_fields(7)
        example_yard_ball_awake]
    using example_yard_ball
    by (simp add: example_yard_def PhysicsEngineConfigDefault_def)
  have q: "position (bodyObjects example_yard 1) = Vec2 4 4"
    by (simp add: example_yard_def example_yard_store_def RigidBody_new_def Let_def)
  show ?thesis
    using s sk s0 u uk u0 f0 i0 p p0 p1 q example_yard_fields(2,5,6) by auto
qed


end
